(* ===== verification/Prelude.thy ===== *)
theory Prelude
  imports Main "HOL-Library.Word" "HOL-Library.Char_ord"
begin

text \<open>
  Shared vocabulary of the development: the types the components have in common (byte
  strings, instants, durations, results), the parts of Go's \<open>strings\<close>, \<open>strconv\<close> and
  \<open>time\<close> packages that the gateway's source uses, and the generic lemmas on them.

  A Go string is a sequence of bytes, so \<open>string\<close> (a list of 8-bit characters) models it
  exactly and \<open>length\<close> is Go's \<open>len\<close>. An instant is an \<open>int\<close> number of nanoseconds
  since the Unix epoch, a \<open>time.Duration\<close> an \<open>int\<close> number of nanoseconds that fits 64 bits.
\<close>

named_theorems step_defs \<open>definitions that unfold one step of a component\<close>
named_theorems inv_intros \<open>preservation of a component's invariant by its operations\<close>

section \<open>Types\<close>

type_synonym bytes = string
type_synonym instant = int
type_synonym duration = int
type_synonym int64 = "64 word"
type_synonym 'a result = "string + 'a"
type_synonym form = "(string \<times> string list) list"

abbreviation Ok :: "'a \<Rightarrow> 'a result" where
  "Ok \<equiv> Inr"

abbreviation Err :: "string \<Rightarrow> 'a result" where
  "Err \<equiv> Inl"

section \<open>Time\<close>

definition second :: duration where
  "second = 1000000000"

definition minute :: duration where
  "minute = 60 * second"

definition hour :: duration where
  "hour = 60 * minute"

definition max_int64 :: int where
  "max_int64 = 9223372036854775807"

definition min_int64 :: int where
  "min_int64 = - 9223372036854775808"

text \<open>\<open>Time.Sub\<close> saturates at the ends of the \<open>Duration\<close> range instead of wrapping.\<close>

definition time_sub :: "instant \<Rightarrow> instant \<Rightarrow> duration" where
  "time_sub a b = max min_int64 (min max_int64 (a - b))"

text \<open>\<open>Time.Unix\<close>: whole seconds since the epoch, rounded down.\<close>

definition time_unix :: "instant \<Rightarrow> int" where
  "time_unix t = t div 1000000000"

definition from_unix :: "int \<Rightarrow> instant" where
  "from_unix s = s * 1000000000"

lemmas time_defs = second_def minute_def hour_def

lemma second_pos [simp]: "0 < second" and minute_pos [simp]: "0 < minute"
  and hour_pos [simp]: "0 < hour"
  by (simp_all add: time_defs)

lemma time_unix_mono: "a \<le> b \<Longrightarrow> time_unix a \<le> time_unix b"
  by (simp add: time_unix_def zdiv_mono1)

lemma time_unix_from_unix [simp]: "time_unix (from_unix s) = s"
  by (simp add: time_unix_def from_unix_def)

lemma time_sub_pos_iff [simp]: "0 < time_sub a b \<longleftrightarrow> b < a"
  by (auto simp: time_sub_def min_int64_def max_int64_def)

lemma time_sub_self [simp]: "time_sub a a = 0"
  by (simp add: time_sub_def min_int64_def max_int64_def)

lemma time_sub_le: "b \<le> a \<Longrightarrow> time_sub a b \<le> a - b"
  by (auto simp: time_sub_def min_int64_def)

section \<open>Byte strings\<close>

definition byte :: "char \<Rightarrow> nat" where
  "byte c = of_char c"

lemma byte_lt_256 [simp]: "byte c < 256"
  by (simp add: byte_def)

definition has_prefix :: "string \<Rightarrow> string \<Rightarrow> bool" where
  "has_prefix s p \<longleftrightarrow> take (length p) s = p"

definition has_suffix :: "string \<Rightarrow> string \<Rightarrow> bool" where
  "has_suffix s p \<longleftrightarrow> length p \<le> length s \<and> drop (length s - length p) s = p"

text \<open>\<open>strings.IndexByte\<close>: the index of the first occurrence, \<open>None\<close> for Go's -1.\<close>

fun index_byte :: "string \<Rightarrow> char \<Rightarrow> nat option" where
  "index_byte [] c = None"
| "index_byte (x # xs) c = (if x = c then Some 0 else map_option Suc (index_byte xs c))"

text \<open>\<open>strings.Contains\<close>.\<close>

fun contains_str :: "string \<Rightarrow> string \<Rightarrow> bool" where
  "contains_str [] p \<longleftrightarrow> p = []"
| "contains_str (x # xs) p \<longleftrightarrow> has_prefix (x # xs) p \<or> contains_str xs p"

text \<open>\<open>strings.Split s sep\<close> for a one-byte separator: never the empty list.\<close>

fun split_byte :: "char \<Rightarrow> string \<Rightarrow> string list" where
  "split_byte c [] = [[]]"
| "split_byte c (x # xs) =
     (if x = c then [] # split_byte c xs
      else (case split_byte c xs of [] \<Rightarrow> [[x]] | y # ys \<Rightarrow> (x # y) # ys))"

text \<open>\<open>strings.SplitN s sep 2\<close> for a one-byte separator, as the pair when both halves exist.\<close>

definition cut_byte :: "char \<Rightarrow> string \<Rightarrow> (string \<times> string) option" where
  "cut_byte c s = (case index_byte s c of None \<Rightarrow> None | Some i \<Rightarrow> Some (take i s, drop (Suc i) s))"

text \<open>\<open>strings.Join\<close>.\<close>

fun join :: "string \<Rightarrow> string list \<Rightarrow> string" where
  "join sep [] = []"
| "join sep [x] = x"
| "join sep (x # y # ys) = x @ sep @ join sep (y # ys)"

subsection \<open>Case mapping\<close>

definition ascii_lower_char :: "char \<Rightarrow> char" where
  "ascii_lower_char c = (if 65 \<le> byte c \<and> byte c \<le> 90 then char_of (byte c + 32) else c)"

definition ascii_upper_char :: "char \<Rightarrow> char" where
  "ascii_upper_char c = (if 97 \<le> byte c \<and> byte c \<le> 122 then char_of (byte c - 32) else c)"

text \<open>
  \<open>strings.EqualFold s t\<close> against a literal \<open>t\<close> of the same byte length that contains
  no \<open>k\<close> or \<open>s\<close> (the two ASCII letters with a non-ASCII simple fold): folding ASCII
  letters decides it.
\<close>

definition equal_fold :: "string \<Rightarrow> string \<Rightarrow> bool" where
  "equal_fold s t \<longleftrightarrow> map ascii_lower_char s = map ascii_lower_char t"

text \<open>
  \<open>strings.ToUpper\<close> and \<open>strings.ToLower\<close> where the result is only compared with ASCII
  literals. Besides the ASCII letters, exactly two further code points map into ASCII in
  each direction: U+0131 to \<open>I\<close> and U+017F to \<open>S\<close> (upper), U+0130 to \<open>i\<close> and
  U+212A to \<open>k\<close> (lower). Every other non-ASCII code point maps to non-ASCII text, so
  leaving it alone does not change any such comparison.
\<close>

fun to_upper :: "string \<Rightarrow> string" where
  "to_upper [] = []"
| "to_upper [c] = [ascii_upper_char c]"
| "to_upper (c # d # s) =
     (if byte c = 196 \<and> byte d = 177 then CHR ''I'' # to_upper s
      else if byte c = 197 \<and> byte d = 191 then CHR ''S'' # to_upper s
      else ascii_upper_char c # to_upper (d # s))"

fun to_lower :: "string \<Rightarrow> string" where
  "to_lower [] = []"
| "to_lower (c # s) =
     (case s of
        d # s' \<Rightarrow>
          (if byte c = 196 \<and> byte d = 176 then CHR ''i'' # to_lower s'
           else (case s' of
              e # s'' \<Rightarrow>
                (if byte c = 226 \<and> byte d = 132 \<and> byte e = 170 then CHR ''k'' # to_lower s''
                 else ascii_lower_char c # to_lower s)
            | [] \<Rightarrow> ascii_lower_char c # to_lower s))
      | [] \<Rightarrow> [ascii_lower_char c])"

subsection \<open>TrimSpace\<close>

text \<open>
  \<open>strings.TrimSpace\<close> removes leading and trailing code points with Unicode's
  \<open>White_Space\<close> property. UTF-8 is self-synchronising, so on bytes that is removing the
  encodings of those code points: the six ASCII blanks, U+0085, U+00A0, U+1680,
  U+2000 to U+200A, U+2028, U+2029, U+202F, U+205F and U+3000.
\<close>

fun space_prefix :: "nat list \<Rightarrow> nat" where
  "space_prefix (a # b # c # s) =
     (if a \<in> {9, 10, 11, 12, 13, 32} then 1
      else if a = 194 \<and> b \<in> {133, 160} then 2
      else if a = 225 \<and> b = 154 \<and> c = 128
        \<or> a = 226 \<and> b = 128 \<and> (128 \<le> c \<and> c \<le> 138 \<or> c \<in> {168, 169, 175})
        \<or> a = 226 \<and> b = 129 \<and> c = 159
        \<or> a = 227 \<and> b = 128 \<and> c = 128 then 3
      else 0)"
| "space_prefix [a, b] =
     (if a \<in> {9, 10, 11, 12, 13, 32} then 1 else if a = 194 \<and> b \<in> {133, 160} then 2 else 0)"
| "space_prefix [a] = (if a \<in> {9, 10, 11, 12, 13, 32} then 1 else 0)"
| "space_prefix [] = 0"

fun space_suffix :: "nat list \<Rightarrow> nat" where
  \<comment> \<open>the bytes in reverse order\<close>
  "space_suffix (c # b # a # s) =
     (if c \<in> {9, 10, 11, 12, 13, 32} then 1
      else if b = 194 \<and> c \<in> {133, 160} then 2
      else if a = 225 \<and> b = 154 \<and> c = 128
        \<or> a = 226 \<and> b = 128 \<and> (128 \<le> c \<and> c \<le> 138 \<or> c \<in> {168, 169, 175})
        \<or> a = 226 \<and> b = 129 \<and> c = 159
        \<or> a = 227 \<and> b = 128 \<and> c = 128 then 3
      else 0)"
| "space_suffix [c, b] =
     (if c \<in> {9, 10, 11, 12, 13, 32} then 1 else if b = 194 \<and> c \<in> {133, 160} then 2 else 0)"
| "space_suffix [c] = (if c \<in> {9, 10, 11, 12, 13, 32} then 1 else 0)"
| "space_suffix [] = 0"

lemma space_prefix_Nil: "space_prefix (map byte s) = Suc n \<Longrightarrow> s \<noteq> []"
  by auto

lemma space_suffix_Nil: "space_suffix (map byte s) = Suc n \<Longrightarrow> s \<noteq> []"
  by auto

function trim_left :: "string \<Rightarrow> string" where
  "trim_left s =
     (case space_prefix (map byte s) of 0 \<Rightarrow> s | Suc n \<Rightarrow> trim_left (drop (Suc n) s))"
  by pat_completeness auto
termination
  by (relation "measure length") (use space_prefix_Nil in fastforce)+

function trim_right_rev :: "string \<Rightarrow> string" where
  "trim_right_rev s =
     (case space_suffix (map byte s) of 0 \<Rightarrow> s | Suc n \<Rightarrow> trim_right_rev (drop (Suc n) s))"
  by pat_completeness auto
termination
  by (relation "measure length") (use space_suffix_Nil in fastforce)+

declare trim_left.simps [simp del] trim_right_rev.simps [simp del]

definition trim_space :: "string \<Rightarrow> string" where
  "trim_space s = rev (trim_right_rev (rev (trim_left s)))"

subsection \<open>Decimal numbers\<close>

definition is_digit :: "char \<Rightarrow> bool" where
  "is_digit c \<longleftrightarrow> 48 \<le> byte c \<and> byte c \<le> 57"

definition dec_value :: "string \<Rightarrow> int" where
  "dec_value s = foldl (\<lambda>n c. 10 * n + (int (byte c) - 48)) 0 s"

text \<open>
  \<open>strconv.ParseInt s 10 64\<close>: an optional sign, then one or more digits, and the value in
  range. \<open>None\<close> stands for both of its errors.
\<close>

definition parse_int64 :: "string \<Rightarrow> int option" where
  "parse_int64 s =
     (let neg = has_prefix s ''-'';
          ds = (if neg \<or> has_prefix s ''+'' then drop 1 s else s);
          v = (if neg then - dec_value ds else dec_value ds)
      in if ds \<noteq> [] \<and> list_all is_digit ds \<and> min_int64 \<le> v \<and> v \<le> max_int64 then Some v else None)"

function show_nat :: "nat \<Rightarrow> string" where
  "show_nat n =
     (if n < 10 then [char_of (48 + n)] else show_nat (n div 10) @ [char_of (48 + n mod 10)])"
  by pat_completeness auto
termination
  by (relation "measure id") auto

declare show_nat.simps [simp del]

text \<open>\<open>strconv.FormatInt n 10\<close>.\<close>

definition show_int :: "int \<Rightarrow> string" where
  "show_int n = (if n < 0 then CHR ''-'' # show_nat (nat (- n)) else show_nat (nat n))"

section \<open>Generic lemmas\<close>

lemma index_byte_Some_less: "index_byte s c = Some i \<Longrightarrow> i < length s"
  by (induction s arbitrary: i) (auto split: if_splits)

lemma index_byte_take: "index_byte s c = Some i \<Longrightarrow> c \<notin> set (take i s)"
  by (induction s arbitrary: i) (auto split: if_splits)

lemma index_byte_append: "c \<notin> set s \<Longrightarrow> index_byte (s @ c # t) c = Some (length s)"
  by (induction s) auto

lemma cut_byte_append: "c \<notin> set s \<Longrightarrow> cut_byte c (s @ c # t) = Some (s, t)"
  by (simp add: cut_byte_def index_byte_append)

lemma split_byte_ne [simp]: "split_byte c s \<noteq> []"
  by (induction s) (auto split: list.splits)

lemma has_prefix_append [simp]: "has_prefix (p @ s) p"
  by (simp add: has_prefix_def)

lemma has_prefix_iff: "has_prefix s p \<longleftrightarrow> (\<exists>t. s = p @ t)"
  by (metis append_take_drop_id has_prefix_append has_prefix_def)

lemma equal_fold_refl [simp]: "equal_fold s s"
  by (simp add: equal_fold_def)

lemma equal_fold_length: "equal_fold s t \<Longrightarrow> length s = length t"
  by (metis equal_fold_def length_map)

lemma show_nat_ne [simp]: "show_nat n \<noteq> []"
  by (subst show_nat.simps) simp

lemma byte_char_of: "n < 256 \<Longrightarrow> byte (char_of n) = n"
  by (simp add: byte_def)

lemma dec_value_snoc: "dec_value (s @ [c]) = 10 * dec_value s + (int (byte c) - 48)"
  by (simp add: dec_value_def)

lemma show_nat_digits: "list_all is_digit (show_nat n) \<and> dec_value (show_nat n) = int n"
proof (induction n rule: show_nat.induct)
  case (1 n)
  show ?case
  proof (cases "n < 10")
    case True
    then show ?thesis
      by (subst (1 2) show_nat.simps) (simp add: is_digit_def byte_char_of dec_value_def)
  next
    case False
    have eq: "show_nat n = show_nat (n div 10) @ [char_of (48 + n mod 10)]"
      using False by (subst show_nat.simps) simp
    have b: "byte (char_of (48 + n mod 10)) = 48 + n mod 10"
      by (simp add: byte_char_of)
    have "int n = 10 * int (n div 10) + int (n mod 10)"
      by (metis div_mult_mod_eq mult.commute of_nat_add of_nat_mult of_nat_numeral)
    then show ?thesis
      using "1.IH" [OF False] b by (simp add: eq is_digit_def dec_value_snoc)
  qed
qed

lemma has_prefix_Cons_simps [simp]:
  "has_prefix (x # xs) (y # ys) \<longleftrightarrow> x = y \<and> has_prefix xs ys"
  "has_prefix xs []" "\<not> has_prefix [] (y # ys)"
  by (auto simp: has_prefix_def)

lemma is_digit_not_sign: "is_digit c \<Longrightarrow> c \<noteq> CHR ''-'' \<and> c \<noteq> CHR ''+'' \<and> c \<noteq> CHR ''.''"
  by (auto simp: is_digit_def byte_def)

text \<open>Parsing undoes printing, on the whole 64-bit range.\<close>

lemma parse_show_int:
  assumes "min_int64 \<le> n" and "n \<le> max_int64"
  shows "parse_int64 (show_int n) = Some n"
proof (cases "n < 0")
  case True
  then show ?thesis
    using assms show_nat_digits [of "nat (- n)"]
    by (simp add: parse_int64_def show_int_def Let_def)
next
  case False
  obtain c cs where c: "show_nat (nat n) = c # cs"
    using show_nat_ne [of "nat n"] by (meson neq_Nil_conv)
  have "is_digit c"
    using show_nat_digits [of "nat n"] c by simp
  with False c assms show_nat_digits [of "nat n"] show ?thesis
    by (auto simp: parse_int64_def show_int_def Let_def dest: is_digit_not_sign)
qed

lemma show_int_no_dot: "CHR ''.'' \<notin> set (show_int n)"
  using show_nat_digits [of "nat n"] show_nat_digits [of "nat (- n)"]
  by (auto simp: show_int_def list_all_iff dest: is_digit_not_sign)

lemma split_byte_no_sep: "c \<notin> set s \<Longrightarrow> split_byte c s = [s]"
  by (induction s) auto

lemma split_byte_sep: "c \<notin> set s \<Longrightarrow> split_byte c (s @ c # t) = s # split_byte c t"
  by (induction s) auto

lemma split_byte_join:
  "\<lbrakk>\<forall>s \<in> set ss. c \<notin> set s; ss \<noteq> []\<rbrakk> \<Longrightarrow> split_byte c (join [c] ss) = ss"
proof (induction "[c]" ss rule: join.induct)
  case (2 s)
  then show ?case by (simp add: split_byte_no_sep)
next
  case (3 s t ss)
  then show ?case by (simp add: split_byte_sep)
qed simp

lemma join_inj:
  assumes "join [c] ss = join [c] ts" "\<forall>s \<in> set ss. c \<notin> set s" "\<forall>s \<in> set ts. c \<notin> set s" "ss \<noteq> []" "ts \<noteq> []"
  shows "ss = ts"
  using assms split_byte_join by metis

end
