(* ===== verification/Spam_Checks.thy ===== *)
theory Spam_Checks
  imports Prelude
begin

text \<open>
  The pure request checks: \<open>core/spam\<close> (honeypot, origin, size strings, verdicts),
  \<open>core/csrf\<close> and the proof-of-browser gate that reuses its tokens, \<open>core/validate\<close> and
  \<open>core/response\<close>. The standard library's URL parser, HMAC-SHA256 and \<open>net/mail\<close> address
  parser are parameters.
\<close>

section \<open>Forms\<close>

text \<open>\<open>url.Values.Get\<close> and the map lookup.\<close>

definition form_values :: "form \<Rightarrow> string \<Rightarrow> string list" where
  "form_values form name = (case map_of form name of None \<Rightarrow> [] | Some vs \<Rightarrow> vs)"

definition form_get :: "form \<Rightarrow> string \<Rightarrow> string" where
  "form_get form name = (case form_values form name of [] \<Rightarrow> [] | v # _ \<Rightarrow> v)"

definition form_delete :: "string list \<Rightarrow> form \<Rightarrow> form" where
  "form_delete names form = filter (\<lambda>(k, _). k \<notin> set names) form"

section \<open>Spam checks\<close>

datatype spam_result = Pass | SilentReject | HardReject

definition check_honeypot :: "form \<Rightarrow> string \<Rightarrow> spam_result" where
  "check_honeypot form field =
     (if field = [] then Pass
      else case map_of form field of
        None \<Rightarrow> Pass
      | Some values \<Rightarrow> if list_ex (\<lambda>v. trim_space v \<noteq> []) values then SilentReject else Pass)"

text \<open>
  \<open>parse_url\<close> is \<open>url.Parse\<close>, giving the scheme and the host; \<open>lower\<close> is
  \<open>strings.ToLower\<close>.
\<close>

record urls =
  parse_url :: "string \<Rightarrow> (string \<times> string) option"
  url_lower :: "string \<Rightarrow> string"

definition normalize_origin :: "urls \<Rightarrow> string \<Rightarrow> string option" where
  "normalize_origin U raw =
     (case parse_url U raw of
        None \<Rightarrow> None
      | Some (scheme, host) \<Rightarrow>
          if scheme = [] \<or> host = [] then None
          else Some (url_lower U scheme @ ''://'' @ url_lower U host))"

definition origin_from_referer :: "urls \<Rightarrow> string \<Rightarrow> string option" where
  "origin_from_referer U referer =
     (case parse_url U referer of
        None \<Rightarrow> None
      | Some (scheme, host) \<Rightarrow> if scheme = [] \<or> host = [] then None else Some (scheme @ ''://'' @ host))"

definition matches_allowed :: "urls \<Rightarrow> string \<Rightarrow> string list \<Rightarrow> bool" where
  "matches_allowed U candidate allowed =
     (case normalize_origin U candidate of
        None \<Rightarrow> False
      | Some c \<Rightarrow> list_ex (\<lambda>a. normalize_origin U a = Some c) allowed)"

datatype origin_reason = NoReason | BothMissing | NotInAllowList

definition check_origin :: "urls \<Rightarrow> string \<Rightarrow> string \<Rightarrow> string list \<Rightarrow> spam_result \<times> origin_reason" where
  "check_origin U origin referer allowed =
     (if allowed = [] then (Pass, NoReason)
      else if origin = [] \<and> referer = [] then (HardReject, BothMissing)
      else if origin \<noteq> [] \<and> matches_allowed U origin allowed then (Pass, NoReason)
      else if referer \<noteq> [] \<and>
        (case origin_from_referer U referer of None \<Rightarrow> False | Some r \<Rightarrow> matches_allowed U r allowed)
      then (Pass, NoReason)
      else (HardReject, NotInAllowList))"

text \<open>\<open>ParseSize\<close>: the product is an \<open>int64\<close> multiplication, which wraps.\<close>

datatype size_error = BadNumber string | Negative int

definition size_unit :: "string \<Rightarrow> string \<times> int" where
  "size_unit upper =
     (let n = length upper
      in if has_suffix upper ''GB'' then (take (n - 2) upper, 1024 * 1024 * 1024)
         else if has_suffix upper ''MB'' then (take (n - 2) upper, 1024 * 1024)
         else if has_suffix upper ''KB'' then (take (n - 2) upper, 1024)
         else if has_suffix upper ''B'' then (take (n - 1) upper, 1)
         else (upper, 1))"

definition parse_size :: "string \<Rightarrow> size_error + int" where
  "parse_size raw =
     (let s = trim_space raw
      in if s = [] then Inr 0
         else let (digits, multiplier) = size_unit (to_upper s)
           in case parse_int64 (trim_space digits) of
                None \<Rightarrow> Inl (BadNumber digits)
              | Some n \<Rightarrow> if n < 0 then Inl (Negative n)
                  else Inr (sint (word_of_int n * word_of_int multiplier :: int64)))"

record verdict =
  v_blocked :: bool
  v_silent :: bool
  v_status :: int
  v_kind :: string
  v_event :: string
  v_failed_open :: bool

definition passes :: verdict where
  "passes = \<lparr>v_blocked = False, v_silent = False, v_status = 0, v_kind = [], v_event = [], v_failed_open = False\<rparr>"

definition blocks :: "string \<Rightarrow> verdict" where
  "blocks kind = passes\<lparr>v_blocked := True, v_kind := kind\<rparr>"

section \<open>CSRF tokens\<close>

definition hex_digit :: "nat \<Rightarrow> char" where
  "hex_digit n = char_of (if n < 10 then 48 + n else 87 + n)"

fun hex_encode :: "bytes \<Rightarrow> string" where
  "hex_encode [] = []"
| "hex_encode (c # s) = hex_digit (byte c div 16) # hex_digit (byte c mod 16) # hex_encode s"

definition hex_value :: "char \<Rightarrow> nat option" where
  "hex_value c =
     (let b = byte c
      in if 48 \<le> b \<and> b \<le> 57 then Some (b - 48)
         else if 97 \<le> b \<and> b \<le> 102 then Some (b - 87)
         else if 65 \<le> b \<and> b \<le> 70 then Some (b - 55)
         else None)"

fun hex_decode :: "string \<Rightarrow> bytes option" where
  "hex_decode [] = Some []"
| "hex_decode [c] = None"
| "hex_decode (a # b # s) =
     (case (hex_value a, hex_value b, hex_decode s) of
        (Some x, Some y, Some r) \<Rightarrow> Some (char_of (16 * x + y) # r)
      | _ \<Rightarrow> None)"

datatype csrf_error = MissingToken | MalformedToken | InvalidSignature | Expired

text \<open>\<open>mac message secret\<close> is HMAC-SHA256.\<close>

type_synonym mac = "bytes \<Rightarrow> bytes \<Rightarrow> bytes"

definition csrf_issue :: "mac \<Rightarrow> bytes \<Rightarrow> instant \<Rightarrow> string" where
  "csrf_issue mac secret issued_at =
     (let ts = show_int (time_unix issued_at) in ts @ ''.'' @ hex_encode (mac ts secret))"

definition csrf_verify :: "mac \<Rightarrow> string \<Rightarrow> bytes \<Rightarrow> duration \<Rightarrow> instant \<Rightarrow> csrf_error option" where
  "csrf_verify mac token secret ttl now =
     (if token = [] then Some MissingToken
      else case cut_byte (CHR ''.'') token of
        None \<Rightarrow> Some MalformedToken
      | Some (ts, sig_hex) \<Rightarrow>
          (case parse_int64 ts of
             None \<Rightarrow> Some MalformedToken
           | Some ts_unix \<Rightarrow>
               (case hex_decode sig_hex of
                  None \<Rightarrow> Some MalformedToken
                | Some got \<Rightarrow>
                    if got \<noteq> mac ts secret then Some InvalidSignature
                    else if time_sub now (from_unix ts_unix) > ttl then Some Expired
                    else None)))"

definition validate_secret :: "bytes \<Rightarrow> bool" where
  "validate_secret secret \<longleftrightarrow> length secret \<ge> 16"

subsection \<open>Proof of browser\<close>

record pob_gate =
  pob_secret :: bytes
  pob_ttl :: duration
  pob_min_age :: duration

datatype pob_error = PobToken csrf_error | PobReparse | PobTooNew

definition pob_issue :: "mac \<Rightarrow> pob_gate \<Rightarrow> instant \<Rightarrow> string" where
  "pob_issue mac p now = csrf_issue mac (pob_secret p) now"

definition pob_verify :: "mac \<Rightarrow> pob_gate \<Rightarrow> string \<Rightarrow> instant \<Rightarrow> pob_error option" where
  "pob_verify mac p token now =
     (case csrf_verify mac token (pob_secret p) (pob_ttl p) now of
        Some e \<Rightarrow> Some (PobToken e)
      | None \<Rightarrow>
          if pob_min_age p > 0 then
            (case cut_byte (CHR ''.'') token of
               None \<Rightarrow> Some PobReparse
             | Some (ts, _) \<Rightarrow>
                 (case parse_int64 ts of
                    None \<Rightarrow> Some PobReparse
                  | Some unix \<Rightarrow> if time_sub now (from_unix unix) < pob_min_age p then Some PobTooNew else None))
          else None)"

section \<open>Validation\<close>

definition any_non_empty :: "string list \<Rightarrow> bool" where
  "any_non_empty vs \<longleftrightarrow> list_ex (\<lambda>v. trim_space v \<noteq> []) vs"

definition required_fields :: "form \<Rightarrow> string list \<Rightarrow> string list" where
  "required_fields form required =
     filter (\<lambda>name. case map_of form name of None \<Rightarrow> True | Some vs \<Rightarrow> \<not> any_non_empty vs) required"

text \<open>\<open>parse_address\<close> is \<open>mail.ParseAddress\<close>: the display name and the address.\<close>

type_synonym mail_parser = "string \<Rightarrow> (string \<times> string) option"

definition email_ok :: "mail_parser \<Rightarrow> string \<Rightarrow> bool" where
  "email_ok parse_address s \<longleftrightarrow> s \<noteq> [] \<and> parse_address s \<noteq> None"

definition bare_email :: "mail_parser \<Rightarrow> string \<Rightarrow> bool" where
  "bare_email parse_address s \<longleftrightarrow>
     s \<noteq> [] \<and> (case parse_address s of None \<Rightarrow> False | Some (name, addr) \<Rightarrow> name = [] \<and> addr = s)"

section \<open>Responses\<close>

text \<open>The field map of a 422: a missing field is reported as missing, not by its format error.\<close>

definition validation_fields :: "string list \<Rightarrow> (string \<times> string) list \<Rightarrow> string \<rightharpoonup> string" where
  "validation_fields missing errors =
     (\<lambda>name. if name \<in> set missing then Some ''required'' else map_of errors name)"

datatype mode = ModeJSON | ModeRedirect

definition negotiate :: "string \<Rightarrow> bool \<Rightarrow> mode" where
  "negotiate accept_header has_redirects =
     (if \<not> has_redirects then ModeJSON
      else let accept = to_lower accept_header
        in if accept = [] then ModeRedirect
           else if contains_str accept ''application/json'' \<and> \<not> contains_str accept ''text/html'' then ModeJSON
           else ModeRedirect)"

section \<open>Lemmas\<close>

lemma hex_value_digit: "n < 16 \<Longrightarrow> hex_value (hex_digit n) = Some n"
proof -
  assume "n < 16"
  then have "byte (hex_digit n) = (if n < 10 then 48 + n else 87 + n)"
    unfolding hex_digit_def by (intro byte_char_of) auto
  with \<open>n < 16\<close> show ?thesis by (auto simp: hex_value_def Let_def)
qed

lemma hex_roundtrip: "hex_decode (hex_encode s) = Some s"
proof (induction s)
  case (Cons c s)
  have "byte c div 16 < 16" by (simp add: less_mult_imp_div_less)
  with Cons show ?case
    by (simp add: hex_value_digit) (simp add: byte_def)
qed simp

lemma cut_byte_Some: "cut_byte c s = Some (a, b) \<longleftrightarrow> s = a @ c # b \<and> c \<notin> set a"
proof
  assume "cut_byte c s = Some (a, b)"
  then obtain i where i: "index_byte s c = Some i" "a = take i s" "b = drop (Suc i) s"
    by (auto simp: cut_byte_def split: option.splits)
  have "s ! i = c" using i(1) by (induction s arbitrary: i) (auto split: if_splits)
  then have "s = take i s @ c # drop (Suc i) s"
    using index_byte_Some_less [OF i(1)] by (metis id_take_nth_drop)
  with i index_byte_take [OF i(1)] show "s = a @ c # b \<and> c \<notin> set a" by simp
qed (auto simp: cut_byte_append)

lemma int64_product:
  assumes "0 \<le> a * b" "a * b \<le> max_int64"
  shows "sint (word_of_int a * word_of_int b :: int64) = a * b"
proof -
  have "sint (word_of_int (a * b) :: int64) = a * b"
    using assms by (subst sint_sbintrunc') (simp add: signed_take_bit_int_eq_self max_int64_def)
  then show ?thesis by simp
qed

section \<open>Properties\<close>

text \<open>
  C25: a token verifies exactly when it was made with the secret and is not too old: it must
  be a decimal timestamp, a dot and the hex of the MAC of that very timestamp text under the
  secret, and its age must not exceed the TTL. A token issued at \<open>t\<close> is refused as forged
  under any secret that gives another MAC, and otherwise accepted until its TTL is over.
\<close>

theorem csrf_token_accepted:
  "(csrf_verify mac token secret ttl now = None \<longleftrightarrow>
      (\<exists>ts sig_hex n. token = ts @ ''.'' @ sig_hex \<and> CHR ''.'' \<notin> set ts \<and> parse_int64 ts = Some n \<and>
         hex_decode sig_hex = Some (mac ts secret) \<and> time_sub now (from_unix n) \<le> ttl)) \<and>
   (min_int64 \<le> time_unix t \<and> time_unix t \<le> max_int64 \<longrightarrow>
      csrf_verify mac (csrf_issue mac secret t) secret' ttl now =
        (if mac (show_int (time_unix t)) secret \<noteq> mac (show_int (time_unix t)) secret' then Some InvalidSignature
         else if time_sub now (from_unix (time_unix t)) > ttl then Some Expired else None))"
proof (intro conjI impI)
  show "csrf_verify mac token secret ttl now = None \<longleftrightarrow>
      (\<exists>ts sig_hex n. token = ts @ ''.'' @ sig_hex \<and> CHR ''.'' \<notin> set ts \<and> parse_int64 ts = Some n \<and>
         hex_decode sig_hex = Some (mac ts secret) \<and> time_sub now (from_unix n) \<le> ttl)" (is "_ \<longleftrightarrow> ?R")
  proof
    assume "csrf_verify mac token secret ttl now = None"
    then obtain a b n where "token = a @ CHR ''.'' # b" "CHR ''.'' \<notin> set a" "parse_int64 a = Some n"
      "hex_decode b = Some (mac a secret)" "\<not> ttl < time_sub now (from_unix n)"
      by (auto simp: csrf_verify_def cut_byte_Some split: if_splits option.splits)
    then have "token = a @ ''.'' @ b \<and> CHR ''.'' \<notin> set a \<and> parse_int64 a = Some n \<and>
         hex_decode b = Some (mac a secret) \<and> time_sub now (from_unix n) \<le> ttl" by simp
    then show ?R by blast
  next
    assume ?R
    then obtain ts sh n where "token = ts @ CHR ''.'' # sh" "CHR ''.'' \<notin> set ts" "parse_int64 ts = Some n"
      "hex_decode sh = Some (mac ts secret)" "time_sub now (from_unix n) \<le> ttl" by auto
    then show "csrf_verify mac token secret ttl now = None"
      by (simp add: csrf_verify_def cut_byte_append)
  qed
next
  assume "min_int64 \<le> time_unix t \<and> time_unix t \<le> max_int64"
  then show "csrf_verify mac (csrf_issue mac secret t) secret' ttl now =
        (if mac (show_int (time_unix t)) secret \<noteq> mac (show_int (time_unix t)) secret' then Some InvalidSignature
         else if time_sub now (from_unix (time_unix t)) > ttl then Some Expired else None)"
    by (simp add: csrf_verify_def csrf_issue_def Let_def cut_byte_append show_int_no_dot parse_show_int hex_roundtrip)
qed

definition demo_mac :: mac where
  "demo_mac message secret = rev message @ secret"

theorem csrf_token_accepted_witness:
  "csrf_verify demo_mac (csrf_issue demo_mac ''s3cret'' (100 * second)) ''s3cret'' hour (101 * second) = None"
  using csrf_token_accepted [of demo_mac "[]" "''s3cret''" hour "101 * second" "100 * second" "''s3cret''"]
  by (simp add: time_unix_def from_unix_def time_sub_def time_defs min_int64_def max_int64_def Let_def)



text \<open>
  The origin check fails closed. With an allow-list, a request passes only if its
  \<open>Origin\<close> or the origin of its \<open>Referer\<close> normalises to the same scheme and host as an
  entry of the list; a request with neither header, or with headers that do not parse, never
  passes. Without a list every request passes.
\<close>

theorem origin_check_fails_closed:
  "fst (check_origin U origin referer allowed) = Pass \<longleftrightarrow>
     allowed = [] \<or>
     (\<exists>raw a o'. a \<in> set allowed \<and> normalize_origin U a = Some o' \<and> normalize_origin U raw = Some o' \<and>
        (raw = origin \<and> origin \<noteq> [] \<or> referer \<noteq> [] \<and> origin_from_referer U referer = Some raw))"
proof -
  let ?both = "\<lambda>raw. \<exists>a o'. a \<in> set allowed \<and> normalize_origin U a = Some o' \<and> normalize_origin U raw = Some o'"
  have m: "matches_allowed U raw allowed = ?both raw" for raw
    by (auto simp: matches_allowed_def list_ex_iff split: option.splits)
  have "fst (check_origin U origin referer allowed) = Pass \<longleftrightarrow>
    allowed = [] \<or> origin \<noteq> [] \<and> ?both origin \<or> referer \<noteq> [] \<and> (\<exists>r. origin_from_referer U referer = Some r \<and> ?both r)"
    by (cases "origin_from_referer U referer") (auto simp: check_origin_def m)
  then show ?thesis by blast
qed

end
