(* ===== verification/Transport_Core.thy ===== *)
theory Transport_Core
  imports Prelude
begin

text \<open>
  \<open>core/transport\<close>, the part every ingress and every provider shares: the canonical
  \<open>Message\<close>, the passthrough-header rules, the error classes and the inline retry policy
  \<open>SendWithRetry\<close>. A provider is a function from the number of the call and the message to
  the outcome; \<open>net\<close> threads it through a run together with the messages handed to it.
\<close>

section \<open>Messages\<close>

record header =
  hdr_name :: string
  hdr_value :: string

record attachment =
  att_filename :: string
  att_content_type :: string
  att_data :: bytes

record message =
  msg_from :: string
  msg_to :: "string list"
  msg_reply_to :: string
  msg_subject :: string
  msg_body_text :: string
  msg_body_html :: string
  msg_submission_id :: string
  msg_fields :: form
  msg_attachments :: "attachment list"
  msg_headers :: "header list"

definition empty_message :: message where
  "empty_message = \<lparr>msg_from = [], msg_to = [], msg_reply_to = [], msg_subject = [], msg_body_text = [],
     msg_body_html = [], msg_submission_id = [], msg_fields = [], msg_attachments = [], msg_headers = []\<rparr>"

section \<open>Passthrough headers\<close>

datatype header_error =
  NotOnAllowlist nat string
| DuplicateName nat string
| EmptyValue string
| ContainsCrLf string
| NotPrintable string char
| LineTooLong string
| OffAllowlist string
| MoreThanOneValue string

definition max_header_line :: nat where
  "max_header_line = 998"

definition passthrough_header_allowlist :: "string list" where
  "passthrough_header_allowlist = [''List-Unsubscribe'', ''List-Unsubscribe-Post'', ''List-Id'']"

text \<open>The bytes \<open>net/textproto\<close> accepts in a header field name.\<close>

definition is_token_char :: "char \<Rightarrow> bool" where
  "is_token_char c \<longleftrightarrow> 48 \<le> byte c \<and> byte c \<le> 57 \<or> 65 \<le> byte c \<and> byte c \<le> 90 \<or>
     97 \<le> byte c \<and> byte c \<le> 122 \<or> c \<in> set ''!#$%&*+-.^_|~'' \<or> byte c = 39 \<or> byte c = 96"

fun canonical_from :: "bool \<Rightarrow> string \<Rightarrow> string" where
  "canonical_from up [] = []"
| "canonical_from up (c # s) =
     (if up then ascii_upper_char c else ascii_lower_char c) # canonical_from (c = CHR ''-'') s"

text \<open>\<open>textproto.CanonicalMIMEHeaderKey\<close>: a name with an invalid byte is returned unchanged.\<close>

definition canonical_key :: "string \<Rightarrow> string" where
  "canonical_key s = (if list_all is_token_char s then canonical_from True s else s)"

definition passthrough_header :: "string \<Rightarrow> string \<times> bool" where
  "passthrough_header name =
     (let canon = canonical_key (trim_space name) in (canon, canon \<in> set passthrough_header_allowlist))"

fun passthrough_names_from :: "nat \<Rightarrow> string set \<Rightarrow> string list \<Rightarrow> header_error + string list" where
  "passthrough_names_from i seen [] = Inr []"
| "passthrough_names_from i seen (name # names) =
     (let (canon, ok) = passthrough_header name
      in if \<not> ok then Inl (NotOnAllowlist i name)
         else if canon \<in> seen then Inl (DuplicateName i name)
         else map_sum id ((#) canon) (passthrough_names_from (Suc i) (insert canon seen) names))"

definition passthrough_names :: "string list \<Rightarrow> header_error + string list" where
  "passthrough_names names = passthrough_names_from 0 {} names"

fun check_value_bytes :: "string \<Rightarrow> string \<Rightarrow> header_error option" where
  "check_value_bytes name [] = None"
| "check_value_bytes name (c # s) =
     (if byte c = 13 \<or> byte c = 10 then Some (ContainsCrLf name)
      else if byte c < 32 \<or> byte c > 126 then Some (NotPrintable name c)
      else check_value_bytes name s)"

definition check_header_value :: "string \<Rightarrow> string \<Rightarrow> header_error option" where
  "check_header_value name v =
     (if v = [] then Some (EmptyValue name)
      else case check_value_bytes name v of
        Some e \<Rightarrow> Some e
      | None \<Rightarrow> if length name + 2 + length v > max_header_line then Some (LineTooLong name) else None)"

fun validate_headers_from :: "string set \<Rightarrow> header list \<Rightarrow> header_error option" where
  "validate_headers_from seen [] = None"
| "validate_headers_from seen (h # hs) =
     (if \<not> (snd (passthrough_header (hdr_name h)) \<and> fst (passthrough_header (hdr_name h)) = hdr_name h)
      then Some (OffAllowlist (hdr_name h))
      else if hdr_name h \<in> seen then Some (MoreThanOneValue (hdr_name h))
      else case check_header_value (hdr_name h) (hdr_value h) of
        Some e \<Rightarrow> Some e
      | None \<Rightarrow> validate_headers_from (insert (hdr_name h) seen) hs)"

definition validate_headers :: "header list \<Rightarrow> header_error option" where
  "validate_headers hs = validate_headers_from {} hs"

section \<open>Errors\<close>

datatype error_class = ErrUnknown | ErrTransient | ErrRateLimited | ErrTerminal

fun error_class_string :: "error_class \<Rightarrow> string" where
  "error_class_string ErrTransient = ''transient''"
| "error_class_string ErrRateLimited = ''rate_limited''"
| "error_class_string ErrTerminal = ''terminal''"
| "error_class_string ErrUnknown = ''unknown''"

record transport_error =
  te_class :: error_class
  te_status :: int
  te_cause :: "string option"
  te_message :: string

definition transport_error_string :: "transport_error \<Rightarrow> string" where
  "transport_error_string e =
     ''transport: '' @ te_message e @ '' (class='' @ error_class_string (te_class e) @
     (if te_status e \<noteq> 0 then '' status='' @ show_int (te_status e) else []) @ '')'' @
     (case te_cause e of None \<Rightarrow> [] | Some c \<Rightarrow> '': '' @ c)"

text \<open>
  An error a \<open>Send\<close> returns: \<open>TransportErr\<close> when \<open>errors.As\<close> finds a \<open>TransportError\<close>
  in its chain, \<open>BareErr\<close> (a contract bug of the transport) otherwise.
\<close>

datatype send_error = TransportErr transport_error | BareErr string

fun send_error_string :: "send_error \<Rightarrow> string" where
  "send_error_string (TransportErr e) = transport_error_string e"
| "send_error_string (BareErr s) = s"

fun is_retryable :: "send_error \<Rightarrow> bool" where
  "is_retryable (TransportErr e) \<longleftrightarrow> te_class e = ErrTransient \<or> te_class e = ErrRateLimited"
| "is_retryable (BareErr s) \<longleftrightarrow> False"

fun send_error_class :: "send_error \<Rightarrow> string" where
  "send_error_class (TransportErr e) = error_class_string (te_class e)"
| "send_error_class (BareErr s) = ''unknown''"

text \<open>\<open>render\<close> is the text of a header error, formatted by the standard library's \<open>fmt\<close>.\<close>

definition check_headers :: "(header_error \<Rightarrow> string) \<Rightarrow> message \<Rightarrow> send_error option" where
  "check_headers render m =
     (case validate_headers (msg_headers m) of
        None \<Rightarrow> None
      | Some e \<Rightarrow> Some (TransportErr \<lparr>te_class = ErrTerminal, te_status = 0, te_cause = Some (render e),
          te_message = ''passthrough header rejected''\<rparr>))"

section \<open>Sending with the inline retry\<close>

type_synonym send_outcome = "send_error + string"
  \<comment> \<open>the right side is \<open>SendResult.MessageID\<close>\<close>

record net =
  provider :: "nat \<Rightarrow> message \<Rightarrow> send_outcome"
  handed :: "message list"

definition net_send :: "message \<Rightarrow> net \<Rightarrow> send_outcome \<times> net" where
  "net_send m n = (provider n (length (handed n)) m, n\<lparr>handed := handed n @ [m]\<rparr>)"

definition transient_retry_delay :: duration where
  "transient_retry_delay = 1 * second"

definition rate_limited_retry_delay :: duration where
  "rate_limited_retry_delay = 5 * second"

text \<open>The wait before the second attempt, for the classes that get one.\<close>

fun retry_delay :: "send_error \<Rightarrow> duration option" where
  "retry_delay (BareErr s) = None"
| "retry_delay (TransportErr e) =
     (case te_class e of
        ErrTransient \<Rightarrow> Some transient_retry_delay
      | ErrRateLimited \<Rightarrow> Some rate_limited_retry_delay
      | _ \<Rightarrow> None)"

text \<open>
  \<open>SendWithRetry\<close>. \<open>expires d\<close> says whether the context's deadline ends the wait of length
  \<open>d\<close>; when both are ready at once the choice is the runtime's, so it is an input here.
\<close>

definition send_with_retry :: "(duration \<Rightarrow> bool) \<Rightarrow> message \<Rightarrow> net \<Rightarrow> send_outcome \<times> net" where
  "send_with_retry expires m n =
     (let (r, n1) = net_send m n
      in case r of
           Inr res \<Rightarrow> (Inr res, n1)
         | Inl err \<Rightarrow> (case retry_delay err of
             None \<Rightarrow> (Inl err, n1)
           | Some d \<Rightarrow> if expires d then (Inl err, n1) else net_send m n1))"

section \<open>Lemmas\<close>

lemma retry_delay_retryable: "retry_delay e \<noteq> None \<longleftrightarrow> is_retryable e"
  by (cases e) (auto split: error_class.splits)

lemma provider_net_send [simp]: "provider (snd (net_send m n)) = provider n"
  by (simp add: net_send_def)

lemma provider_send_with_retry [simp]: "provider (snd (send_with_retry ex m n)) = provider n"
  by (auto simp: send_with_retry_def net_send_def Let_def split: sum.splits option.splits)

text \<open>Every call hands over the same message, once or twice.\<close>

lemma send_with_retry_handed:
  "handed (snd (send_with_retry ex m n)) = handed n @ [m] \<or>
   handed (snd (send_with_retry ex m n)) = handed n @ [m, m]"
  by (auto simp: send_with_retry_def net_send_def Let_def split: sum.splits option.splits)

lemma check_value_bytes_None:
  "check_value_bytes name s = None \<longleftrightarrow> (\<forall>c \<in> set s. 32 \<le> byte c \<and> byte c \<le> 126)"
  by (induction s) auto

lemma check_header_value_None:
  "check_header_value name v = None \<longleftrightarrow>
   v \<noteq> [] \<and> (\<forall>c \<in> set v. 32 \<le> byte c \<and> byte c \<le> 126) \<and> length name + 2 + length v \<le> max_header_line"
  using check_value_bytes_None [of name v]
  by (cases "check_value_bytes name v") (auto simp: check_header_value_def)

lemma validate_headers_from_None:
  "validate_headers_from seen hs = None \<longleftrightarrow>
   (\<forall>h \<in> set hs. passthrough_header (hdr_name h) = (hdr_name h, True) \<and> hdr_name h \<notin> seen \<and>
      check_header_value (hdr_name h) (hdr_value h) = None) \<and> distinct (map hdr_name hs)"
proof (induction hs arbitrary: seen)
  case (Cons h hs)
  show ?case
    by (cases "passthrough_header (hdr_name h)") (auto simp: Cons.IH split: option.splits, metis image_eqI)
qed simp

lemma passthrough_header_in: "passthrough_header name = (c, True) \<Longrightarrow> c \<in> set passthrough_header_allowlist"
  by (auto simp: passthrough_header_def Let_def)

lemma passthrough_header_fixed:
  "c \<in> set passthrough_header_allowlist \<Longrightarrow> passthrough_header c = (c, True)"
proof -
  have "list_all (\<lambda>c. passthrough_header c = (c, True)) passthrough_header_allowlist" by code_simp
  then show "c \<in> set passthrough_header_allowlist \<Longrightarrow> passthrough_header c = (c, True)"
    by (auto simp: list_all_iff)
qed

lemma passthrough_names_from_ok:
  "passthrough_names_from i seen names = Inr out \<Longrightarrow>
   distinct out \<and> set out \<inter> seen = {} \<and> set out \<subseteq> set passthrough_header_allowlist \<and>
   out = map (\<lambda>n. fst (passthrough_header n)) names"
proof (induction names arbitrary: i seen out)
  case (Cons name names)
  obtain canon ok where p: "passthrough_header name = (canon, ok)" by fastforce
  with Cons.prems obtain rest where ok: "ok" "canon \<notin> seen" "out = canon # rest"
    "passthrough_names_from (Suc i) (insert canon seen) names = Inr rest"
    by (cases "passthrough_names_from (Suc i) (insert canon seen) names") (auto split: if_splits)
  have IH: "distinct rest" "set rest \<inter> insert canon seen = {}"
    "set rest \<subseteq> set passthrough_header_allowlist" "rest = map (\<lambda>n. fst (passthrough_header n)) names"
    using Cons.IH [OF ok(4)] by blast+
  have "canon \<in> set passthrough_header_allowlist"
    using p ok(1) passthrough_header_in [of name canon] by simp
  with IH(1-3) ok(2) have "distinct (canon # rest)" "set (canon # rest) \<inter> seen = {}"
    "set (canon # rest) \<subseteq> set passthrough_header_allowlist"
    by (auto simp: disjoint_iff)
  moreover have "canon # rest = map (\<lambda>n. fst (passthrough_header n)) (name # names)"
    by (simp add: p IH(4))
  ultimately show ?case unfolding ok(3) by blast
qed simp

section \<open>Properties\<close>


text \<open>
  What \<open>ValidateHeaders\<close> accepts. A message's headers pass exactly when every name is
  one of the three allowlisted names as written, no name repeats, and every value is
  non-empty printable ASCII that fits one 998-byte header line together with its name.
\<close>

theorem validate_headers_accepts:
  "validate_headers hs = None \<longleftrightarrow>
   distinct (map hdr_name hs) \<and>
   (\<forall>h \<in> set hs. hdr_name h \<in> set passthrough_header_allowlist \<and> hdr_value h \<noteq> [] \<and>
      (\<forall>c \<in> set (hdr_value h). 32 \<le> byte c \<and> byte c \<le> 126) \<and>
      length (hdr_name h) + length '': '' + length (hdr_value h) \<le> 998)"
  using passthrough_header_in passthrough_header_fixed
  by (fastforce simp: validate_headers_def validate_headers_from_None check_header_value_None max_header_line_def)

theorem validate_headers_accepts_witness:
  "validate_headers [\<lparr>hdr_name = ''List-Id'', hdr_value = ''<l.x>''\<rparr>] = None"
  by (simp add: validate_headers_accepts passthrough_header_allowlist_def byte_def)

text \<open>
  The listener's passthrough list. When \<open>PassthroughNames\<close> accepts a configured list,
  the result is the canonical form of each name in order, without repeats and all on the
  allowlist, and running it on its own result changes nothing.
\<close>

theorem passthrough_names_canonical:
  assumes "passthrough_names names = Inr out"
  shows "out = map (\<lambda>n. canonical_key (trim_space n)) names \<and> distinct out \<and>
    set out \<subseteq> set passthrough_header_allowlist \<and> passthrough_names out = Inr out"
proof -
  have stable: "passthrough_names_from i seen xs = Inr xs"
    if "distinct xs" "set xs \<inter> seen = {}" "set xs \<subseteq> set passthrough_header_allowlist" for i seen xs
    using that
    by (induction xs arbitrary: i seen) (auto simp: passthrough_header_fixed)
  have out: "distinct out" "set out \<subseteq> set passthrough_header_allowlist"
    "out = map (\<lambda>n. fst (passthrough_header n)) names"
    using passthrough_names_from_ok [OF assms [unfolded passthrough_names_def]] by blast+
  have "out = map (\<lambda>n. canonical_key (trim_space n)) names"
    using out(3) by (simp add: passthrough_header_def Let_def)
  moreover have "passthrough_names out = Inr out"
    unfolding passthrough_names_def using out(1,2) by (intro stable) auto
  ultimately show ?thesis using out(1,2) by blast
qed

theorem passthrough_names_canonical_witness:
  "passthrough_names ['' list-id '', ''LIST-UNSUBSCRIBE''] = Inr [''List-Id'', ''List-Unsubscribe''] \<and>
   passthrough_names [''List-Id'', ''List-Unsubscribe''] = Inr [''List-Id'', ''List-Unsubscribe'']"
proof -
  have a: "passthrough_names ['' list-id '', ''LIST-UNSUBSCRIBE''] = Inr [''List-Id'', ''List-Unsubscribe'']"
    by code_simp
  from passthrough_names_canonical [OF a] a show ?thesis by blast
qed

end
