(* ===== verification/Config.thy ===== *)
theory Config
  imports Spam_Checks Transport_Core Complex_Main
begin

text \<open>
  \<open>core/config/config.go\<close>: the configuration types, the \<open>${env.VAR}\<close> substitution and
  the validation every configuration passes before a handler or listener is built from it.

  An error is its message without the formatted values; \<open>first_some\<close> is a sequence of
  checks each returning at the first failure. What comes from other packages is a parameter:
  \<open>net/mail\<close>, \<open>net/netip\<close>, \<open>net.SplitHostPort\<close>, \<open>url.Parse\<close>, \<open>strings.ToLower\<close>
  and the registered transports.
\<close>

section \<open>Checks in sequence\<close>

fun first_some :: "'a option list \<Rightarrow> 'a option" where
  "first_some [] = None"
| "first_some (x # xs) = (case x of None \<Rightarrow> first_some xs | Some e \<Rightarrow> Some e)"

definition check :: "bool \<Rightarrow> string \<Rightarrow> string option" where
  "check bad msg = (if bad then Some msg else None)"

definition in_block :: "string \<Rightarrow> string option \<Rightarrow> string option" where
  "in_block place e = map_option (\<lambda>m. place @ '': '' @ m) e"

definition if_set :: "'a option \<Rightarrow> ('a \<Rightarrow> string option) \<Rightarrow> string option" where
  "if_set x f = (case x of None \<Rightarrow> None | Some y \<Rightarrow> f y)"

section \<open>Types\<close>

text \<open>A value of a free-form settings table, as the TOML decoder produces it.\<close>

datatype toml = TStr string | TInt int | TBool bool | TFloat rat | TList "toml list" | TTable "(string \<times> toml) list"

type_synonym settings = "(string \<times> toml) list"

record transport_config =
  tc_type :: string
  tc_settings :: settings

record registration =
  rg_validate :: "settings \<Rightarrow> string option"
  rg_carries_headers :: bool

type_synonym registry = "(string \<times> registration) list"

text \<open>A TOML float: a number, or one of the three special values, which TOML can spell.\<close>

datatype toml_float = FNum rat | FInf | FNegInf | FNan

fun float_less :: "toml_float \<Rightarrow> rat \<Rightarrow> bool" where
  "float_less (FNum x) y \<longleftrightarrow> x < y"
| "float_less FNegInf y \<longleftrightarrow> True"
| "float_less FInf y \<longleftrightarrow> False"
| "float_less FNan y \<longleftrightarrow> False"

fun float_greater :: "toml_float \<Rightarrow> rat \<Rightarrow> bool" where
  "float_greater (FNum x) y \<longleftrightarrow> x > y"
| "float_greater FInf y \<longleftrightarrow> True"
| "float_greater FNegInf y \<longleftrightarrow> False"
| "float_greater FNan y \<longleftrightarrow> False"

record reputation_config =
  rp_provider :: string
  rp_check :: "string list"
  rp_confidence :: toml_float
  rp_fail_open :: "bool option"
  rp_timeout :: duration
  rp_cache_size :: int
  rp_cache_ttl :: duration

record pob_config =
  pb_secret :: string
  pb_ttl :: duration
  pb_min_age :: duration

record captcha_config =
  cp_provider :: string
  cp_secret_key :: string
  cp_on_provider_error :: string
  cp_timeout :: duration

record attachments_config =
  at_allowed_types :: "string list"
  at_max_count :: int
  at_max_total_size :: string

record rate_limit_config =
  rl_count :: int
  rl_interval :: duration

text \<open>\<open>ep_allowed_origins\<close> is \<open>None\<close> for a nil slice and \<open>Some []\<close> for an explicitly empty one.\<close>

record endpoint_config =
  ep_path :: string
  ep_to :: "string list"
  ep_from :: string
  ep_transport :: transport_config
  ep_rate_limit :: "rate_limit_config option"
  ep_trusted_proxies :: "string list"
  ep_honeypot :: string
  ep_allowed_origins :: "string list option"
  ep_max_body_size :: string
  ep_required :: "string list"
  ep_email_field :: string
  ep_reply_to_email_field :: string
  ep_subject :: string
  ep_body :: string
  ep_body_format :: string
  ep_text_body :: string
  ep_log_failed :: "bool option"
  ep_redirect_success :: string
  ep_redirect_error :: string
  ep_auth :: string
  ep_api_keys :: "string list"
  ep_idem_cache_size :: int
  ep_dry_run :: bool
  ep_strip_client_ip :: bool
  ep_csrf_secret :: string
  ep_csrf_ttl :: duration
  ep_reputation :: "reputation_config option"
  ep_pob :: "pob_config option"
  ep_captcha :: "captcha_config option"
  ep_attachments :: "attachments_config option"
  ep_webhook_url :: string
  ep_webhook_secret :: string

record smtp_user_config =
  scu_username :: string
  scu_password :: string

record smtp_listener_config =
  sl_name :: string
  sl_listen :: string
  sl_require_tls :: "bool option"
  sl_tls_cert :: string
  sl_tls_key :: string
  sl_client_cert_ca :: string
  sl_auth_required :: string
  sl_smtp_users :: "smtp_user_config list"
  sl_allowed_senders :: "string list"
  sl_allowed_recipients :: "string list"
  sl_max_recipients :: int
  sl_max_message_size :: string
  sl_idle_timeout :: duration
  sl_transport :: transport_config
  sl_trusted_network :: bool
  sl_max_connections :: int
  sl_max_connections_per_ip :: int
  sl_passthrough_headers :: "string list"

record storage_settings =
  ss_path :: string
  ss_in_memory :: bool
  ss_retention :: duration
  ss_max_size :: string

record lifecycle_settings =
  lf_username :: string
  lf_password :: string

record config =
  cf_endpoints :: "endpoint_config list"
  cf_log_level :: string
  cf_log_format :: string
  cf_smtp_listener :: "smtp_listener_config option"
  cf_smtp_listeners :: "smtp_listener_config list"
  cf_storage :: "storage_settings option"
  cf_lifecycle :: "lifecycle_settings option"

text \<open>What the standard library says about an address: \<open>ai_text\<close> is \<open>Unmap().String()\<close>.\<close>

record addr_info =
  ai_unspecified :: bool
  ai_loopback :: bool
  ai_private :: bool
  ai_link_local :: bool
  ai_text :: string

record config_lib =
  cl_parse_address :: mail_parser
  cl_parse_url :: "string \<Rightarrow> (string \<times> string) option"
  cl_split_host_port :: "string \<Rightarrow> (string \<times> string) option"
  cl_parse_addr :: "string \<Rightarrow> addr_info option"
  cl_lower :: "string \<Rightarrow> string"
  cl_registry :: registry

section \<open>Blocks\<close>

definition effective_retention :: "storage_settings option \<Rightarrow> duration" where
  "effective_retention s = (case s of None \<Rightarrow> 720 * hour
     | Some c \<Rightarrow> if ss_retention c \<le> 0 then 720 * hour else ss_retention c)"

definition effective_max_size :: "storage_settings option \<Rightarrow> string" where
  "effective_max_size s = (case s of None \<Rightarrow> ''1GB'' | Some c \<Rightarrow> if ss_max_size c = [] then ''1GB'' else ss_max_size c)"

definition validate_storage :: "storage_settings \<Rightarrow> string option" where
  "validate_storage s = first_some
     [check (ss_path s = [] \<and> \<not> ss_in_memory s) ''path is required'',
      check (ss_path s \<noteq> [] \<and> ss_in_memory s) ''path and in_memory are mutually exclusive'',
      check (ss_retention s < 0) ''retention must be positive'']"

definition validate_lifecycle :: "lifecycle_settings \<Rightarrow> string option" where
  "validate_lifecycle l =
     check (lf_username l = [] \<or> lf_password l = []) ''basic_auth_username and basic_auth_password are required''"

definition effective_max_count :: "attachments_config \<Rightarrow> int" where
  "effective_max_count a = (if at_max_count a \<le> 0 then 5 else at_max_count a)"

definition effective_max_total_size :: "attachments_config \<Rightarrow> string" where
  "effective_max_total_size a = (if at_max_total_size a = [] then ''10MB'' else at_max_total_size a)"

definition type_pattern_ok :: "(string \<Rightarrow> string) \<Rightarrow> string \<Rightarrow> bool" where
  "type_pattern_ok lower t \<longleftrightarrow>
     (case split_byte (CHR ''/'') t of [a, b] \<Rightarrow> a \<noteq> [] \<and> b \<noteq> [] \<and> t = lower t | _ \<Rightarrow> False)"

definition validate_attachments :: "config_lib \<Rightarrow> attachments_config \<Rightarrow> string option" where
  "validate_attachments L a = first_some
     [check (at_allowed_types a = []) ''allowed_types: required'',
      check (\<not> list_all (type_pattern_ok (cl_lower L)) (at_allowed_types a)) ''allowed_types: not a lowercase pattern'',
      check (at_max_count a < 0) ''max_count must be positive'']"

definition validate_reputation :: "reputation_config \<Rightarrow> string option" where
  "validate_reputation r = first_some
     [check (rp_provider r \<noteq> ''stopforumspam'') ''provider: only stopforumspam is supported'',
      check (rp_check r = []) ''check: list at least one of email, ip'',
      check (\<not> list_all (\<lambda>c. c = ''email'' \<or> c = ''ip'') (rp_check r)) ''check: unknown value'',
      check (float_less (rp_confidence r) 0 \<or> float_greater (rp_confidence r) 100) ''confidence: must be 0-100'',
      check (rp_timeout r < 0) ''timeout: must be non-negative'',
      check (rp_cache_size r < 0) ''cache_size: must be non-negative'',
      check (rp_cache_ttl r < 0) ''cache_ttl: must be non-negative'']"

definition validate_pob :: "pob_config \<Rightarrow> string option" where
  "validate_pob p =
     (let ttl = (if pb_ttl p = 0 then 30 * minute else pb_ttl p)
      in first_some
        [check (pb_secret p \<noteq> [] \<and> \<not> validate_secret (pb_secret p)) ''csrf: secret too short'',
         check (pb_ttl p < 0) ''ttl: must be non-negative'',
         check (pb_min_age p < 0) ''min_age: must be non-negative'',
         check (pb_min_age p \<ge> ttl) ''min_age must be less than ttl''])"

definition validate_captcha :: "captcha_config \<Rightarrow> string option" where
  "validate_captcha c = first_some
     [check (cp_provider c \<noteq> ''turnstile'') ''provider: only turnstile is supported'',
      check (cp_secret_key c = []) ''secret_key: required'',
      check (cp_on_provider_error c \<notin> {[], ''closed'', ''open''}) ''on_provider_error: must be closed or open'',
      check (cp_timeout c < 0) ''timeout: must be non-negative'']"

definition lookup_transport :: "registry \<Rightarrow> string \<Rightarrow> registration option" where
  "lookup_transport R typ = map_of R typ"

definition validate_transport :: "config_lib \<Rightarrow> transport_config \<Rightarrow> string option" where
  "validate_transport L t =
     (if tc_type t = [] then Some ''type is required''
      else case lookup_transport (cl_registry L) (tc_type t) of
        None \<Rightarrow> Some ''unknown transport type''
      | Some reg \<Rightarrow> rg_validate reg (tc_settings t))"

section \<open>Endpoints\<close>

definition is_api :: "endpoint_config \<Rightarrow> bool" where
  "is_api e \<longleftrightarrow> ep_auth e = ''api-key''"

definition check_webhook :: "config_lib \<Rightarrow> endpoint_config \<Rightarrow> string option" where
  "check_webhook L e = first_some
     [if ep_webhook_url e = [] then None
      else first_some
        [check (case cl_parse_url L (ep_webhook_url e) of
             None \<Rightarrow> True
           | Some (scheme, host) \<Rightarrow> scheme \<noteq> ''http'' \<and> scheme \<noteq> ''https'' \<or> host = [])
           ''webhook_url: must be an absolute http(s) URL'',
         check (length (ep_webhook_secret e) < 16) ''webhook_secret: required with webhook_url''],
      check (ep_webhook_secret e \<noteq> [] \<and> ep_webhook_url e = []) ''webhook_secret: only valid alongside webhook_url'']"

text \<open>An api-mode endpoint: keys required, every browser defence refused.\<close>

definition check_api_mode :: "endpoint_config \<Rightarrow> string option" where
  "check_api_mode e = first_some
     [check (ep_api_keys e = []) ''api_keys: at least one key required'',
      check (list_ex (\<lambda>k. trim_space k = []) (ep_api_keys e)) ''api_keys: empty key'',
      check (ep_honeypot e \<noteq> []) ''honeypot: not valid on api-key endpoints'',
      check (ep_allowed_origins e \<noteq> None) ''allowed_origins: not valid on api-key endpoints'',
      check (ep_redirect_success e \<noteq> []) ''redirect_success: not valid on api-key endpoints'',
      check (ep_redirect_error e \<noteq> []) ''redirect_error: not valid on api-key endpoints'',
      check (ep_csrf_secret e \<noteq> []) ''csrf_secret: not valid on api-key endpoints'',
      check (ep_reputation e \<noteq> None) ''reputation: not valid on api-key endpoints'',
      check (ep_pob e \<noteq> None) ''proof_of_browser: not valid on api-key endpoints'',
      check (ep_captcha e \<noteq> None) ''captcha: not valid on api-key endpoints'',
      check (ep_idem_cache_size e < 0) ''idempotency_cache_size: must be non-negative'']"

definition check_form_mode :: "endpoint_config \<Rightarrow> string option" where
  "check_form_mode e = first_some
     [check (ep_idem_cache_size e \<noteq> 0) ''idempotency_cache_size: only valid on api-key endpoints'',
      check (ep_api_keys e \<noteq> []) ''api_keys: must be unset unless auth = api-key'',
      check (ep_csrf_secret e \<noteq> [] \<and> \<not> validate_secret (ep_csrf_secret e)) ''csrf: secret too short'',
      check (ep_csrf_ttl e < 0) ''csrf_token_ttl: must be non-negative'',
      in_block ''reputation'' (if_set (ep_reputation e) validate_reputation),
      in_block ''proof_of_browser'' (if_set (ep_pob e) validate_pob),
      in_block ''captcha'' (if_set (ep_captcha e) validate_captcha)]"

definition validate_endpoint :: "config_lib \<Rightarrow> endpoint_config \<Rightarrow> string option" where
  "validate_endpoint L e = first_some
     [check (ep_path e = []) ''path is required'',
      check (\<not> has_prefix (ep_path e) ''/'') ''path must start with /'',
      check (ep_to e = []) ''to is required'',
      check (list_ex (\<lambda>a. cl_parse_address L a = None) (ep_to e)) ''to: invalid email'',
      check (ep_from e = []) ''from is required'',
      check (cl_parse_address L (ep_from e) = None) ''from: invalid email'',
      check (ep_subject e = []) ''subject is required'',
      check (ep_body e = []) ''body is required'',
      check (ep_body_format e \<notin> {[], ''text'', ''html''}) ''body_format: must be text or html'',
      check (ep_text_body e \<noteq> [] \<and> ep_body_format e \<noteq> ''html'') ''text_body: only valid with html'',
      check_webhook L e,
      in_block ''attachments'' (if_set (ep_attachments e) (validate_attachments L)),
      in_block ''transport'' (validate_transport L (ep_transport e)),
      check (ep_auth e \<notin> {[], ''form'', ''api-key''}) ''auth: must be form or api-key'',
      (if is_api e then check_api_mode e else check_form_mode e),
      check (ep_allowed_origins e = Some []) ''allowed_origins is explicitly empty'',
      if_set (ep_rate_limit e) (\<lambda>r. first_some
        [check (rl_count r \<le> 0) ''rate_limit.count must be positive'',
         check (rl_interval r \<le> 0) ''rate_limit.interval must be positive''])]"

section \<open>SMTP listeners\<close>

definition effective_name :: "smtp_listener_config \<Rightarrow> string" where
  "effective_name s = (if sl_name s = [] then ''smtp_listener'' else sl_name s)"

definition effective_require_tls :: "smtp_listener_config \<Rightarrow> bool" where
  "effective_require_tls s = (case sl_require_tls s of None \<Rightarrow> True | Some b \<Rightarrow> b)"

definition listener_name_ok :: "string \<Rightarrow> bool" where
  "listener_name_ok n \<longleftrightarrow> n \<noteq> [] \<and> list_all (\<lambda>c. 48 \<le> byte c \<and> byte c \<le> 57 \<or> 65 \<le> byte c \<and> byte c \<le> 90 \<or>
     97 \<le> byte c \<and> byte c \<le> 122 \<or> c = CHR ''_'' \<or> c = CHR ''-'') n"

text \<open>The empty key means every interface.\<close>

definition listen_host_key :: "config_lib \<Rightarrow> string \<Rightarrow> string" where
  "listen_host_key L host =
     (if equal_fold host ''localhost'' then ''127.0.0.1''
      else case cl_parse_addr L host of
        None \<Rightarrow> cl_lower L host
      | Some ip \<Rightarrow> if ai_unspecified ip then [] else ai_text ip)"

definition listen_overlap :: "config_lib \<Rightarrow> string \<Rightarrow> string \<Rightarrow> bool" where
  "listen_overlap L a b =
     (case (cl_split_host_port L a, cl_split_host_port L b) of
        (Some (host_a, port_a), Some (host_b, port_b)) \<Rightarrow>
          port_a = port_b \<and> port_a \<noteq> ''0'' \<and>
          (let ka = listen_host_key L host_a; kb = listen_host_key L host_b
           in ka = [] \<or> kb = [] \<or> ka = kb)
      | _ \<Rightarrow> a = b)"

definition validate_private_bind :: "config_lib \<Rightarrow> string \<Rightarrow> string option" where
  "validate_private_bind L listen =
     (case cl_split_host_port L listen of
        None \<Rightarrow> Some ''listen: malformed''
      | Some (host, _) \<Rightarrow>
          if host = [] then Some ''listen binds all interfaces''
          else if equal_fold host ''localhost'' then None
          else (case cl_parse_addr L host of
              None \<Rightarrow> Some ''listen host is not an IP address''
            | Some ip \<Rightarrow>
                if ai_unspecified ip then Some ''listen binds all interfaces''
                else if ai_loopback ip \<or> ai_private ip \<or> ai_link_local ip then None
                else Some ''listen address is public''))"

text \<open>Validation also replaces the passthrough names by their canonical form.\<close>

definition validate_smtp_listener :: "config_lib \<Rightarrow> smtp_listener_config \<Rightarrow> string + smtp_listener_config" where
  "validate_smtp_listener L s =
     (case first_some
        [check (sl_listen s = []) ''listen is required'',
         check (sl_name s \<noteq> [] \<and> \<not> listener_name_ok (sl_name s)) ''name: must match [A-Za-z0-9_-]+'',
         check (sl_allowed_senders s = []) ''allowed_senders: at least one entry required'',
         in_block ''transport'' (validate_transport L (sl_transport s)),
         check (sl_max_recipients s < 0) ''max_recipients_per_session: must be non-negative'',
         check (sl_idle_timeout s < 0) ''idle_timeout: must be non-negative'',
         check (sl_max_connections s < 0) ''max_connections: must be non-negative'',
         check (sl_max_connections_per_ip s < 0) ''max_connections_per_ip: must be non-negative''] of
        Some e \<Rightarrow> Inl e
      | None \<Rightarrow>
          (case passthrough_names (sl_passthrough_headers s) of
             Inl _ \<Rightarrow> Inl ''passthrough_headers''
           | Inr canon \<Rightarrow>
               case first_some
                 [check (canon \<noteq> [] \<and> (case lookup_transport (cl_registry L) (tc_type (sl_transport s)) of
                     None \<Rightarrow> False | Some reg \<Rightarrow> \<not> rg_carries_headers reg))
                     ''passthrough_headers: the transport does not carry mail headers'',
                  if sl_auth_required s = ''none'' \<and> \<not> sl_trusted_network s
                  then in_block ''auth_required = none'' (validate_private_bind L (sl_listen s)) else None] of
                 Some e \<Rightarrow> Inl e
               | None \<Rightarrow> Inr (s\<lparr>sl_passthrough_headers := canon\<rparr>)))"

section \<open>The whole configuration\<close>

fun check_endpoints :: "config_lib \<Rightarrow> string set \<Rightarrow> endpoint_config list \<Rightarrow> string option" where
  "check_endpoints L seen [] = None"
| "check_endpoints L seen (e # es) =
     (case validate_endpoint L e of
        Some m \<Rightarrow> Some (''endpoints: '' @ m)
      | None \<Rightarrow> if ep_path e \<in> seen then Some ''duplicate endpoint path''
                else check_endpoints L (insert (ep_path e) seen) es)"

text \<open>\<open>before\<close> holds the listeners already passed, in order.\<close>

fun check_listeners :: "config_lib \<Rightarrow> bool \<Rightarrow> smtp_listener_config list \<Rightarrow> smtp_listener_config list \<Rightarrow>
    string + smtp_listener_config list" where
  "check_listeners L several before [] = Inr before"
| "check_listeners L several before (l # ls) =
     (if sl_name l = [] \<and> several then Inl ''smtp_listeners: name is required''
      else if effective_name l \<in> set (map effective_name before) then Inl ''smtp_listeners: duplicate name''
      else case validate_smtp_listener L l of
        Inl e \<Rightarrow> Inl (''smtp_listeners: '' @ e)
      | Inr l' \<Rightarrow>
          if list_ex (\<lambda>other. listen_overlap L (sl_listen l') (sl_listen other)) before
          then Inl ''smtp_listeners: listen overlaps''
          else check_listeners L several (before @ [l']) ls)"

definition validate_config :: "config_lib \<Rightarrow> config \<Rightarrow> string + config" where
  "validate_config L c =
     (case first_some
        [check (cf_endpoints c = [] \<and> cf_smtp_listener c = None \<and> cf_smtp_listeners c = []) ''at least one ingress required'',
         check (cf_smtp_listener c \<noteq> None \<and> cf_smtp_listeners c \<noteq> []) ''smtp_listener and smtp_listeners are both declared'',
         check_endpoints L {} (cf_endpoints c),
         check (cf_log_format c \<notin> {[], ''json''}) ''logging.format: only json supported'',
         check (cf_log_level c \<notin> {[], ''debug'', ''info'', ''warn'', ''error''}) ''logging.level''] of
        Some e \<Rightarrow> Inl e
      | None \<Rightarrow>
          (case (case cf_smtp_listener c of None \<Rightarrow> Inr None | Some s \<Rightarrow> map_sum id Some (validate_smtp_listener L s)) of
             Inl e \<Rightarrow> Inl (''smtp_listener: '' @ e)
           | Inr one \<Rightarrow>
               (case check_listeners L (length (cf_smtp_listeners c) > 1) [] (cf_smtp_listeners c) of
                  Inl e \<Rightarrow> Inl e
                | Inr many \<Rightarrow>
                    (case first_some
                       [in_block ''storage'' (if_set (cf_storage c) validate_storage),
                        in_block ''lifecycle'' (if_set (cf_lifecycle c) (\<lambda>l. first_some
                          [validate_lifecycle l, check (cf_storage c = None) ''requires a storage block''])),
                        check (list_ex (\<lambda>e. ep_webhook_url e \<noteq> [] \<and> cf_lifecycle c = None) (cf_endpoints c))
                          ''webhook_url requires a lifecycle block''] of
                       Some e \<Rightarrow> Inl e
                     | None \<Rightarrow> Inr (c\<lparr>cf_smtp_listener := one, cf_smtp_listeners := many\<rparr>)))))"

definition listeners :: "config \<Rightarrow> smtp_listener_config list" where
  "listeners c = (case cf_smtp_listener c of Some s \<Rightarrow> [s] | None \<Rightarrow> cf_smtp_listeners c)"

section \<open>Environment variables\<close>

definition env_first :: "char \<Rightarrow> bool" where
  "env_first c \<longleftrightarrow> 65 \<le> byte c \<and> byte c \<le> 90 \<or> c = CHR ''_''"

definition env_rest :: "char \<Rightarrow> bool" where
  "env_rest c \<longleftrightarrow> env_first c \<or> is_digit c"

text \<open>A placeholder at the front: its name and what follows it.\<close>

definition match_env :: "string \<Rightarrow> (string \<times> string) option" where
  "match_env s =
     (if has_prefix s ''${env.'' then
        (let rest = drop 6 s; name = takeWhile env_rest rest; after = drop (length name) rest
         in if name \<noteq> [] \<and> env_first (hd name) \<and> has_prefix after ''}'' then Some (name, drop 1 after) else None)
      else None)"

lemma match_env_shorter: "match_env s = Some (name, after) \<Longrightarrow> length after < length s"
  by (cases s) (auto simp: match_env_def Let_def split: if_splits)

text \<open>The resolved text and the missing names, each once in order of first appearance.\<close>

function replace_env :: "(string \<Rightarrow> string option) \<Rightarrow> string list \<Rightarrow> string \<Rightarrow> string \<times> string list" where
  "replace_env env missing s =
     (case match_env s of
        Some (name, after) \<Rightarrow>
          (case env name of
             Some v \<Rightarrow> map_prod ((@) v) id (replace_env env missing after)
           | None \<Rightarrow>
               map_prod ((@) (''${env.'' @ name @ ''}'')) id
                 (replace_env env (if name \<in> set missing then missing else missing @ [name]) after))
      | None \<Rightarrow>
          (case s of [] \<Rightarrow> ([], missing) | c # cs \<Rightarrow> map_prod ((#) c) id (replace_env env missing cs)))"
  by pat_completeness auto
termination
  by (relation "measure (\<lambda>(env, missing, s). length s)") (use match_env_shorter in auto)

declare replace_env.simps [simp del]

definition resolve_env_vars :: "(string \<Rightarrow> string option) \<Rightarrow> string \<Rightarrow> string + string" where
  "resolve_env_vars env raw =
     (case replace_env env [] raw of
        (out, []) \<Rightarrow> Inr out
      | (_, missing) \<Rightarrow> Inl (''env var(s) not set: '' @ join '', '' missing))"

text \<open>\<open>decode\<close> is the TOML decoder: the configuration and the keys it did not use.\<close>

fun is_transport_setting_key :: "string list \<Rightarrow> bool" where
  "is_transport_setting_key (a # b # ks) \<longleftrightarrow>
     a = ''transport'' \<and> b = ''settings'' \<or> is_transport_setting_key (b # ks)"
| "is_transport_setting_key _ \<longleftrightarrow> False"

definition load :: "config_lib \<Rightarrow> (string \<Rightarrow> string option) \<Rightarrow> (string \<Rightarrow> string + (config \<times> string list list)) \<Rightarrow>
    string option \<Rightarrow> string + config" where
  "load L env decode file =
     (case file of
        None \<Rightarrow> Inl ''read config''
      | Some raw \<Rightarrow>
          (case resolve_env_vars env raw of
             Inl e \<Rightarrow> Inl e
           | Inr text \<Rightarrow>
               (case decode text of
                  Inl e \<Rightarrow> Inl (''parse TOML: '' @ e)
                | Inr (c, undecoded) \<Rightarrow>
                    (let keys = filter (\<lambda>k. \<not> is_transport_setting_key k) undecoded
                     in if keys \<noteq> [] then Inl (''unknown field(s): '' @ join '', '' (map (join ''.'') keys))
                        else validate_config L c))))"

section \<open>Lemmas\<close>

lemma first_some_None [simp]: "first_some xs = None \<longleftrightarrow> list_all (\<lambda>x. x = None) xs"
  by (induction xs) (auto split: option.splits)

declare first_some.simps [simp del]

lemma check_None [simp]: "check b m = None \<longleftrightarrow> \<not> b"
  by (simp add: check_def)

lemma in_block_None [simp]: "in_block p e = None \<longleftrightarrow> e = None"
  by (simp add: in_block_def)

lemma if_set_None: "if_set x f = None \<longleftrightarrow> (\<forall>y. x = Some y \<longrightarrow> f y = None)"
  by (auto simp: if_set_def split: option.splits)

lemma fresh_insert:
  "(\<forall>x \<in> set xs. Q x \<and> f x \<notin> insert (f e) S) \<longleftrightarrow> (\<forall>x \<in> set xs. Q x \<and> f x \<notin> S) \<and> f e \<notin> set (map f xs)"
  by (auto simp: image_iff)

lemma check_endpoints_None:
  "check_endpoints L seen es = None \<longleftrightarrow>
   (\<forall>e \<in> set es. validate_endpoint L e = None \<and> ep_path e \<notin> seen) \<and> distinct (map ep_path es)"
proof (induction es arbitrary: seen)
  case (Cons e es)
  have "check_endpoints L seen (e # es) = None \<longleftrightarrow> validate_endpoint L e = None \<and> ep_path e \<notin> seen \<and>
      check_endpoints L (insert (ep_path e) seen) es = None"
    by (simp split: option.split)
  then show ?case
    unfolding Cons.IH fresh_insert [where f = ep_path and Q = "\<lambda>x. validate_endpoint L x = None"] list.map distinct.simps list.set ball_simps
    by (simp only: conj_assoc)
qed simp

text \<open>What a validated listener guarantees.\<close>

definition listener_ok :: "config_lib \<Rightarrow> smtp_listener_config \<Rightarrow> bool" where
  "listener_ok L s \<longleftrightarrow> sl_listen s \<noteq> [] \<and> sl_allowed_senders s \<noteq> [] \<and> listener_name_ok (effective_name s) \<and>
     0 \<le> sl_max_recipients s \<and> 0 \<le> sl_idle_timeout s \<and>
     (\<exists>reg. map_of (cl_registry L) (tc_type (sl_transport s)) = Some reg \<and>
        rg_validate reg (tc_settings (sl_transport s)) = None \<and>
        (sl_passthrough_headers s = [] \<or> rg_carries_headers reg)) \<and>
     distinct (sl_passthrough_headers s) \<and> set (sl_passthrough_headers s) \<subseteq> set passthrough_header_allowlist \<and>
     (sl_auth_required s = ''none'' \<longrightarrow> sl_trusted_network s \<or> validate_private_bind L (sl_listen s) = None)"

lemma listener_name_default: "listener_name_ok ''smtp_listener''"
  by code_simp

lemma validate_transport_None:
  "validate_transport L t = None \<longleftrightarrow>
   tc_type t \<noteq> [] \<and> (\<exists>reg. map_of (cl_registry L) (tc_type t) = Some reg \<and> rg_validate reg (tc_settings t) = None)"
  by (auto simp: validate_transport_def lookup_transport_def split: option.splits)

lemma validate_smtp_listener_ok:
  assumes "validate_smtp_listener L s = Inr s'"
  shows "listener_ok L s' \<and> sl_listen s' = sl_listen s \<and> sl_name s' = sl_name s"
proof -
  obtain canon where c: "passthrough_names (sl_passthrough_headers s) = Inr canon" "s' = s\<lparr>sl_passthrough_headers := canon\<rparr>"
    using assms by (auto simp: validate_smtp_listener_def split: option.splits sum.splits)
  have names: "distinct canon" "set canon \<subseteq> set passthrough_header_allowlist"
    using passthrough_names_from_ok [OF c(1) [unfolded passthrough_names_def]] by blast+
  show ?thesis using assms c names listener_name_default
    by (auto simp: validate_smtp_listener_def listener_ok_def validate_transport_None lookup_transport_def effective_name_def
        split: option.splits if_splits)
qed

definition listeners_apart :: "config_lib \<Rightarrow> smtp_listener_config list \<Rightarrow> bool" where
  "listeners_apart L ls \<longleftrightarrow> distinct (map effective_name ls) \<and>
     sorted_wrt (\<lambda>a b. \<not> listen_overlap L (sl_listen b) (sl_listen a)) ls"

lemma check_listeners_ok:
  assumes "check_listeners L several before ls = Inr out" "listeners_apart L before" "list_all (listener_ok L) before"
  shows "listeners_apart L out \<and> list_all (listener_ok L) out \<and>
    map sl_listen out = map sl_listen before @ map sl_listen ls"
  using assms
proof (induction L several before ls arbitrary: out rule: check_listeners.induct)
  case (2 L several before l ls)
  then obtain l' where l': "validate_smtp_listener L l = Inr l'" "effective_name l \<notin> set (map effective_name before)"
    "\<not> list_ex (\<lambda>other. listen_overlap L (sl_listen l') (sl_listen other)) before"
    "\<not> (sl_name l = [] \<and> several)" "check_listeners L several (before @ [l']) ls = Inr out"
    by (auto split: sum.splits if_splits)
  have ok: "listener_ok L l'" "sl_listen l' = sl_listen l" "effective_name l' = effective_name l"
    using validate_smtp_listener_ok [OF l'(1)] by (auto simp: effective_name_def)
  have "listeners_apart L (before @ [l'])"
    using 2(3) l'(2,3) ok by (auto simp: listeners_apart_def sorted_wrt_append list_ex_iff)
  moreover have "list_all (listener_ok L) (before @ [l'])" using 2(4) ok by simp
  ultimately show ?case
    using 2(1) [OF _ l'(2,1,3,5)] l'(4) ok(2) by auto
qed auto

lemma validate_endpoint_ok:
  assumes "validate_endpoint L e = None"
  shows "has_prefix (ep_path e) ''/''" "ep_to e \<noteq> []"
    "ep_auth e = ''api-key'' \<Longrightarrow> check_api_mode e = None" "ep_auth e \<noteq> ''api-key'' \<Longrightarrow> check_form_mode e = None"
    "ep_allowed_origins e \<noteq> Some []" "validate_transport L (ep_transport e) = None"
    "ep_webhook_url e \<noteq> [] \<Longrightarrow> length (ep_webhook_secret e) \<ge> 16"
    "if_set (ep_rate_limit e) (\<lambda>r. check (rl_count r \<le> 0 \<or> rl_interval r \<le> 0) []) = None"
    "if_set (ep_attachments e) (validate_attachments L) = None"
  using assms by (auto simp: validate_endpoint_def is_api_def check_webhook_def if_set_None split: if_splits)

lemma validate_config_parts:
  assumes "validate_config L c = Inr c'"
  shows "check_endpoints L {} (cf_endpoints c) = None" "cf_endpoints c' = cf_endpoints c"
    "cf_endpoints c \<noteq> [] \<or> listeners c' \<noteq> []"
    "listeners_apart L (listeners c') \<and> list_all (listener_ok L) (listeners c')"
    "cf_lifecycle c' = cf_lifecycle c" "cf_storage c' = cf_storage c"
    "cf_lifecycle c \<noteq> None \<Longrightarrow> cf_storage c \<noteq> None"
    "e \<in> set (cf_endpoints c) \<Longrightarrow> ep_webhook_url e \<noteq> [] \<Longrightarrow> cf_lifecycle c \<noteq> None"
proof -
  obtain one many where m: "(case cf_smtp_listener c of None \<Rightarrow> Inr None | Some s \<Rightarrow> map_sum id Some (validate_smtp_listener L s)) = Inr one"
    "check_listeners L (length (cf_smtp_listeners c) > 1) [] (cf_smtp_listeners c) = Inr many"
    "c' = c\<lparr>cf_smtp_listener := one, cf_smtp_listeners := many\<rparr>"
    using assms by (auto simp: validate_config_def split: option.splits sum.splits)
  have many: "listeners_apart L many" "list_all (listener_ok L) many" "map sl_listen many = map sl_listen (cf_smtp_listeners c)"
    using check_listeners_ok [OF m(2)] by (simp_all add: listeners_apart_def)
  have one: "listener_ok L s" if "one = Some s" for s
    using m(1) that validate_smtp_listener_ok by (auto split: option.splits simp: map_sum_def split: sum.splits)
  have one_none: "one = None \<longleftrightarrow> cf_smtp_listener c = None"
    using m(1) by (auto split: option.splits simp: map_sum_def split: sum.splits)
  show "cf_endpoints c' = cf_endpoints c" "cf_lifecycle c' = cf_lifecycle c" "cf_storage c' = cf_storage c"
    by (simp_all add: m(3))
  show "check_endpoints L {} (cf_endpoints c) = None"
    using assms by (auto simp: validate_config_def split: option.splits)
  show "cf_endpoints c \<noteq> [] \<or> listeners c' \<noteq> []"
    using assms one_none many(3) by (auto simp: validate_config_def m(3) listeners_def split: option.splits sum.splits)
  show "listeners_apart L (listeners c') \<and> list_all (listener_ok L) (listeners c')"
    using many one by (auto simp: m(3) listeners_def listeners_apart_def split: option.splits)
  show "cf_lifecycle c \<noteq> None \<Longrightarrow> cf_storage c \<noteq> None"
    using assms by (auto simp: validate_config_def if_set_None split: option.splits sum.splits)
  show "e \<in> set (cf_endpoints c) \<Longrightarrow> ep_webhook_url e \<noteq> [] \<Longrightarrow> cf_lifecycle c \<noteq> None"
    using assms by (auto simp: validate_config_def list_ex_iff split: option.splits sum.splits)
qed

section \<open>Properties\<close>

text \<open>
  C27: what a configuration that loads satisfies. Endpoint paths are absolute and unique; an
  api-mode endpoint has a key, no blank key, and none of the browser defences that would be
  ignored there, a form-mode endpoint has no keys, and a token secret has 16 bytes or more;
  every transport is registered and accepted its settings; the listeners have distinct
  names, no two bind the same address, their passthrough headers are on the allowlist and
  their transport carries them, and one without authentication is on a private address
  unless the operator asserted the network; lifecycle has storage, and a webhook has both a
  lifecycle block and a secret.
\<close>

theorem valid_config:
  assumes "validate_config L c = Inr c'"
  shows "cf_endpoints c' = cf_endpoints c \<and> (cf_endpoints c' \<noteq> [] \<or> listeners c' \<noteq> []) \<and>
    distinct (map ep_path (cf_endpoints c')) \<and>
    (\<forall>e \<in> set (cf_endpoints c'). has_prefix (ep_path e) ''/'' \<and> ep_to e \<noteq> [] \<and>
       (if ep_auth e = ''api-key''
        then ep_api_keys e \<noteq> [] \<and> (\<forall>k \<in> set (ep_api_keys e). trim_space k \<noteq> []) \<and> ep_honeypot e = [] \<and>
          ep_allowed_origins e = None \<and> ep_redirect_success e = [] \<and> ep_redirect_error e = [] \<and>
          ep_csrf_secret e = [] \<and> ep_reputation e = None \<and> ep_pob e = None \<and> ep_captcha e = None
        else ep_api_keys e = [] \<and> ep_idem_cache_size e = 0 \<and> ep_allowed_origins e \<noteq> Some [] \<and>
          (ep_csrf_secret e = [] \<or> length (ep_csrf_secret e) \<ge> 16)) \<and>
       (\<exists>reg. map_of (cl_registry L) (tc_type (ep_transport e)) = Some reg \<and>
          rg_validate reg (tc_settings (ep_transport e)) = None) \<and>
       (ep_webhook_url e \<noteq> [] \<longrightarrow> length (ep_webhook_secret e) \<ge> 16 \<and> cf_lifecycle c' \<noteq> None)) \<and>
    listeners_apart L (listeners c') \<and> (\<forall>l \<in> set (listeners c'). listener_ok L l) \<and>
    (cf_lifecycle c' \<noteq> None \<longrightarrow> cf_storage c' \<noteq> None)"
proof -
  note parts = validate_config_parts [OF assms]
  have eps: "distinct (map ep_path (cf_endpoints c'))" "\<forall>e \<in> set (cf_endpoints c'). validate_endpoint L e = None"
    using parts(1,2) by (simp_all add: check_endpoints_None)
  have ep: "has_prefix (ep_path e) ''/'' \<and> ep_to e \<noteq> [] \<and>
       (if ep_auth e = ''api-key''
        then ep_api_keys e \<noteq> [] \<and> (\<forall>k \<in> set (ep_api_keys e). trim_space k \<noteq> []) \<and> ep_honeypot e = [] \<and>
          ep_allowed_origins e = None \<and> ep_redirect_success e = [] \<and> ep_redirect_error e = [] \<and>
          ep_csrf_secret e = [] \<and> ep_reputation e = None \<and> ep_pob e = None \<and> ep_captcha e = None
        else ep_api_keys e = [] \<and> ep_idem_cache_size e = 0 \<and> ep_allowed_origins e \<noteq> Some [] \<and>
          (ep_csrf_secret e = [] \<or> length (ep_csrf_secret e) \<ge> 16)) \<and>
       (\<exists>reg. map_of (cl_registry L) (tc_type (ep_transport e)) = Some reg \<and>
          rg_validate reg (tc_settings (ep_transport e)) = None) \<and>
       (ep_webhook_url e \<noteq> [] \<longrightarrow> length (ep_webhook_secret e) \<ge> 16 \<and> cf_lifecycle c' \<noteq> None)"
    if "e \<in> set (cf_endpoints c')" for e
  proof -
    have v: "validate_endpoint L e = None" and m: "e \<in> set (cf_endpoints c)" using eps(2) that parts(2) by auto
    note ok = validate_endpoint_ok [OF v]
    show ?thesis
      using ok(1,2,5,7) ok(3,4,6) parts(8) [OF m] parts(5)
      by (auto simp: check_api_mode_def check_form_mode_def validate_transport_None validate_secret_def list_ex_iff)
  qed
  with eps(1) parts show ?thesis by (auto simp: list_all_iff)
qed

definition demo_endpoint :: endpoint_config where
  "demo_endpoint = \<lparr>ep_path = ''/c'', ep_to = [''a@x''], ep_from = ''f@x'',
     ep_transport = \<lparr>tc_type = ''log'', tc_settings = []\<rparr>, ep_rate_limit = None, ep_trusted_proxies = [],
     ep_honeypot = ''website'', ep_allowed_origins = None, ep_max_body_size = [], ep_required = [''email''],
     ep_email_field = [], ep_reply_to_email_field = [], ep_subject = ''Hi'', ep_body = ''Thanks'',
     ep_body_format = [], ep_text_body = [], ep_log_failed = None, ep_redirect_success = [], ep_redirect_error = [],
     ep_auth = [], ep_api_keys = [], ep_idem_cache_size = 0, ep_dry_run = False, ep_strip_client_ip = False,
     ep_csrf_secret = [], ep_csrf_ttl = 0, ep_reputation = None, ep_pob = None, ep_captcha = None,
     ep_attachments = None, ep_webhook_url = [], ep_webhook_secret = []\<rparr>"

definition demo_lib :: config_lib where
  "demo_lib = \<lparr>cl_parse_address = (\<lambda>a. Some ([], a)), cl_parse_url = (\<lambda>_. None), cl_split_host_port = (\<lambda>_. None),
     cl_parse_addr = (\<lambda>_. None), cl_lower = id,
     cl_registry = [(''log'', \<lparr>rg_validate = (\<lambda>_. None), rg_carries_headers = True\<rparr>)]\<rparr>"

definition demo_config :: config where
  "demo_config = \<lparr>cf_endpoints = [demo_endpoint], cf_log_level = [], cf_log_format = [], cf_smtp_listener = None,
     cf_smtp_listeners = [], cf_storage = None, cf_lifecycle = None\<rparr>"

lemma demo_config_valid: "validate_config demo_lib demo_config = Inr demo_config"
proof -
  have "validate_endpoint demo_lib demo_endpoint = None"
    by (simp add: validate_endpoint_def demo_endpoint_def demo_lib_def check_webhook_def is_api_def check_form_mode_def
        if_set_def validate_transport_def lookup_transport_def has_prefix_def)
  then have "check_endpoints demo_lib {} [demo_endpoint] = None" by simp
  then show ?thesis
    by (simp add: validate_config_def demo_config_def if_set_def first_some.simps check_def in_block_def
        demo_endpoint_def [THEN arg_cong, of ep_webhook_url, simplified])
qed

theorem valid_config_witness:
  "distinct (map ep_path (cf_endpoints demo_config)) \<and> listeners_apart demo_lib (listeners demo_config)"
  using valid_config [OF demo_config_valid] by blast

end
