(* ===== verification/Gateway_Parse.thy ===== *)
theory Gateway_Parse
  imports Config Transport_Core
begin

text \<open>
  The pure parts of \<open>core/gateway\<close>: reading the API key, the body formats, JSON coercion and
  attachment vetting. JSON decoding itself, base64 and content sniffing are the standard
  library's: parameters.
\<close>

section \<open>Headers\<close>

text \<open>The comparison with every key, the last match winning.\<close>

definition authenticate_api_request :: "string list \<Rightarrow> string \<Rightarrow> string option" where
  "authenticate_api_request keys auth_header =
     (if length auth_header \<le> 7 \<or> \<not> equal_fold (take 7 auth_header) ''Bearer '' then None
      else let token = drop 7 auth_header; matched = foldl (\<lambda>m k. if token = k then k else m) [] keys
        in if matched \<noteq> [] then Some matched else None)"

definition media_type :: "string \<Rightarrow> string" where
  "media_type ct = trim_space (to_lower (case index_byte ct (CHR '';'') of None \<Rightarrow> ct | Some i \<Rightarrow> take i ct))"

definition is_form_content_type :: "string \<Rightarrow> bool" where
  "is_form_content_type ct \<longleftrightarrow> media_type ct \<in> {''application/x-www-form-urlencoded'', ''multipart/form-data''}"

definition is_json_content_type :: "string \<Rightarrow> bool" where
  "is_json_content_type ct \<longleftrightarrow> media_type ct = ''application/json''"

section \<open>JSON bodies\<close>

text \<open>A decoded value; a number is the bit pattern of its \<open>float64\<close>.\<close>

datatype json = JNull | JBool bool | JNum int64 | JStr string | JArr "json list" | JObj "(string \<times> json) list"

datatype body_error = TooLarge | Hidden string | Visible string

record api_attachment =
  aa_filename :: string
  aa_data :: string

text \<open>\<open>decode_json\<close> gives the first value of the stream and \<open>More\<close>; an object lists its
entries in the map's iteration order, each key once. \<open>quote\<close> is \<open>strconv.Quote\<close>.\<close>

record json_lib =
  decode_json :: "int \<Rightarrow> bytes \<Rightarrow> body_error + (json \<times> bool)"
  attachments_of :: "json \<Rightarrow> api_attachment list option"
  format_float :: "int64 \<Rightarrow> string"
  quote :: "string \<Rightarrow> string"

definition show_bool :: "bool \<Rightarrow> string" where
  "show_bool b = (if b then ''true'' else ''false'')"

fun coerce_json_array :: "json_lib \<Rightarrow> string \<Rightarrow> nat \<Rightarrow> json list \<Rightarrow> body_error + string list" where
  "coerce_json_array J field i [] = Inr []"
| "coerce_json_array J field i (v # vs) =
     (case v of
        JNull \<Rightarrow> map_sum id ((#) []) (coerce_json_array J field (Suc i) vs)
      | JStr s \<Rightarrow> map_sum id ((#) s) (coerce_json_array J field (Suc i) vs)
      | JBool b \<Rightarrow> map_sum id ((#) (show_bool b)) (coerce_json_array J field (Suc i) vs)
      | JNum n \<Rightarrow> map_sum id ((#) (format_float J n)) (coerce_json_array J field (Suc i) vs)
      | _ \<Rightarrow> Inl (Visible (''field '' @ quote J field @ ''['' @ show_int (int i) @
          '']: nested arrays and objects are not supported in v1.1'')))"

text \<open>One entry: no form field for \<open>null\<close>.\<close>

fun coerce_field :: "json_lib \<Rightarrow> string \<Rightarrow> json \<Rightarrow> body_error + string list option" where
  "coerce_field J k JNull = Inr None"
| "coerce_field J k (JStr s) = Inr (Some [s])"
| "coerce_field J k (JBool b) = Inr (Some [show_bool b])"
| "coerce_field J k (JNum n) = Inr (Some [format_float J n])"
| "coerce_field J k (JArr vs) = map_sum id Some (coerce_json_array J k 0 vs)"
| "coerce_field J k (JObj _) =
     Inl (Visible (''nested objects are not supported in v1.1 (field '' @ quote J k @ '' is an object)''))"

fun coerce_fields :: "json_lib \<Rightarrow> (string \<times> json) list \<Rightarrow> body_error + form" where
  "coerce_fields J [] = Inr []"
| "coerce_fields J ((k, v) # kvs) =
     (case coerce_field J k v of
        Inl e \<Rightarrow> Inl e
      | Inr None \<Rightarrow> coerce_fields J kvs
      | Inr (Some vs) \<Rightarrow> map_sum id ((#) (k, vs)) (coerce_fields J kvs))"

definition attachments_field :: string where
  "attachments_field = ''attachments''"

text \<open>Decoding into a map: an object or \<open>null\<close>, which leaves the map empty.\<close>

definition parse_json_body :: "json_lib \<Rightarrow> int \<Rightarrow> bytes \<Rightarrow> body_error + (form \<times> api_attachment list)" where
  "parse_json_body J limit body =
     (case decode_json J limit body of
        Inl e \<Rightarrow> Inl e
      | Inr (v, trailing) \<Rightarrow>
          (case (case v of JObj raw \<Rightarrow> Some raw | JNull \<Rightarrow> Some [] | _ \<Rightarrow> None) of
             None \<Rightarrow> Inl (Hidden ''json: cannot unmarshal into a map'')
           | Some raw \<Rightarrow>
               if trailing then Inl (Visible ''unexpected trailing content after top-level JSON object'')
               else (case (case map_of raw attachments_field of None \<Rightarrow> Some [] | Some a \<Rightarrow> attachments_of J a) of
                   None \<Rightarrow> Inl (Visible ''attachments: must be an array of {\"filename\", \"content_type\", \"data\"} objects'')
                 | Some atts \<Rightarrow>
                     map_sum id (\<lambda>form. (form, atts))
                       (coerce_fields J (filter (\<lambda>(k, v). k \<noteq> attachments_field) raw)))))"

section \<open>Attachments\<close>

record attachment_policy =
  ap_allowed :: "string list"
  ap_max_count :: int
  ap_max_total :: int

definition new_attachment_policy :: "attachments_config option \<Rightarrow> string + attachment_policy option" where
  "new_attachment_policy cfg =
     (case cfg of
        None \<Rightarrow> Inr None
      | Some a \<Rightarrow>
          (case parse_size (effective_max_total_size a) of
             Inl _ \<Rightarrow> Inl ''attachments: max_total_size''
           | Inr max_size \<Rightarrow>
               Inr (Some \<lparr>ap_allowed = at_allowed_types a, ap_max_count = effective_max_count a, ap_max_total = max_size\<rparr>)))"

text \<open>\<open>quote_type\<close> is \<open>strconv.Quote\<close>, \<open>detect\<close> is \<open>http.DetectContentType\<close>, \<open>parse_media\<close> is \<open>mime.ParseMediaType\<close>'s type.\<close>

record file_lib =
  detect :: "bytes \<Rightarrow> string"
  parse_media :: "string \<Rightarrow> string option"
  base64_std :: "string \<Rightarrow> bytes option"
  valid_utf8 :: "string \<Rightarrow> string"
  quote_type :: "string \<Rightarrow> string"

definition sniff_type :: "file_lib \<Rightarrow> bytes \<Rightarrow> string" where
  "sniff_type F data = (case parse_media F (detect F data) of None \<Rightarrow> ''application/octet-stream'' | Some t \<Rightarrow> t)"

definition permitted :: "attachment_policy \<Rightarrow> string \<Rightarrow> bool" where
  "permitted p sniffed \<longleftrightarrow>
     (let family = (case index_byte sniffed (CHR ''/'') of None \<Rightarrow> [] | Some i \<Rightarrow> take (Suc i) sniffed) @ ''*''
      in list_ex (\<lambda>pat. pat = sniffed \<or> pat = family) (ap_allowed p))"

definition vet :: "file_lib \<Rightarrow> attachment_policy \<Rightarrow> attachment list \<Rightarrow> (string \<times> string) list + attachment list" where
  "vet F p files =
     (if int (length files) > ap_max_count p then
       Inl [(''attachments'', ''too many files: '' @ show_int (int (length files)) @ '' exceeds max_count '' @ show_int (ap_max_count p))]
      else let bytes_in = sum_list (map (\<lambda>f. int (length (att_data f))) files);
               errs = map (\<lambda>f. (att_filename f, ''content type '' @ quote_type F (sniff_type F (att_data f)) @ '' not in allowed_types''))
                 (filter (\<lambda>f. \<not> permitted p (sniff_type F (att_data f))) files) @
                 (if bytes_in > ap_max_total p then [(''attachments'', ''total size '' @ show_int bytes_in @ '' bytes exceeds max_total_size '' @ show_int (ap_max_total p))] else [])
           in if errs \<noteq> [] then Inl errs
              else Inr (map (\<lambda>f. f\<lparr>att_content_type := sniff_type F (att_data f)\<rparr>) files))"

definition is_separator :: "char \<Rightarrow> bool" where
  "is_separator c \<longleftrightarrow> c = CHR ''/'' \<or> byte c = 92"

text \<open>\<open>valid_utf8\<close> stands for the decoding \<open>strings.Map\<close> does first: an invalid byte is U+FFFD.\<close>

definition sanitize_filename :: "file_lib \<Rightarrow> string \<Rightarrow> string" where
  "sanitize_filename F name =
     (let tail = rev (takeWhile (\<lambda>c. \<not> is_separator c) (rev name));
          clean = filter (\<lambda>c. 32 \<le> byte c \<and> byte c \<noteq> 127) (valid_utf8 F tail)
      in if clean = [] then ''attachment'' else clean)"

fun collect_multipart_files :: "file_lib \<Rightarrow> (string \<times> bytes option) list \<Rightarrow> attachment list option" where
  "collect_multipart_files F [] = Some []"
| "collect_multipart_files F ((name, content) # fs) =
     (case content of
        None \<Rightarrow> None
      | Some data \<Rightarrow> map_option ((#) \<lparr>att_filename = sanitize_filename F name, att_content_type = [], att_data = data\<rparr>)
          (collect_multipart_files F fs))"

fun decode_api_attachments :: "file_lib \<Rightarrow> nat \<Rightarrow> api_attachment list \<Rightarrow> body_error + attachment list" where
  "decode_api_attachments F i [] = Inr []"
| "decode_api_attachments F i (e # es) =
     (let err = (\<lambda>msg. Inl (Visible (''attachments['' @ show_int (int i) @ '']: '' @ msg)))
      in if aa_filename e = [] then err ''filename is required''
         else if aa_data e = [] then err ''data is required''
         else case base64_std F (aa_data e) of
           None \<Rightarrow> err ''data is not valid base64''
         | Some raw \<Rightarrow>
             map_sum id ((#) \<lparr>att_filename = sanitize_filename F (aa_filename e), att_content_type = [], att_data = raw\<rparr>)
               (decode_api_attachments F (Suc i) es))"

section \<open>What is kept of a form\<close>

definition redacted_form :: "form \<Rightarrow> string \<Rightarrow> form" where
  "redacted_form form honeypot = map (\<lambda>(k, v). if k = honeypot \<and> honeypot \<noteq> [] then (k, [''<redacted>'']) else (k, v)) form"

definition csrf_token_field :: string where "csrf_token_field = ''_csrf_token''"
definition pob_token_field :: string where "pob_token_field = ''_pob_token''"
definition turnstile_field :: string where "turnstile_field = ''cf-turnstile-response''"
definition to_override_field :: string where "to_override_field = ''to_override''"

definition storable_fields :: "form \<Rightarrow> string \<Rightarrow> form" where
  "storable_fields form honeypot =
     form_delete [csrf_token_field, pob_token_field, turnstile_field, to_override_field] (redacted_form form honeypot)"

end
