(* ===== verification/LRU_Cache.thy ===== *)
theory LRU_Cache
  imports Prelude
begin

text \<open>
  The bounded least-recently-used cache of \<open>github.com/hashicorp/golang-lru/v2\<close>, a
  third-party package the rate limiter, the idempotency cache and the reputation checker
  store their entries in. The components take its operations as a parameter, a record
  \<open>lru_ops\<close>; the locale \<open>lru_cache\<close> states its documented behaviour, which is all they
  rely on. \<open>list_lru\<close> is a concrete cache with that behaviour (entries in a list, most
  recent first), so that every component can be executed and every law can be met.
\<close>

section \<open>The interface\<close>

record ('c, 'k, 'v) lru_ops =
  lru_new :: "nat \<Rightarrow> 'c"
  lru_get :: "'c \<Rightarrow> 'k \<Rightarrow> 'v option \<times> 'c"
  lru_add :: "'c \<Rightarrow> 'k \<Rightarrow> 'v \<Rightarrow> 'c"
  lru_remove :: "'c \<Rightarrow> 'k \<Rightarrow> 'c"
  lru_len :: "'c \<Rightarrow> nat"

locale lru_cache =
  fixes L :: "('c, 'k, 'v) lru_ops"
    and view :: "'c \<Rightarrow> 'k \<rightharpoonup> 'v"
    and size_of :: "'c \<Rightarrow> nat"
    and ok :: "'c \<Rightarrow> bool"
  assumes new_ok: "0 < n \<Longrightarrow> ok (lru_new L n)"
    and new_view: "0 < n \<Longrightarrow> view (lru_new L n) = Map.empty"
    and new_size: "0 < n \<Longrightarrow> size_of (lru_new L n) = n"
    and get_ok: "ok c \<Longrightarrow> ok (snd (lru_get L c k))"
    and get_val: "ok c \<Longrightarrow> fst (lru_get L c k) = view c k"
    and get_view: "ok c \<Longrightarrow> view (snd (lru_get L c k)) = view c"
    and get_size: "ok c \<Longrightarrow> size_of (snd (lru_get L c k)) = size_of c"
    and add_ok: "ok c \<Longrightarrow> ok (lru_add L c k v)"
    and add_same: "ok c \<Longrightarrow> view (lru_add L c k v) k = Some v"
    and add_other: "ok c \<Longrightarrow> j \<noteq> k \<Longrightarrow> view (lru_add L c k v) j = Some w \<Longrightarrow> view c j = Some w"
    and add_room: "ok c \<Longrightarrow> k \<in> dom (view c) \<or> card (dom (view c)) < size_of c \<Longrightarrow>
      view (lru_add L c k v) = (view c)(k \<mapsto> v)"
    and add_size: "ok c \<Longrightarrow> size_of (lru_add L c k v) = size_of c"
    and remove_ok: "ok c \<Longrightarrow> ok (lru_remove L c k)"
    and remove_view: "ok c \<Longrightarrow> view (lru_remove L c k) = (view c)(k := None)"
    and remove_size: "ok c \<Longrightarrow> size_of (lru_remove L c k) = size_of c"
    and len_view: "ok c \<Longrightarrow> finite (dom (view c)) \<and> lru_len L c = card (dom (view c))"
    and len_bound: "ok c \<Longrightarrow> lru_len L c \<le> size_of c"
begin

lemmas ok_intros [simp, intro] = new_ok get_ok add_ok remove_ok

lemmas views [simp] = new_view get_val get_view add_same remove_view

lemmas sizes [simp] = new_size get_size add_size remove_size

text \<open>Adding never invents an entry: the new contents are below the updated old ones.\<close>

lemma add_view_le: "ok c \<Longrightarrow> view (lru_add L c k v) \<subseteq>\<^sub>m (view c)(k \<mapsto> v)"
  unfolding map_le_def by (auto dest: add_other)

lemma add_dom_subset: "ok c \<Longrightarrow> dom (view (lru_add L c k v)) \<subseteq> insert k (dom (view c))"
  using add_view_le [of c k v] by (auto dest!: map_le_implies_dom_le)

text \<open>The memory bound: however many keys are added, at most \<open>size_of\<close> are kept.\<close>

lemma dom_bound: "ok c \<Longrightarrow> card (dom (view c)) \<le> size_of c"
  using len_view len_bound by fastforce

end

section \<open>A list implementation\<close>

type_synonym ('k, 'v) list_lru = "nat \<times> ('k \<times> 'v) list"

definition drop_key :: "'k \<Rightarrow> ('k \<times> 'v) list \<Rightarrow> ('k \<times> 'v) list" where
  "drop_key k xs = filter (\<lambda>e. fst e \<noteq> k) xs"

fun ll_get :: "('k, 'v) list_lru \<Rightarrow> 'k \<Rightarrow> 'v option \<times> ('k, 'v) list_lru" where
  "ll_get (n, xs) k =
     (case map_of xs k of None \<Rightarrow> (None, (n, xs)) | Some v \<Rightarrow> (Some v, (n, (k, v) # drop_key k xs)))"

fun ll_add :: "('k, 'v) list_lru \<Rightarrow> 'k \<Rightarrow> 'v \<Rightarrow> ('k, 'v) list_lru" where
  "ll_add (n, xs) k v = (n, take n ((k, v) # drop_key k xs))"

fun ll_remove :: "('k, 'v) list_lru \<Rightarrow> 'k \<Rightarrow> ('k, 'v) list_lru" where
  "ll_remove (n, xs) k = (n, drop_key k xs)"

definition list_lru :: "(('k, 'v) list_lru, 'k, 'v) lru_ops" where
  "list_lru = \<lparr>lru_new = (\<lambda>n. (n, [])), lru_get = ll_get, lru_add = ll_add,
     lru_remove = ll_remove, lru_len = (\<lambda>c. length (snd c))\<rparr>"

definition ll_view :: "('k, 'v) list_lru \<Rightarrow> 'k \<rightharpoonup> 'v" where
  "ll_view c = map_of (snd c)"

definition ll_ok :: "('k, 'v) list_lru \<Rightarrow> bool" where
  "ll_ok c \<longleftrightarrow> distinct (map fst (snd c)) \<and> length (snd c) \<le> fst c \<and> 0 < fst c"

lemma list_lru_sel [simp]:
  "lru_new list_lru n = (n, [])" "lru_get list_lru = ll_get" "lru_add list_lru = ll_add"
  "lru_remove list_lru = ll_remove" "lru_len list_lru c = length (snd c)"
  by (simp_all add: list_lru_def)

lemma map_of_drop_key: "map_of (drop_key k xs) = (map_of xs)(k := None)"
  by (induction xs) (auto simp: drop_key_def fun_eq_iff)

lemma distinct_drop_key: "distinct (map fst xs) \<Longrightarrow> distinct (map fst (drop_key k xs))"
  by (simp add: drop_key_def distinct_map_filter)

lemma fst_drop_key [simp]: "fst ` set (drop_key k xs) = fst ` set xs - {k}"
  by (auto simp: drop_key_def)

lemma length_drop_key_le: "length (drop_key k xs) \<le> length xs"
  by (simp add: drop_key_def)

lemma length_drop_key_less: "k \<in> fst ` set xs \<Longrightarrow> length (drop_key k xs) < length xs"
  unfolding drop_key_def by (auto intro: length_filter_less)

lemma dom_card_distinct: "distinct (map fst xs) \<Longrightarrow> card (dom (map_of xs)) = length xs"
  using distinct_card [of "map fst xs"] by (simp add: dom_map_of_conv_image_fst)

lemma card_keys: "distinct (map fst xs) \<Longrightarrow> card (fst ` set xs) = length xs"
  using distinct_card [of "map fst xs"] by simp

lemma map_of_take_Some: "distinct (map fst xs) \<Longrightarrow> map_of (take n xs) j = Some w \<Longrightarrow> map_of xs j = Some w"
  by (metis map_of_SomeD map_of_is_SomeI in_set_takeD)

interpretation ll: lru_cache list_lru ll_view fst ll_ok
proof unfold_locales
  fix c :: "('k, 'v) list_lru" and k :: 'k and v :: 'v
  assume ok: "ll_ok c"
  obtain n xs where c: "c = (n, xs)" by (cases c)
  have d: "distinct (map fst ((k, v) # drop_key k xs))"
    using ok by (simp add: c ll_ok_def distinct_drop_key)
  show "ll_ok (snd (lru_get list_lru c k))"
  proof (cases "map_of xs k")
    case None
    then show ?thesis using ok by (simp add: c)
  next
    case (Some w)
    then have "k \<in> fst ` set xs" by (metis domI dom_map_of_conv_image_fst)
    with Some ok show ?thesis
      using length_drop_key_less [of k xs] by (simp add: c ll_ok_def distinct_drop_key)
  qed
  show "fst (lru_get list_lru c k) = ll_view c k"
    by (simp add: c ll_view_def split: option.splits)
  show "ll_view (snd (lru_get list_lru c k)) = ll_view c"
    by (auto simp: c ll_view_def map_of_drop_key fun_eq_iff split: option.splits)
  show "fst (snd (lru_get list_lru c k)) = fst c"
    by (simp add: c split: option.splits)
  show "ll_ok (lru_add list_lru c k v)"
    using ok d by (simp add: c ll_ok_def flip: take_map)
  show "ll_view (lru_add list_lru c k v) k = Some v"
    using ok by (cases n) (simp_all add: c ll_view_def ll_ok_def)
  show "fst (lru_add list_lru c k v) = fst c" by (simp add: c)
  show "ll_ok (lru_remove list_lru c k)"
    using ok length_drop_key_le [of k xs] by (simp add: c ll_ok_def distinct_drop_key)
  show "ll_view (lru_remove list_lru c k) = (ll_view c)(k := None)"
    by (simp add: c ll_view_def map_of_drop_key)
  show "fst (lru_remove list_lru c k) = fst c" by (simp add: c)
  show "finite (dom (ll_view c)) \<and> lru_len list_lru c = card (dom (ll_view c))"
    using ok by (simp add: c ll_view_def ll_ok_def dom_card_distinct finite_dom_map_of)
  show "lru_len list_lru c \<le> fst c"
    using ok by (simp add: ll_ok_def)
  show "ll_view c j = Some w" if "j \<noteq> k" "ll_view (lru_add list_lru c k v) j = Some w" for j w
    using map_of_take_Some [OF d, of n j w] that by (simp add: c ll_view_def map_of_drop_key)
  show "ll_view (lru_add list_lru c k v) = (ll_view c)(k \<mapsto> v)"
    if "k \<in> dom (ll_view c) \<or> card (dom (ll_view c)) < fst c"
  proof -
    have "k \<in> fst ` set xs \<or> length xs < n"
      using that ok by (auto simp: c ll_view_def ll_ok_def dom_map_of_conv_image_fst card_keys)
    then have "length ((k, v) # drop_key k xs) \<le> n"
      using ok length_drop_key_less [of k xs] length_drop_key_le [of k xs]
      by (fastforce simp: c ll_ok_def)
    then have "take n ((k, v) # drop_key k xs) = (k, v) # drop_key k xs" by simp
    then show ?thesis by (simp add: c ll_view_def map_of_drop_key)
  qed
qed (auto simp: ll_ok_def ll_view_def)

end
