(* ===== verification/Provider_Checks.thy ===== *)
theory Provider_Checks
  imports LRU_Cache Config
begin

text \<open>
  The two spam checks that ask a provider: \<open>core/reputation\<close> (a cached StopForumSpam lookup)
  and \<open>core/captcha\<close> (Turnstile verification). What the provider answers is a parameter,
  indexed by the number of requests made so far; the decision taken on it is modelled.
\<close>

section \<open>Reputation\<close>

record rep_result =
  rr_blocked :: bool
  rr_failed_open :: bool

record sfs_field =
  sf_appears :: int
  sf_confidence :: rat

record sfs_response =
  sr_success :: int
  sr_email :: sfs_field
  sr_ip :: sfs_field

text \<open>A request that failed, another status than 200, a body that does not decode, or a response.\<close>

datatype sfs_reply = SfsFailed | SfsStatus nat | SfsUndecodable | SfsOk sfs_response

type_synonym 'r rep_lru = "('r, string, rep_result \<times> instant) lru_ops"

record 'r checker =
  ck_email :: bool
  ck_ip :: bool
  ck_threshold :: toml_float
  ck_fail_open :: bool
  ck_ttl :: duration
  ck_cache :: 'r

definition new_checker :: "'r rep_lru \<Rightarrow> bool \<Rightarrow> bool \<Rightarrow> toml_float \<Rightarrow> bool \<Rightarrow> int \<Rightarrow> duration \<Rightarrow> 'r checker result" where
  "new_checker L email ip threshold fail_open capac ttl =
     (if \<not> email \<and> \<not> ip then Err ''reputation: at least one of email/ip must be checked''
      else Ok \<lparr>ck_email = email, ck_ip = ip, ck_threshold = threshold, ck_fail_open = fail_open,
        ck_ttl = (if ttl \<le> 0 then hour else ttl), ck_cache = lru_new L (nat (if capac \<le> 0 then 10000 else capac))\<rparr>)"

text \<open>\<open>buildReputationChecker\<close>: the defaults of the endpoint's block.\<close>

definition build_reputation_checker :: "'r rep_lru \<Rightarrow> reputation_config option \<Rightarrow> 'r checker option result" where
  "build_reputation_checker L cfg =
     (case cfg of
        None \<Rightarrow> Ok None
      | Some c \<Rightarrow> map_sum id Some (new_checker L (''email'' \<in> set (rp_check c)) (''ip'' \<in> set (rp_check c))
          (if rp_confidence c = FNum 0 then FNum 90 else rp_confidence c)
          (case rp_fail_open c of None \<Rightarrow> True | Some b \<Rightarrow> b) (rp_cache_size c) (rp_cache_ttl c)))"

fun at_least :: "rat \<Rightarrow> toml_float \<Rightarrow> bool" where
  "at_least x (FNum y) \<longleftrightarrow> x \<ge> y"
| "at_least x FNegInf \<longleftrightarrow> True"
| "at_least x FInf \<longleftrightarrow> False"
| "at_least x FNan \<longleftrightarrow> False"

definition rep_hit :: "toml_float \<Rightarrow> sfs_field \<Rightarrow> bool" where
  "rep_hit threshold f \<longleftrightarrow> sf_appears f = 1 \<and> at_least (sf_confidence f) threshold"

text \<open>\<open>lookup\<close>: \<open>None\<close> is an error of the provider.\<close>

definition rep_lookup :: "'r checker \<Rightarrow> string \<Rightarrow> string \<Rightarrow> sfs_reply \<Rightarrow> rep_result option" where
  "rep_lookup c email ip answer =
     (case answer of
        SfsOk sr \<Rightarrow>
          Some \<lparr>rr_blocked = ck_email c \<and> email \<noteq> [] \<and> rep_hit (ck_threshold c) (sr_email sr) \<or>
             ck_ip c \<and> ip \<noteq> [] \<and> rep_hit (ck_threshold c) (sr_ip sr), rr_failed_open = False\<rparr>
      | _ \<Rightarrow> None)"

text \<open>\<open>Check\<close> with the answer the provider would give now; the flag says whether it was asked.\<close>

definition rep_check :: "'r rep_lru \<Rightarrow> 'r checker \<Rightarrow> string \<Rightarrow> string \<Rightarrow> sfs_reply \<Rightarrow> instant \<Rightarrow>
    (rep_result \<times> bool) \<times> 'r checker" where
  "rep_check L c email ip answer now =
     (let key = email @ ''|'' @ ip; (hit, cache1) = lru_get L (ck_cache c) key; c1 = c\<lparr>ck_cache := cache1\<rparr>
      in case hit of
           Some (res, expires) \<Rightarrow>
             if now < expires then ((res, False), c1) else
               (case rep_lookup c1 email ip answer of
                  None \<Rightarrow> ((\<lparr>rr_blocked = \<not> ck_fail_open c, rr_failed_open = ck_fail_open c\<rparr>, True), c1)
                | Some r \<Rightarrow> ((r, True), c1\<lparr>ck_cache := lru_add L cache1 key (r, now + ck_ttl c)\<rparr>))
         | None \<Rightarrow>
             (case rep_lookup c1 email ip answer of
                None \<Rightarrow> ((\<lparr>rr_blocked = \<not> ck_fail_open c, rr_failed_open = ck_fail_open c\<rparr>, True), c1)
              | Some r \<Rightarrow> ((r, True), c1\<lparr>ck_cache := lru_add L cache1 key (r, now + ck_ttl c)\<rparr>)))"

section \<open>Captcha\<close>

datatype captcha_answer = CapFailed | CapStatus nat | CapUndecodable | CapSuccess bool

datatype captcha_error = ErrCaptchaFailed | ErrCaptchaProvider

text \<open>\<open>Verify\<close>, with whether the provider was asked.\<close>

definition captcha_verify :: "string \<Rightarrow> captcha_answer \<Rightarrow> captcha_error option \<times> bool" where
  "captcha_verify token answer =
     (if trim_space token = [] then (Some ErrCaptchaFailed, False)
      else (case answer of
              CapSuccess ok \<Rightarrow> if ok then None else Some ErrCaptchaFailed
            | _ \<Rightarrow> Some ErrCaptchaProvider, True))"

text \<open>The verdict \<open>buildCaptchaCheck\<close> turns its result into.\<close>

definition captcha_verdict :: "bool \<Rightarrow> captcha_error option \<Rightarrow> verdict" where
  "captcha_verdict fail_closed r =
     (case r of
        None \<Rightarrow> passes
      | Some ErrCaptchaFailed \<Rightarrow> (blocks ''captcha'')\<lparr>v_silent := True\<rparr>
      | Some ErrCaptchaProvider \<Rightarrow>
          if fail_closed then (blocks ''captcha'')\<lparr>v_silent := True\<rparr>
          else passes\<lparr>v_kind := ''captcha'', v_failed_open := True\<rparr>)"

definition captcha_fail_closed :: "captcha_config \<Rightarrow> bool" where
  "captcha_fail_closed c \<longleftrightarrow> cp_on_provider_error c \<noteq> ''open''"

end
