(* ===== verification/Storage.thy ===== *)
theory Storage
  imports Transport_Core "HOL-Library.List_Lexorder"
begin

text \<open>
  \<open>core/storage\<close>: the SQLite tables and every statement the store runs on them. A table is
  the list of its rows in insertion order. A statement is atomic; whether the engine fails
  it is decided by the script \<open>faults\<close> (one entry per statement executed, exhausted means
  no further fault), so a theorem over all databases covers every pattern of failures. A
  failed statement changes nothing; a failed transaction restores the tables.

  Text columns hold the structured values whose JSON encoding the code stores; encoding and
  decoding valid UTF-8 text is the identity, which is all that is used of \<open>encoding/json\<close>.
  Rows that tie in an \<open>ORDER BY\<close> keep insertion order, one of the orders SQL allows.
\<close>

section \<open>Tables\<close>

datatype status = StSending | StSent | StQueued | StFailed | StSuppressed

record submission =
  sub_id :: string
  sub_endpoint :: string
  sub_transport :: string
  sub_from :: string
  sub_to :: "string list"
  sub_reply_to :: string
  sub_subject :: string
  sub_body_text :: string
  sub_body_html :: string
  sub_fields :: form
  sub_attachments :: "attachment list"
  sub_headers :: "header list"
  sub_client_ip :: string
  sub_status :: status
  sub_message_id :: string
  sub_last_error :: string
  sub_created_at :: int
  sub_sent_at :: "int option"

record queue_row =
  q_id :: string
  q_attempt :: nat
  q_next :: int

record suppression =
  sup_email :: string
  sup_reason :: string
  sup_endpoint :: string
  sup_created_at :: int

record idem_row =
  idem_key :: string
  idem_endpoint :: string
  idem_status :: int
  idem_content_type :: string
  idem_body :: bytes
  idem_expires :: int

record forward_row =
  fwd_id :: nat
  fwd_endpoint :: string
  fwd_payload :: bytes
  fwd_attempt :: nat
  fwd_next :: int

record db =
  submissions :: "submission list"
  retry_queue :: "queue_row list"
  suppressions :: "suppression list"
  idempotency :: "idem_row list"
  lifecycle_queue :: "forward_row list"
  lifecycle_seq :: nat
  canary :: "int option"
  user_version :: nat
  has_headers :: bool
  max_page_count :: "int option"
  faults :: "bool list"

definition empty_db :: "bool list \<Rightarrow> db" where
  "empty_db fs = \<lparr>submissions = [], retry_queue = [], suppressions = [], idempotency = [],
     lifecycle_queue = [], lifecycle_seq = 0, canary = None,
     user_version = 0, has_headers = False, max_page_count = None, faults = fs\<rparr>"

section \<open>Statements and transactions\<close>

type_synonym 'a store_op = "db \<Rightarrow> 'a result \<times> db"

definition stmt :: "'a store_op \<Rightarrow> 'a store_op" where
  "stmt f d =
     (case faults d of
        [] \<Rightarrow> f d
      | True # fs \<Rightarrow> (Err ''sqlite: statement failed'', d\<lparr>faults := fs\<rparr>)
      | False # fs \<Rightarrow> f (d\<lparr>faults := fs\<rparr>))"

definition and_then :: "'a store_op \<Rightarrow> ('a \<Rightarrow> 'b store_op) \<Rightarrow> 'b store_op" where
  "and_then f g d = (case f d of (Inl e, d1) \<Rightarrow> (Inl e, d1) | (Inr x, d1) \<Rightarrow> g x d1)"

definition done_op :: "'a \<Rightarrow> 'a store_op" where
  "done_op x d = (Ok x, d)"

text \<open>A statement that cannot violate a constraint.\<close>

definition exec :: "(db \<Rightarrow> db) \<Rightarrow> unit store_op" where
  "exec f = stmt (\<lambda>d. (Ok (), f d))"

definition query :: "(db \<Rightarrow> 'a) \<Rightarrow> 'a store_op" where
  "query f = stmt (\<lambda>d. (Ok (f d), d))"

text \<open>\<open>inTx\<close>: begin, body, commit; any error rolls the tables back.\<close>

definition in_tx :: "'a store_op \<Rightarrow> 'a store_op" where
  "in_tx body d =
     (case and_then (exec id) (\<lambda>_. and_then body (\<lambda>x. and_then (exec id) (\<lambda>_. done_op x))) d of
        (Inl e, d1) \<Rightarrow> (Inl e, d\<lparr>faults := faults d1\<rparr>)
      | (Inr x, d1) \<Rightarrow> (Inr x, d1))"

section \<open>The submission log\<close>

definition has_sub :: "db \<Rightarrow> string \<Rightarrow> bool" where
  "has_sub d i \<longleftrightarrow> i \<in> set (map sub_id (submissions d))"

definition in_queue :: "db \<Rightarrow> string \<Rightarrow> bool" where
  "in_queue d i \<longleftrightarrow> i \<in> set (map q_id (retry_queue d))"

definition update_sub :: "string \<Rightarrow> (submission \<Rightarrow> submission) \<Rightarrow> db \<Rightarrow> db" where
  "update_sub i f d = d\<lparr>submissions := map (\<lambda>s. if sub_id s = i then f s else s) (submissions d)\<rparr>"

definition delete_queue :: "string \<Rightarrow> db \<Rightarrow> db" where
  "delete_queue i d = d\<lparr>retry_queue := filter (\<lambda>q. q_id q \<noteq> i) (retry_queue d)\<rparr>"

definition record_submission :: "submission \<Rightarrow> unit store_op" where
  "record_submission s = stmt (\<lambda>d.
     if has_sub d (sub_id s) then (Err ''storage: record submission: UNIQUE constraint failed'', d)
     else (Ok (), d\<lparr>submissions := submissions d @ [s]\<rparr>))"

definition mark_sent :: "string \<Rightarrow> string \<Rightarrow> instant \<Rightarrow> unit store_op" where
  "mark_sent i message_id at = in_tx (and_then
     (exec (update_sub i (\<lambda>s. s\<lparr>sub_status := StSent, sub_message_id := message_id,
        sub_sent_at := Some (time_unix at), sub_last_error := []\<rparr>)))
     (\<lambda>_. exec (delete_queue i)))"

definition mark_status :: "string \<Rightarrow> status \<Rightarrow> string \<Rightarrow> unit store_op" where
  "mark_status i st last_error =
     exec (update_sub i (\<lambda>s. s\<lparr>sub_status := st, sub_last_error := last_error\<rparr>))"

definition get_submission :: "string \<Rightarrow> submission option store_op" where
  "get_submission i = query (\<lambda>d. find (\<lambda>s. sub_id s = i) (submissions d))"

text \<open>\<open>ORDER BY created_at DESC LIMIT 1\<close> among the rows with the provider's message i.\<close>

definition newest :: "submission list \<Rightarrow> submission option" where
  "newest ss = (case sort_key (\<lambda>s. - sub_created_at s) ss of [] \<Rightarrow> None | s # _ \<Rightarrow> Some s)"

definition find_by_message_id :: "string \<Rightarrow> submission option store_op" where
  "find_by_message_id message_id =
     (if message_id = [] then done_op None
      else query (\<lambda>d. newest (filter (\<lambda>s. sub_message_id s = message_id) (submissions d))))"

definition sql_limit :: "int \<Rightarrow> 'a list \<Rightarrow> 'a list" where
  "sql_limit n xs = (if n < 0 then xs else take (nat n) xs)"

fun get_each :: "string list \<Rightarrow> submission list store_op" where
  "get_each [] d = (Ok [], d)"
| "get_each (i # ids) d =
     (case get_submission i d of
        (Inl er, d1) \<Rightarrow> (Inl er, d1)
      | (Inr row, d1) \<Rightarrow>
          (case get_each ids d1 of
             (Inl er, d2) \<Rightarrow> (Inl er, d2)
           | (Inr subs, d2) \<Rightarrow> (Ok (case row of None \<Rightarrow> subs | Some s \<Rightarrow> s # subs), d2)))"

definition list_submissions :: "int \<Rightarrow> submission list store_op" where
  "list_submissions limit = and_then
     (query (\<lambda>d. sql_limit limit (map sub_id
        (sort_key (\<lambda>s. - sub_created_at s) (sort_key sub_id (submissions d))))))
     get_each"

definition prune :: "instant \<Rightarrow> nat store_op" where
  "prune cutoff = stmt (\<lambda>d.
     let gone = (\<lambda>s. sub_created_at s < time_unix cutoff \<and> sub_status s \<noteq> StSending \<and> sub_status s \<noteq> StQueued);
         ids = map sub_id (filter gone (submissions d))
     in (Ok (length ids),
         d\<lparr>submissions := filter (\<lambda>s. \<not> gone s) (submissions d),
           retry_queue := filter (\<lambda>q. q_id q \<notin> set ids) (retry_queue d)\<rparr>))"

definition probe :: "instant \<Rightarrow> unit store_op" where
  "probe now = exec (\<lambda>d. d\<lparr>canary := Some (time_unix now)\<rparr>)"

text \<open>The crash-window recovery run at \<open>Open\<close>: two statements, no transaction.\<close>

definition recover_in_flight :: "unit store_op" where
  "recover_in_flight = and_then
     (exec (\<lambda>d. d\<lparr>retry_queue := retry_queue d @
        map (\<lambda>s. \<lparr>q_id = sub_id s, q_attempt = 0, q_next = 0\<rparr>)
          (filter (\<lambda>s. sub_status s = StSending \<and> \<not> in_queue d (sub_id s)) (submissions d))\<rparr>))
     (\<lambda>_. exec (\<lambda>d. d\<lparr>submissions :=
        map (\<lambda>s. if sub_status s = StSending then s\<lparr>sub_status := StQueued\<rparr> else s) (submissions d)\<rparr>))"

section \<open>The retry queue\<close>

definition retry_backoff :: "duration list" where
  "retry_backoff = [1 * minute, 4 * minute, 16 * minute, 64 * minute, 256 * minute]"

definition max_attempts :: nat where
  "max_attempts = length retry_backoff"

definition enqueue :: "string \<Rightarrow> instant \<Rightarrow> unit store_op" where
  "enqueue i now = in_tx (and_then
     (stmt (\<lambda>d.
        if \<not> has_sub d i then (Err ''FOREIGN KEY constraint failed'', d)
        else if in_queue d i then (Ok (), d)
        else (Ok (), d\<lparr>retry_queue := retry_queue d @
          [\<lparr>q_id = i, q_attempt = 0, q_next = time_unix (now + retry_backoff ! 0)\<rparr>]\<rparr>)))
     (\<lambda>_. exec (update_sub i (\<lambda>s. s\<lparr>sub_status := StQueued\<rparr>))))"

text \<open>A claimed entry: the submission and its number of background failures so far.\<close>

type_synonym due_retry = "submission \<times> nat"

fun claim_each :: "queue_row list \<Rightarrow> db \<Rightarrow> (due_retry list \<times> string option) \<times> db" where
  "claim_each [] d = (([], None), d)"
| "claim_each (e # es) d =
     (case get_submission (q_id e) d of
        (Inl er, d1) \<Rightarrow> (([], Some er), d1)
      | (Inr None, d1) \<Rightarrow> claim_each es (snd (exec (delete_queue (q_id e)) d1))
      | (Inr (Some s), d1) \<Rightarrow>
          (case mark_status (q_id e) StSending (sub_last_error s) d1 of
             (Inl er, d2) \<Rightarrow> (([], Some er), d2)
           | (Inr _, d2) \<Rightarrow>
               (case claim_each es d2 of
                  ((due, er), d3) \<Rightarrow> (((s\<lparr>sub_status := StSending\<rparr>, q_attempt e) # due, er), d3))))"

definition due_rows :: "int \<Rightarrow> int \<Rightarrow> db \<Rightarrow> queue_row list" where
  "due_rows now limit d = sql_limit limit (sort_key q_next (filter (\<lambda>q. q_next q \<le> now) (retry_queue d)))"

definition claim_due :: "instant \<Rightarrow> int \<Rightarrow> db \<Rightarrow> (due_retry list \<times> string option) \<times> db" where
  "claim_due now limit d =
     (case query (due_rows (time_unix now) limit) d of
        (Inl er, d1) \<Rightarrow> (([], Some er), d1)
      | (Inr entries, d1) \<Rightarrow> claim_each entries d1)"

text \<open>
  \<open>RecordRetryFailure\<close>. The code's closure sets \<open>deadLettered\<close> before the writes, so an
  error after that point is returned together with \<open>true\<close>; the callers look at the error
  first, and the result here is the flag of a committed transaction.
\<close>

definition record_retry_failure :: "string \<Rightarrow> string \<Rightarrow> instant \<Rightarrow> bool store_op" where
  "record_retry_failure i last_error now = in_tx (and_then
     (query (\<lambda>d. find (\<lambda>q. q_id q = i) (retry_queue d)))
     (\<lambda>row. case row of
        None \<Rightarrow> (\<lambda>d. (Err ''read attempt: sql: no rows in result set'', d))
      | Some q \<Rightarrow>
          let attempt = Suc (q_attempt q)
          in if attempt \<ge> max_attempts then
               and_then (exec (delete_queue i))
                 (\<lambda>_. and_then (exec (update_sub i (\<lambda>s. s\<lparr>sub_status := StFailed, sub_last_error := last_error\<rparr>)))
                 (\<lambda>_. done_op True))
             else
               and_then (exec (\<lambda>d. d\<lparr>retry_queue := map (\<lambda>r. if q_id r = i
                  then r\<lparr>q_attempt := attempt, q_next := time_unix (now + retry_backoff ! attempt)\<rparr> else r) (retry_queue d)\<rparr>))
                 (\<lambda>_. and_then (exec (update_sub i (\<lambda>s. s\<lparr>sub_status := StQueued, sub_last_error := last_error\<rparr>)))
                 (\<lambda>_. done_op False))))"

definition dead_letter :: "string \<Rightarrow> string \<Rightarrow> unit store_op" where
  "dead_letter i last_error = in_tx (and_then (exec (delete_queue i))
     (\<lambda>_. exec (update_sub i (\<lambda>s. s\<lparr>sub_status := StFailed, sub_last_error := last_error\<rparr>))))"

definition queue_depth :: "nat store_op" where
  "queue_depth = query (\<lambda>d. length (retry_queue d))"


text \<open>\<open>GROUP BY\<close>: each endpoint once, in order of its first queue entry, with its count.\<close>

definition queued_endpoints :: "db \<Rightarrow> string list" where
  "queued_endpoints d = concat (map (\<lambda>q. map sub_endpoint (filter (\<lambda>s. sub_id s = q_id q) (submissions d)))
     (retry_queue d))"

definition queued_by_endpoint :: "(string \<times> nat) list store_op" where
  "queued_by_endpoint = query (\<lambda>d. map (\<lambda>e. (e, count_list (queued_endpoints d) e))
     (remdups (queued_endpoints d)))"

section \<open>Opening the store\<close>

definition schema_version :: nat where
  "schema_version = 2"

text \<open>
  Schema v1 is \<open>CREATE ... IF NOT EXISTS\<close> throughout: on a database that has the tables it
  changes nothing, and the model always has them. Schema v2 is a bare \<open>ALTER TABLE ... ADD
  COLUMN\<close>, which SQLite refuses when the column exists.
\<close>

definition schema_v1 :: "unit store_op" where
  "schema_v1 = exec id"

definition schema_v2 :: "unit store_op" where
  "schema_v2 = stmt (\<lambda>d. if has_headers d then (Err ''duplicate column name: headers'', d)
     else (Ok (), d\<lparr>has_headers := True\<rparr>))"

definition migrate :: "unit store_op" where
  "migrate = and_then (query user_version)
     (\<lambda>version. if version > schema_version then (\<lambda>d. (Err ''storage: schema is newer than this binary'', d))
      else and_then (if version < 1 then schema_v1 else done_op ())
       (\<lambda>_. and_then (if version < 2 then schema_v2 else done_op ())
       (\<lambda>_. if version \<noteq> schema_version then exec (\<lambda>d. d\<lparr>user_version := schema_version\<rparr>)
            else done_op ())))"

record store_config =
  st_path :: string
  st_in_memory :: bool
  st_retention :: duration
  st_max_size :: int

definition is_memory :: "store_config \<Rightarrow> bool" where
  "is_memory cfg \<longleftrightarrow> st_in_memory cfg \<or> st_path cfg = '':memory:''"

text \<open>\<open>page_size\<close> is the engine's answer to \<open>PRAGMA page_size\<close>.\<close>

definition store_init :: "int \<Rightarrow> store_config \<Rightarrow> unit store_op" where
  "store_init page_size cfg =
     and_then (exec id) (\<lambda>_. and_then (exec id) (\<lambda>_. and_then (exec id)
     (\<lambda>_. and_then (if \<not> is_memory cfg then exec id else done_op ())
     (\<lambda>_. and_then
        (if st_max_size cfg > 0 then
           and_then (query (\<lambda>_. page_size))
             (\<lambda>ps. if ps \<le> 0 then (\<lambda>d. (Err ''storage: read page_size'', d))
               else exec (\<lambda>d. d\<lparr>max_page_count := Some (max 16 (st_max_size cfg div ps))\<rparr>))
         else done_op ())
     (\<lambda>_. and_then migrate (\<lambda>_. recover_in_flight))))))"

definition open_store :: "int \<Rightarrow> store_config \<Rightarrow> unit store_op" where
  "open_store page_size cfg =
     (if \<not> st_in_memory cfg \<and> st_path cfg = [] then
        (\<lambda>d. (Err ''storage: path is required unless in_memory = true'', d))
      else store_init page_size cfg)"

end
