(* ===== verification/Storage_Inv.thy ===== *)
theory Storage_Inv
  imports Storage
begin

text \<open>
  The invariant that ties the submission log to the retry queue, the transitions of a store
  shared by request handlers, the queue worker, the maintenance loop and restarts, and what
  they guarantee: pending mail is never pruned or forgotten, the ladder ends, a failed
  transaction changes nothing.
\<close>

section \<open>What each statement does to the two tables\<close>

text \<open>Facts that unfold an operation into its statements, with one case per fault pattern.\<close>

lemmas tx_defs = in_tx_def and_then_def exec_def query_def stmt_def done_op_def Let_def

lemma in_tx_error_tables:
  "fst (in_tx body d) = Inl e \<Longrightarrow> \<exists>fs. snd (in_tx body d) = d\<lparr>faults := fs\<rparr>"
  by (auto simp: in_tx_def split: prod.splits sum.splits)

lemma in_tx_error_same: "fst (in_tx body d) = Inl e \<Longrightarrow> snd (in_tx body d)\<lparr>faults := []\<rparr> = d\<lparr>faults := []\<rparr>"
  using in_tx_error_tables [of body d e] by auto

definition tables_ok :: "submission list \<Rightarrow> queue_row list \<Rightarrow> bool" where
  "tables_ok subs q \<longleftrightarrow>
     distinct (map sub_id subs) \<and> distinct (map q_id q) \<and> q_id ` set q \<subseteq> sub_id ` set subs \<and>
     (\<forall>r \<in> set q. q_attempt r < max_attempts) \<and>
     (\<forall>s \<in> set subs. sub_status s = StQueued \<longrightarrow> sub_id s \<in> q_id ` set q) \<and>
     (\<forall>s \<in> set subs. sub_id s \<in> q_id ` set q \<longrightarrow> sub_status s \<in> {StQueued, StSending})"

definition store_inv :: "db \<Rightarrow> bool" where
  "store_inv d \<longleftrightarrow> tables_ok (submissions d) (retry_queue d)"

lemma max_attempts_eq [simp]: "max_attempts = 5"
  by (simp add: max_attempts_def retry_backoff_def)

lemma store_inv_faults [simp]: "store_inv (d\<lparr>faults := fs\<rparr>) = store_inv d"
  by (simp add: store_inv_def)

text \<open>An operation keeps the invariant if its committed effect does.\<close>

lemma in_tx_cases [case_names fail ok]:
  obtains (fail) e fs where "in_tx body d = (Inl e, d\<lparr>faults := fs\<rparr>)"
  | (ok) x d1 where "body (d\<lparr>faults := tl (faults d)\<rparr>) = (Inr x, d1)"
      "in_tx body d = (Inr x, d1\<lparr>faults := tl (faults d1)\<rparr>)"
proof -
  have ex: "exec id d = (Err ''sqlite: statement failed'', d\<lparr>faults := tl (faults d)\<rparr>) \<or>
      exec id d = (Inr (), d\<lparr>faults := tl (faults d)\<rparr>)" for d
    by (cases "faults d") (auto simp: exec_def stmt_def split: bool.splits)
  show ?thesis
  proof (cases "exec id d")
    case (Pair r d1)
    with ex [of d] consider "r = Err ''sqlite: statement failed''" | "r = Inr ()" "d1 = d\<lparr>faults := tl (faults d)\<rparr>" by auto
    then show ?thesis
    proof cases
      case 1 then show ?thesis using fail Pair by (simp add: in_tx_def and_then_def)
    next
      case 2
      show ?thesis
      proof (cases "body d1")
        case b: (Pair r2 d2)
        show ?thesis
        proof (cases r2)
          case Inl then show ?thesis using fail Pair 2 b by (simp add: in_tx_def and_then_def)
        next
          case (Inr x)
          with ex [of d2] show ?thesis
            using Pair 2 b ok fail
            by (elim disjE) (simp_all add: in_tx_def and_then_def done_op_def)
        qed
      qed
    qed
  qed
qed

lemma stmt_cases:
  obtains (fail) e where "stmt f d = (Inl e, d\<lparr>faults := tl (faults d)\<rparr>)"
  | (run) "stmt f d = f (d\<lparr>faults := tl (faults d)\<rparr>)"
proof (cases "faults d")
  case Nil
  then have "d\<lparr>faults := tl (faults d)\<rparr> = d" by simp
  moreover have "stmt f d = f d" using Nil by (simp add: stmt_def)
  ultimately have "stmt f d = f (d\<lparr>faults := tl (faults d)\<rparr>)" by (rule ssubst)
  then show ?thesis by (rule run)
next
  case (Cons b fs)
  with run fail show ?thesis by (cases b) (simp_all add: stmt_def)
qed

lemma exec_cases:
  obtains (fail) e where "exec f d = (Inl e, d\<lparr>faults := tl (faults d)\<rparr>)"
  | (ok) "exec f d = (Inr (), f (d\<lparr>faults := tl (faults d)\<rparr>))"
  unfolding exec_def by (rule stmt_cases [of "\<lambda>d. (Ok (), f d)" d]) auto

lemma exec2_ok:
  assumes "and_then (exec f) (\<lambda>_. exec g) d = (Inr x, d1)"
  shows "\<exists>fs1 fs2. d1 = g ((f (d\<lparr>faults := fs1\<rparr>))\<lparr>faults := fs2\<rparr>)"
  using assms
  by (rule_tac f = f and d = d in exec_cases; rule_tac f = g and d = "f (d\<lparr>faults := tl (faults d)\<rparr>)" in exec_cases)
     (auto simp: and_then_def)


section \<open>Preservation of the invariant\<close>

text \<open>First on the tables: updating one row's status together with its queue entry.\<close>

lemma update_sub_id [simp]: "map sub_id (map (\<lambda>s. if sub_id s = i then f s else s) subs) = map sub_id subs"
  if "\<And>s. sub_id (f s) = sub_id s"
  using that by (induction subs) auto

lemma update_sub_image:
  assumes "\<And>s. sub_id (f s) = sub_id s"
  shows "sub_id ` (\<lambda>s. if sub_id s = i then f s else s) ` A = sub_id ` A"
proof -
  have "sub_id (if sub_id s = i then f s else s) = sub_id s" for s using assms by simp
  then show ?thesis by (simp add: image_image del: if_image_distrib)
qed

lemma tables_ok_finish:
  assumes "tables_ok subs q" "\<And>s. sub_id (f s) = sub_id s" "\<And>s. sub_status (f s) \<noteq> StQueued"
  shows "tables_ok (map (\<lambda>s. if sub_id s = i then f s else s) subs) (filter (\<lambda>r. q_id r \<noteq> i) q)"
proof -
  have d: "distinct (map q_id (filter (\<lambda>r. q_id r \<noteq> i) q))"
    using assms(1) by (simp add: tables_ok_def distinct_map_filter)
  show ?thesis
    using assms d unfolding tables_ok_def update_sub_id [OF assms(2)] by (auto simp: update_sub_image [OF assms(2)] simp del: if_image_distrib)
qed

lemma tables_ok_requeue:
  assumes "tables_ok subs q" "\<And>s. sub_id (f s) = sub_id s" "\<And>s. sub_status (f s) \<in> {StQueued, StSending}"
    "i \<in> q_id ` set q"
  shows "tables_ok (map (\<lambda>s. if sub_id s = i then f s else s) subs) q"
proof -
  show ?thesis
    using assms unfolding tables_ok_def update_sub_id [OF assms(2)] by (auto simp: update_sub_image [OF assms(2)] simp del: if_image_distrib)
qed

lemma tables_ok_attempt:
  assumes "tables_ok subs q" "a < max_attempts"
  shows "tables_ok subs (map (\<lambda>r. if q_id r = i then r\<lparr>q_attempt := a, q_next := n\<rparr> else r) q)"
proof -
  have m: "map q_id (map (\<lambda>r. if q_id r = i then r\<lparr>q_attempt := a, q_next := n\<rparr> else r) q) = map q_id q"
    by (induction q) auto
  then have "q_id ` set (map (\<lambda>r. if q_id r = i then r\<lparr>q_attempt := a, q_next := n\<rparr> else r) q) = q_id ` set q"
    by (metis set_map)
  with m assms show ?thesis unfolding tables_ok_def by (simp only:) (auto simp del: max_attempts_eq)
qed

lemma tables_ok_insert:
  assumes "tables_ok subs q" "i \<in> sub_id ` set subs" "i \<notin> q_id ` set q" "\<And>s. sub_id (f s) = sub_id s"
    "\<And>s. sub_status (f s) \<in> {StQueued, StSending}"
  shows "tables_ok (map (\<lambda>s. if sub_id s = i then f s else s) subs) (q @ [\<lparr>q_id = i, q_attempt = 0, q_next = n\<rparr>])"
proof -
  show ?thesis
    using assms unfolding tables_ok_def update_sub_id [OF assms(4)] by (auto simp: update_sub_image [OF assms(4)] simp del: if_image_distrib)
qed

text \<open>Then on operations: a transaction of two writes keeps what its committed effect keeps.\<close>

lemma tx2_keeps:
  assumes "\<And>d fs. P (d\<lparr>faults := fs\<rparr>) = P d" "P d"
    "\<And>fs1 fs2. P (g ((f (d\<lparr>faults := fs1\<rparr>))\<lparr>faults := fs2\<rparr>))"
  shows "P (snd (in_tx (and_then (exec f) (\<lambda>_. exec g)) d))"
proof (cases rule: in_tx_cases [of "and_then (exec f) (\<lambda>_. exec g)" d])
  case (fail e fs) then show ?thesis using assms(1,2) by simp
next
  case (ok x d1)
  then obtain fs1 fs2 where "d1 = g ((f (d\<lparr>faults := fs1\<rparr>))\<lparr>faults := fs2\<rparr>)"
    using exec2_ok [OF ok(1)] by auto
  then show ?thesis using ok(2) assms(1,3) by simp
qed

lemma exec_keeps:
  assumes "\<And>d fs. P (d\<lparr>faults := fs\<rparr>) = P d" "P d" "\<And>fs. P (f (d\<lparr>faults := fs\<rparr>))"
  shows "P (snd (exec f d))"
  by (cases rule: exec_cases [of f d]) (use assms in auto)

lemma stmt_keeps:
  assumes "\<And>d fs. P (d\<lparr>faults := fs\<rparr>) = P d" "P d" "\<And>fs. P (snd (f (d\<lparr>faults := fs\<rparr>)))"
  shows "P (snd (stmt f d))"
  by (cases rule: stmt_cases [of f d]) (use assms in auto)

lemma tables_ok_append:
  "tables_ok subs q \<Longrightarrow> sub_id s \<notin> sub_id ` set subs \<Longrightarrow> sub_status s \<noteq> StQueued \<Longrightarrow> tables_ok (subs @ [s]) q"
  unfolding tables_ok_def by auto

lemma record_submission_inv [inv_intros]:
  "store_inv d \<Longrightarrow> sub_status s \<noteq> StQueued \<Longrightarrow> store_inv (snd (record_submission s d))"
  unfolding record_submission_def
  by (rule stmt_keeps [where P = store_inv]) (auto simp: store_inv_def has_sub_def intro: tables_ok_append)

lemma mark_sent_inv [inv_intros]: "store_inv d \<Longrightarrow> store_inv (snd (mark_sent i m at d))"
  unfolding mark_sent_def
  by (rule tx2_keeps [where P = store_inv]) (simp_all add: store_inv_def delete_queue_def update_sub_def tables_ok_finish)

lemma dead_letter_inv [inv_intros]: "store_inv d \<Longrightarrow> store_inv (snd (dead_letter i e d))"
  unfolding dead_letter_def
  by (rule tx2_keeps [where P = store_inv]) (simp_all add: store_inv_def delete_queue_def update_sub_def tables_ok_finish)

lemma in_tx_keeps:
  assumes "\<And>d fs. P (d\<lparr>faults := fs\<rparr>) = P d" "P d"
    "\<And>fs x d1. body (d\<lparr>faults := fs\<rparr>) = (Inr x, d1) \<Longrightarrow> P d1"
  shows "P (snd (in_tx body d))"
  by (cases rule: in_tx_cases [of body d]) (use assms in auto)

lemma and_then_InrE:
  assumes "and_then f g d = (Inr x, d1)"
  obtains y d2 where "f d = (Inr y, d2)" "g y d2 = (Inr x, d1)"
  using assms by (auto simp: and_then_def split: prod.splits sum.splits)

lemma stmt_InrE:
  assumes "stmt f d = (Inr x, d1)"
  obtains fs where "f (d\<lparr>faults := fs\<rparr>) = (Inr x, d1)"
  using assms by (cases rule: stmt_cases [of f d]) auto

lemma exec_InrE:
  assumes "exec f d = (Inr x, d1)"
  obtains fs where "d1 = f (d\<lparr>faults := fs\<rparr>)"
  using assms by (cases rule: exec_cases [of f d]) auto

lemma query_InrE:
  assumes "query f d = (Inr x, d1)"
  obtains fs where "x = f (d\<lparr>faults := fs\<rparr>)" "d1 = d\<lparr>faults := fs\<rparr>"
  using assms unfolding query_def by (elim stmt_InrE) auto

lemmas op_InrEs = and_then_InrE stmt_InrE exec_InrE query_InrE

lemma find_SomeD: "find P xs = Some x \<Longrightarrow> x \<in> set xs \<and> P x"
  by (induction xs) (auto split: if_splits)

lemma enqueue_inv [inv_intros]:
  assumes "store_inv d" shows "store_inv (snd (enqueue i now d))"
  unfolding enqueue_def
  by (rule in_tx_keeps [where P = store_inv], simp, rule assms, elim op_InrEs)
     (use assms in \<open>auto simp: store_inv_def update_sub_def has_sub_def in_queue_def
        tables_ok_requeue tables_ok_insert split: if_splits\<close>)

lemma record_retry_failure_inv [inv_intros]:
  assumes "store_inv d" shows "store_inv (snd (record_retry_failure i e now d))"
  unfolding record_retry_failure_def
proof (rule in_tx_keeps [where P = store_inv], simp, rule assms, elim and_then_InrE query_InrE)
  fix fs x d1 row d2 fs1
  assume row: "row = find (\<lambda>q. q_id q = i) (retry_queue (d\<lparr>faults := fs, faults := fs1\<rparr>))"
    and d2: "d2 = d\<lparr>faults := fs, faults := fs1\<rparr>"
    and "(case row of None \<Rightarrow> Pair (Err ''read attempt: sql: no rows in result set'')
        | Some q \<Rightarrow> let attempt = Suc (q_attempt q)
          in if max_attempts \<le> attempt then
               and_then (exec (delete_queue i))
                 (\<lambda>_. and_then (exec (update_sub i (\<lambda>s. s\<lparr>sub_status := StFailed, sub_last_error := e\<rparr>)))
                 (\<lambda>_. done_op True))
             else
               and_then (exec (\<lambda>d. d\<lparr>retry_queue := map (\<lambda>r. if q_id r = i
                  then r\<lparr>q_attempt := attempt, q_next := time_unix (now + retry_backoff ! attempt)\<rparr> else r) (retry_queue d)\<rparr>))
                 (\<lambda>_. and_then (exec (update_sub i (\<lambda>s. s\<lparr>sub_status := StQueued, sub_last_error := e\<rparr>)))
                 (\<lambda>_. done_op False))) d2 = (Inr x, d1)"
  note run = this(3)
  show "store_inv d1"
  proof (cases row)
    case (Some q)
    with row have "find (\<lambda>q. q_id q = i) (retry_queue d) = Some q" by simp
    then have "q \<in> set (retry_queue d)" "q_id q = i"
      using find_SomeD by fast+
    then have queued: "i \<in> q_id ` set (retry_queue d)" by force
    show ?thesis
    proof (cases "max_attempts \<le> Suc (q_attempt q)")
      case True
      with run Some d2 show ?thesis using assms
        by (auto simp: store_inv_def tables_ok_finish done_op_def Let_def delete_queue_def update_sub_def
            elim!: op_InrEs)
    next
      case False
      have im: "q_id ` (\<lambda>r. if q_id r = i then r\<lparr>q_attempt := a, q_next := n\<rparr> else r) ` A = q_id ` A" for a n A
        by (auto simp: image_image simp del: if_image_distrib intro!: image_cong)
      from False run Some d2 assms queued show ?thesis
        by (auto simp: store_inv_def done_op_def Let_def update_sub_def im elim!: op_InrEs
            intro!: tables_ok_requeue tables_ok_attempt simp del: max_attempts_eq if_image_distrib)
    qed
  qed (use run in simp)
qed

lemma tables_ok_map:
  assumes ok: "tables_ok subs q" and h: "\<And>s. sub_id (h s) = sub_id s"
    and st: "\<And>s. s \<in> set subs \<Longrightarrow> (sub_status (h s) = StQueued \<longrightarrow> sub_id s \<in> q_id ` set q) \<and>
      (sub_id s \<in> q_id ` set q \<longrightarrow> sub_status (h s) \<in> {StQueued, StSending})"
  shows "tables_ok (map h subs) q"
proof -
  have ids: "map sub_id (map h subs) = map sub_id subs" using h by simp
  then have im: "sub_id ` set (map h subs) = sub_id ` set subs" by (metis set_map)
  have "\<forall>s \<in> set (map h subs). (sub_status s = StQueued \<longrightarrow> sub_id s \<in> q_id ` set q) \<and>
      (sub_id s \<in> q_id ` set q \<longrightarrow> sub_status s \<in> {StQueued, StSending})"
    using st h by fastforce
  with ok show ?thesis unfolding tables_ok_def ids im by blast
qed

lemma mark_status_inv [inv_intros]:
  assumes "store_inv d" "st \<noteq> StQueued" "in_queue d i \<longrightarrow> st = StSending"
  shows "store_inv (snd (mark_status i st e d))"
  unfolding mark_status_def
proof (rule exec_keeps [where P = store_inv])
  fix fs
  have t: "tables_ok (submissions d) (retry_queue d)" using assms(1) by (simp add: store_inv_def)
  have "tables_ok (map (\<lambda>s. if sub_id s = i then s\<lparr>sub_status := st, sub_last_error := e\<rparr> else s) (submissions d)) (retry_queue d)"
    using t assms(2,3) by (intro tables_ok_map [OF t]) (auto simp: tables_ok_def in_queue_def)
  then show "store_inv (update_sub i (\<lambda>s. s\<lparr>sub_status := st, sub_last_error := e\<rparr>) (d\<lparr>faults := fs\<rparr>))"
    by (simp add: store_inv_def update_sub_def)
qed (use assms in simp_all)

lemma delete_orphan_inv:
  assumes "store_inv d" "\<not> has_sub d i" shows "store_inv (snd (exec (delete_queue i) d))"
  by (rule exec_keeps [where P = store_inv])
     (use assms in \<open>auto simp: store_inv_def tables_ok_def delete_queue_def has_sub_def distinct_map_filter image_iff, (metis image_eqI)?\<close>)

lemma get_submission_db: "\<exists>fs. snd (get_submission i d) = d\<lparr>faults := fs\<rparr>"
  unfolding get_submission_def query_def by (cases rule: stmt_cases [of "\<lambda>d. (Ok (find (\<lambda>s. sub_id s = i) (submissions d)), d)" d]) auto

lemma get_submission_Inr: "get_submission i d = (Inr r, d1) \<Longrightarrow> r = find (\<lambda>s. sub_id s = i) (submissions d)"
  unfolding get_submission_def by (elim query_InrE) simp

lemma claim_each_inv: "store_inv d \<Longrightarrow> store_inv (snd (claim_each es d))"
proof (induction es arbitrary: d)
  case (Cons e es)
  obtain r d1 where g: "get_submission (q_id e) d = (r, d1)" by fastforce
  with get_submission_db [of "q_id e" d] Cons.prems have d1: "store_inv d1" "submissions d1 = submissions d" by auto
  show ?case
  proof (cases r)
    case (Inr row)
    note r = this
    show ?thesis
    proof (cases row)
      case None
      then have "\<not> has_sub d1 (q_id e)"
        using get_submission_Inr [of "q_id e" d row d1] g r d1(2) by (auto simp: has_sub_def find_None_iff eq_commute [of None])
      then show ?thesis using g r None Cons.IH delete_orphan_inv d1(1) by simp
    next
      case (Some s)
      have "store_inv (snd (mark_status (q_id e) StSending (sub_last_error s) d1))"
        using d1(1) by (intro mark_status_inv) auto
      then show ?thesis using g r Some Cons.IH
        by (auto split: prod.splits sum.splits) (metis snd_conv)
    qed
  qed (use g d1 in auto)
qed simp

lemma claim_due_inv [inv_intros]: "store_inv d \<Longrightarrow> store_inv (snd (claim_due now limit d))"
  unfolding claim_due_def query_def
  by (cases rule: stmt_cases [of "\<lambda>d. (Ok (due_rows (time_unix now) limit d), d)" d]) (auto intro: claim_each_inv)

lemma probe_inv [inv_intros]: "store_inv d \<Longrightarrow> store_inv (snd (probe now d))"
  unfolding probe_def by (rule exec_keeps [where P = store_inv]) (auto simp: store_inv_def)

lemma prune_queue_id:
  assumes "tables_ok subs q" "\<And>s. gone s \<Longrightarrow> sub_status s \<noteq> StSending \<and> sub_status s \<noteq> StQueued"
  shows "filter (\<lambda>r. q_id r \<notin> sub_id ` set (filter gone subs)) q = q"
proof (rule filter_True)
  show "\<forall>r \<in> set q. q_id r \<notin> sub_id ` set (filter gone subs)"
  proof
    fix r assume r: "r \<in> set q"
    show "q_id r \<notin> sub_id ` set (filter gone subs)"
    proof
      assume "q_id r \<in> sub_id ` set (filter gone subs)"
      then obtain s where "s \<in> set subs" "gone s" "sub_id s = q_id r" by auto
      then show False using assms r unfolding tables_ok_def by (metis empty_iff image_eqI insert_iff)
    qed
  qed
qed

lemma tables_ok_prune:
  assumes "tables_ok subs q" "\<And>s. gone s \<Longrightarrow> sub_status s \<noteq> StSending \<and> sub_status s \<noteq> StQueued"
  shows "tables_ok (filter (\<lambda>s. \<not> gone s) subs) q"
proof -
  have "q_id ` set q \<subseteq> sub_id ` set (filter (\<lambda>s. \<not> gone s) subs)"
  proof
    fix i assume i: "i \<in> q_id ` set q"
    with assms(1) obtain s where "s \<in> set subs" "sub_id s = i" "sub_status s \<in> {StQueued, StSending}"
      unfolding tables_ok_def by (metis imageE subsetD)
    with assms(2) have "s \<in> set (filter (\<lambda>s. \<not> gone s) subs)" by auto
    with \<open>sub_id s = i\<close> show "i \<in> sub_id ` set (filter (\<lambda>s. \<not> gone s) subs)" by blast
  qed
  with assms(1) show ?thesis by (simp add: tables_ok_def distinct_map_filter)
qed

lemma prune_inv [inv_intros]:
  assumes "store_inv d" shows "store_inv (snd (prune cutoff d))"
  unfolding prune_def
proof (rule stmt_keeps [where P = store_inv])
  fix fs
  let ?gone = "\<lambda>s. sub_created_at s < time_unix cutoff \<and> sub_status s \<noteq> StSending \<and> sub_status s \<noteq> StQueued"
  have t: "tables_ok (submissions d) (retry_queue d)" using assms by (simp add: store_inv_def)
  show "store_inv (snd (let gone = ?gone; ids = map sub_id (filter gone (submissions (d\<lparr>faults := fs\<rparr>)))
     in (Ok (length ids), (d\<lparr>faults := fs\<rparr>)\<lparr>submissions := filter (\<lambda>s. \<not> gone s) (submissions (d\<lparr>faults := fs\<rparr>)),
           retry_queue := filter (\<lambda>q. q_id q \<notin> set ids) (retry_queue (d\<lparr>faults := fs\<rparr>))\<rparr>)))"
    using tables_ok_prune [OF t, of ?gone] prune_queue_id [OF t, of ?gone]
    by (simp add: store_inv_def Let_def)
qed (use assms in simp_all)

lemma tables_ok_recover:
  assumes "tables_ok subs q"
  shows "tables_ok subs (q @ map (\<lambda>s. \<lparr>q_id = sub_id s, q_attempt = 0, q_next = 0\<rparr>)
      (filter (\<lambda>s. sub_status s = StSending \<and> sub_id s \<notin> q_id ` set q) subs))" (is "tables_ok _ (q @ map ?row ?new)")
proof -
  have "map q_id (map ?row ?new) = map sub_id ?new" by simp
  then have "distinct (map q_id (map ?row ?new))"
    using assms by (simp add: tables_ok_def distinct_map_filter comp_def)
  moreover have "set (map q_id q) \<inter> set (map sub_id ?new) = {}"
    by (auto simp: image_iff)
  ultimately have d: "distinct (map q_id (q @ map ?row ?new))"
    using assms \<open>map q_id (map ?row ?new) = map sub_id ?new\<close>
    unfolding tables_ok_def distinct_append map_append by metis
  have im: "q_id ` set (q @ map ?row ?new) = q_id ` set q \<union> sub_id ` set ?new"
    by (simp add: image_Un image_image)
  have uniq: "s = s'" if "s \<in> set subs" "s' \<in> set subs" "sub_id s = sub_id s'" for s s'
    using that assms by (meson distinct_map inj_onD tables_ok_def)
  have "\<forall>s \<in> set subs. sub_id s \<in> sub_id ` set ?new \<longrightarrow> sub_status s = StSending"
    using uniq by auto
  moreover have "sub_id ` set ?new \<subseteq> sub_id ` set subs" by auto
  moreover have "\<forall>r \<in> set (q @ map ?row ?new). q_attempt r < max_attempts"
    using assms by (auto simp: tables_ok_def)
  ultimately show ?thesis using assms d im unfolding tables_ok_def im by blast
qed

lemma tables_ok_requeue_sending:
  assumes t: "tables_ok subs q" and "\<forall>s \<in> set subs. sub_status s = StSending \<longrightarrow> sub_id s \<in> q_id ` set q"
  shows "tables_ok (map (\<lambda>s. if sub_status s = StSending then s\<lparr>sub_status := StQueued\<rparr> else s) subs) q"
  using assms by (intro tables_ok_map [OF t]) (auto simp: tables_ok_def)

lemma recover_first:
  assumes "store_inv d"
  shows "store_inv (d\<lparr>retry_queue := retry_queue d @
        map (\<lambda>s. \<lparr>q_id = sub_id s, q_attempt = 0, q_next = 0\<rparr>)
          (filter (\<lambda>s. sub_status s = StSending \<and> \<not> in_queue d (sub_id s)) (submissions d))\<rparr>)"
  using tables_ok_recover [of "submissions d" "retry_queue d"] assms
  by (simp add: store_inv_def in_queue_def)

lemma recover_inv [inv_intros]:
  assumes "store_inv d" shows "store_inv (snd (recover_in_flight d))"
proof -
  let ?add = "\<lambda>d. d\<lparr>retry_queue := retry_queue d @
        map (\<lambda>s. \<lparr>q_id = sub_id s, q_attempt = 0, q_next = 0\<rparr>)
          (filter (\<lambda>s. sub_status s = StSending \<and> \<not> in_queue d (sub_id s)) (submissions d))\<rparr>"
  let ?upd = "\<lambda>d. d\<lparr>submissions :=
        map (\<lambda>s. if sub_status s = StSending then s\<lparr>sub_status := StQueued\<rparr> else s) (submissions d)\<rparr>"
  have step: "store_inv (?upd (?add d)\<lparr>faults := fs\<rparr>)" if "store_inv d" for d fs
  proof -
    have t: "tables_ok (submissions (?add d)) (retry_queue (?add d))"
      using recover_first [OF that] by (simp add: store_inv_def)
    have "\<forall>s \<in> set (submissions d). sub_status s = StSending \<longrightarrow> sub_id s \<in> q_id ` set (retry_queue (?add d))"
      by (auto simp: in_queue_def image_Un image_image)
    with t have "tables_ok (map (\<lambda>s. if sub_status s = StSending then s\<lparr>sub_status := StQueued\<rparr> else s) (submissions d)) (retry_queue (?add d))"
      by (intro tables_ok_requeue_sending) simp_all
    then show ?thesis by (simp add: store_inv_def)
  qed
  have run: "recover_in_flight d = and_then (exec ?add) (\<lambda>_. exec ?upd) d"
    by (simp add: recover_in_flight_def)
  show ?thesis
  proof (cases rule: exec_cases [of ?add d])
    case fail then show ?thesis using assms unfolding run by (simp add: and_then_def)
  next
    case ok
    let ?d = "?add (d\<lparr>faults := tl (faults d)\<rparr>)"
    have "store_inv (snd (exec ?upd ?d))"
    proof (cases rule: exec_cases [of ?upd ?d])
      case ok then show ?thesis using step [of d] assms by (simp add: in_queue_def store_inv_def)
    qed (use recover_first [of "d\<lparr>faults := tl (faults d)\<rparr>"] assms in \<open>simp add: store_inv_def\<close>)
    then show ?thesis unfolding run and_then_def using ok by simp
  qed
qed

section \<open>Steps and reachable stores\<close>

lemma store_inv_tables: "submissions d = submissions d' \<Longrightarrow> retry_queue d = retry_queue d' \<Longrightarrow> store_inv d = store_inv d'"
  by (simp add: store_inv_def)

text \<open>
  One transition of a running process or of a restart. The request handlers persist a row
  before the send and finish it afterwards; \<open>MarkStatus\<close> is only called on a row the handler
  itself persisted and never enqueued. The worker's calls are unrestricted. A crash is the
  end of a run of steps at any point; the next step is then \<open>reopen\<close>.
\<close>

inductive store_step :: "db \<Rightarrow> db \<Rightarrow> bool" where
  persist: "sub_status s = StSending \<or> sub_status s = StSuppressed \<Longrightarrow> store_step d (snd (record_submission s d))"
| sent: "store_step d (snd (mark_sent i message_id at d))"
| inline_failed: "\<not> in_queue d i \<Longrightarrow> store_step d (snd (mark_status i StFailed e d))"
| enqueued: "store_step d (snd (enqueue i now d))"
| claimed: "store_step d (snd (claim_due now limit d))"
| retry_failed: "store_step d (snd (record_retry_failure i e now d))"
| dead: "store_step d (snd (dead_letter i e d))"
| pruned: "store_step d (snd (prune cutoff d))"
| probed: "store_step d (snd (probe now d))"
| reopen: "store_step d (snd (recover_in_flight d))"

inductive store_run :: "db \<Rightarrow> db \<Rightarrow> bool" where
  run_refl: "store_run d d"
| run_step: "store_run d d1 \<Longrightarrow> store_step d1 d2 \<Longrightarrow> store_run d d2"

lemma store_step_inv: "store_step d d' \<Longrightarrow> store_inv d \<Longrightarrow> store_inv d'"
  by (induction rule: store_step.induct) (auto intro!: inv_intros)

lemma store_run_inv: "store_run d d' \<Longrightarrow> store_inv d \<Longrightarrow> store_inv d'"
  by (induction rule: store_run.induct) (auto intro: store_step_inv)

lemma empty_db_inv: "store_inv (empty_db fs)"
  by (simp add: store_inv_def tables_ok_def empty_db_def)

section \<open>A queued submission through one step\<close>

text \<open>The part of a row that is fixed when it is written.\<close>

definition content :: "submission \<Rightarrow> submission" where
  "content s = s\<lparr>sub_status := StSending, sub_message_id := [], sub_last_error := [], sub_sent_at := None\<rparr>"

text \<open>
  \<open>kept i s d\<close>: the row \<open>i\<close> is in the log with the content of \<open>s\<close>, and it is either still
  in the queue or finished.
\<close>

definition kept :: "string \<Rightarrow> submission \<Rightarrow> db \<Rightarrow> bool" where
  "kept i s d \<longleftrightarrow> (\<exists>s' \<in> set (submissions d). sub_id s' = i \<and> content s' = content s \<and>
     (in_queue d i \<or> sub_status s' = StSent \<or> sub_status s' = StFailed))"

lemma kept_faults [simp]: "kept i s (d\<lparr>faults := fs\<rparr>) = kept i s d"
  by (simp add: kept_def in_queue_def)

lemma kept_update:
  assumes "kept i s d" "\<And>s. sub_id (f s) = sub_id s" "\<And>s. content (f s) = content s"
    "i = j \<Longrightarrow> in_queue d i \<or> (\<forall>s. sub_status (f s) = StSent \<or> sub_status (f s) = StFailed)"
  shows "kept i s (update_sub j f d)"
proof -
  obtain s' where s': "s' \<in> set (submissions d)" "sub_id s' = i" "content s' = content s"
    "in_queue d i \<or> sub_status s' = StSent \<or> sub_status s' = StFailed"
    using assms(1) by (auto simp: kept_def)
  let ?h = "\<lambda>s. if sub_id s = j then f s else s"
  have "?h s' \<in> set (submissions (update_sub j f d))" using s'(1) unfolding update_sub_def by simp
  moreover have "sub_id (?h s') = i" "content (?h s') = content s"
    using s' assms(2,3) by auto
  moreover have "in_queue (update_sub j f d) i \<or> sub_status (?h s') = StSent \<or> sub_status (?h s') = StFailed"
    using s' assms(4) by (auto simp: in_queue_def update_sub_def)
  ultimately show ?thesis unfolding kept_def by blast
qed

lemma kept_finish:
  assumes "kept i s d" "\<And>s. sub_id (f s) = sub_id s" "\<And>s. content (f s) = content s"
    "\<And>s. sub_status (f s) = StSent \<or> sub_status (f s) = StFailed"
  shows "kept i s (delete_queue j (update_sub j f d))"
proof -
  obtain s' where s': "s' \<in> set (submissions d)" "sub_id s' = i" "content s' = content s"
    "in_queue d i \<or> sub_status s' = StSent \<or> sub_status s' = StFailed"
    using assms(1) by (auto simp: kept_def)
  let ?h = "\<lambda>s. if sub_id s = j then f s else s" and ?d = "delete_queue j (update_sub j f d)"
  have "?h s' \<in> set (submissions ?d)" using s'(1) unfolding update_sub_def delete_queue_def by simp
  moreover have "sub_id (?h s') = i" "content (?h s') = content s"
    using s' assms(2,3) by auto
  moreover have "in_queue ?d i \<or> sub_status (?h s') = StSent \<or> sub_status (?h s') = StFailed"
    using s' assms(4) by (auto simp: in_queue_def update_sub_def delete_queue_def)
  ultimately show ?thesis unfolding kept_def by blast
qed

lemma delete_update_commute: "update_sub j f (delete_queue j d) = delete_queue j (update_sub j f d)"
  by (simp add: update_sub_def delete_queue_def)

lemma update_sub_faults: "update_sub j f (d\<lparr>faults := fs\<rparr>) = (update_sub j f d)\<lparr>faults := fs\<rparr>"
  and delete_queue_faults: "delete_queue j (d\<lparr>faults := fs\<rparr>) = (delete_queue j d)\<lparr>faults := fs\<rparr>"
  by (simp_all add: update_sub_def delete_queue_def)

lemma kept_sent: "kept i s d \<Longrightarrow> kept i s (snd (mark_sent j m at d))"
  unfolding mark_sent_def
  by (rule tx2_keeps [where P = "kept i s"])
     (simp_all add: update_sub_faults delete_queue_faults kept_finish content_def)

lemma kept_dead: "kept i s d \<Longrightarrow> kept i s (snd (dead_letter j e d))"
  unfolding dead_letter_def
  by (rule tx2_keeps [where P = "kept i s"])
     (simp_all add: update_sub_faults delete_queue_faults delete_update_commute kept_finish content_def)

lemma kept_status:
  "kept i s d \<Longrightarrow> in_queue d i \<Longrightarrow> kept i s (snd (mark_status j st e d))"
  unfolding mark_status_def
  by (rule exec_keeps [where P = "kept i s"])
     (auto simp: update_sub_faults content_def intro!: kept_update)

lemma kept_append_sub: "kept i s d \<Longrightarrow> kept i s (d\<lparr>submissions := submissions d @ [x]\<rparr>)"
  by (auto simp: kept_def in_queue_def)

lemma kept_record: "kept i s d \<Longrightarrow> kept i s (snd (record_submission x d))"
  unfolding record_submission_def
  by (rule stmt_keeps [where P = "kept i s"]) (auto simp: kept_def in_queue_def)

lemma kept_append_queue: "kept i s d \<Longrightarrow> kept i s (d\<lparr>retry_queue := retry_queue d @ rs\<rparr>)"
  by (auto simp: kept_def in_queue_def)

lemma kept_map_queue: "kept i s d \<Longrightarrow> (\<And>r. q_id (f r) = q_id r) \<Longrightarrow> kept i s (d\<lparr>retry_queue := map f (retry_queue d)\<rparr>)"
  by (auto simp: kept_def in_queue_def comp_def)

lemma kept_enqueue: "kept i s d \<Longrightarrow> kept i s (snd (enqueue j now d))"
  unfolding enqueue_def
proof (rule in_tx_keeps [where P = "kept i s"], simp, assumption, elim op_InrEs)
  fix fs x d1 y d2 fs1 fs2
  assume k: "kept i s d"
    and st: "(if \<not> has_sub (d\<lparr>faults := fs, faults := fs1\<rparr>) j then (Err ''FOREIGN KEY constraint failed'', d\<lparr>faults := fs, faults := fs1\<rparr>)
      else if in_queue (d\<lparr>faults := fs, faults := fs1\<rparr>) j then (Ok (), d\<lparr>faults := fs, faults := fs1\<rparr>)
      else (Ok (), (d\<lparr>faults := fs, faults := fs1\<rparr>)\<lparr>retry_queue := retry_queue (d\<lparr>faults := fs, faults := fs1\<rparr>) @
          [\<lparr>q_id = j, q_attempt = 0, q_next = time_unix (now + retry_backoff ! 0)\<rparr>]\<rparr>)) = (Inr y, d2)"
    and d1: "d1 = update_sub j (\<lambda>s. s\<lparr>sub_status := StQueued\<rparr>) (d2\<lparr>faults := fs2\<rparr>)"
  from st have "in_queue d2 j" by (auto simp: in_queue_def split: if_splits)
  moreover have "kept i s d2" using st k by (auto simp: in_queue_def kept_def split: if_splits)
  ultimately have "kept i s (update_sub j (\<lambda>s. s\<lparr>sub_status := StQueued\<rparr>) d2)"
    by (intro kept_update) (auto simp: content_def)
  then show "kept i s d1" unfolding d1 by (simp add: update_sub_faults)
qed

lemma in_queue_faults [simp]: "in_queue (d\<lparr>faults := fs\<rparr>) i = in_queue d i"
  by (simp add: in_queue_def)

lemma kept_retry_failure: "kept i s d \<Longrightarrow> kept i s (snd (record_retry_failure j e now d))"
  unfolding record_retry_failure_def
proof (rule in_tx_keeps [where P = "kept i s"], simp, assumption, elim and_then_InrE query_InrE)
  fix fs x d1 row d2 fs1
  assume k: "kept i s d" and row: "row = find (\<lambda>q. q_id q = j) (retry_queue (d\<lparr>faults := fs, faults := fs1\<rparr>))"
    and d2: "d2 = d\<lparr>faults := fs, faults := fs1\<rparr>"
    and run: "(case row of None \<Rightarrow> Pair (Err ''read attempt: sql: no rows in result set'')
        | Some q \<Rightarrow> let attempt = Suc (q_attempt q)
          in if max_attempts \<le> attempt then
               and_then (exec (delete_queue j))
                 (\<lambda>_. and_then (exec (update_sub j (\<lambda>s. s\<lparr>sub_status := StFailed, sub_last_error := e\<rparr>)))
                 (\<lambda>_. done_op True))
             else
               and_then (exec (\<lambda>d. d\<lparr>retry_queue := map (\<lambda>r. if q_id r = j
                  then r\<lparr>q_attempt := attempt, q_next := time_unix (now + retry_backoff ! attempt)\<rparr> else r) (retry_queue d)\<rparr>))
                 (\<lambda>_. and_then (exec (update_sub j (\<lambda>s. s\<lparr>sub_status := StQueued, sub_last_error := e\<rparr>)))
                 (\<lambda>_. done_op False))) d2 = (Inr x, d1)"
  show "kept i s d1"
  proof (cases row)
    case (Some q)
    with row have "find (\<lambda>q. q_id q = j) (retry_queue d) = Some q" by simp
    then have queued: "j \<in> q_id ` set (retry_queue d)" using find_SomeD by fastforce
    show ?thesis
    proof (cases "max_attempts \<le> Suc (q_attempt q)")
      case True
      with run Some d2 k show ?thesis
        by (auto simp: done_op_def Let_def update_sub_faults delete_queue_faults delete_update_commute content_def
            elim!: op_InrEs intro!: kept_finish)
    next
      case False
      let ?h = "\<lambda>r. if q_id r = j then r\<lparr>q_attempt := Suc (q_attempt q),
        q_next := time_unix (now + retry_backoff ! Suc (q_attempt q))\<rparr> else r"
      from False run Some d2 obtain fs2 where
        d1: "d1 = update_sub j (\<lambda>s. s\<lparr>sub_status := StQueued, sub_last_error := e\<rparr>)
            (d\<lparr>retry_queue := map ?h (retry_queue d), faults := fs2\<rparr>)"
        by (auto simp: done_op_def Let_def update_sub_def elim!: op_InrEs)
      have "kept i s (d\<lparr>retry_queue := map ?h (retry_queue d)\<rparr>)" using k by (rule kept_map_queue) simp
      moreover have "in_queue (d\<lparr>retry_queue := map ?h (retry_queue d)\<rparr>) j"
        using queued by (auto simp: in_queue_def image_iff)
      ultimately show ?thesis unfolding d1 update_sub_faults by (simp, intro kept_update) (auto simp: content_def)
    qed
  qed (use run in simp)
qed

lemma kept_delete_orphan:
  assumes "kept i s d" "j \<noteq> i" shows "kept i s (snd (exec (delete_queue j) d))"
  by (rule exec_keeps [where P = "kept i s"]) (use assms in \<open>auto simp: kept_def in_queue_def delete_queue_def\<close>)

lemma mark_status_queue: "retry_queue (snd (mark_status j st e d)) = retry_queue d"
  unfolding mark_status_def
  by (rule exec_keeps [where P = "\<lambda>d'. retry_queue d' = retry_queue d"]) (auto simp: update_sub_def)

lemma delete_queue_other: "j \<noteq> i \<Longrightarrow> in_queue (snd (exec (delete_queue j) d)) i = in_queue d i"
  by (rule exec_keeps [where P = "\<lambda>d'. in_queue d' i = in_queue d i"]) (auto simp: in_queue_def delete_queue_def)

lemma kept_claim_each: "kept i s d \<Longrightarrow> in_queue d i \<Longrightarrow> kept i s (snd (claim_each es d)) \<and> in_queue (snd (claim_each es d)) i"
proof (induction es arbitrary: d)
  case (Cons e es)
  obtain r d1 where g: "get_submission (q_id e) d = (r, d1)" by fastforce
  with get_submission_db [of "q_id e" d] Cons.prems have d1: "kept i s d1" "in_queue d1 i" "submissions d1 = submissions d" by auto
  show ?case
  proof (cases r)
    case (Inr row)
    note r = this
    show ?thesis
    proof (cases row)
      case None
      then have "q_id e \<noteq> i"
        using get_submission_Inr [of "q_id e" d row d1] g r Cons.prems(1)
        by (auto simp: kept_def find_None_iff eq_commute [of None])
      then show ?thesis using g r None Cons.IH kept_delete_orphan d1 delete_queue_other by simp
    next
      case (Some s')
      let ?d2 = "snd (mark_status (q_id e) StSending (sub_last_error s') d1)"
      have "kept i s ?d2" "in_queue ?d2 i"
        using d1 kept_status mark_status_queue by (auto simp: in_queue_def)
      then show ?thesis using g r Some Cons.IH
        by (auto split: prod.splits sum.splits) (metis snd_conv)+
    qed
  qed (use g d1 in auto)
qed simp

lemma kept_claim:
  assumes "kept i s d" "in_queue d i"
  shows "kept i s (snd (claim_due now limit d))" "in_queue (snd (claim_due now limit d)) i"
  unfolding claim_due_def query_def
  by (cases rule: stmt_cases [of "\<lambda>d. (Ok (due_rows (time_unix now) limit d), d)" d],
      use assms kept_claim_each in auto)+

lemma kept_probe: "kept i s d \<Longrightarrow> kept i s (snd (probe now d))"
  unfolding probe_def by (rule exec_keeps [where P = "kept i s"]) (auto simp: kept_def in_queue_def)

lemma kept_prune:
  assumes "store_inv d" "kept i s d" "in_queue d i"
  shows "kept i s (snd (prune cutoff d))"
  unfolding prune_def
proof (rule stmt_keeps [where P = "kept i s"])
  fix fs
  let ?gone = "\<lambda>s. sub_created_at s < time_unix cutoff \<and> sub_status s \<noteq> StSending \<and> sub_status s \<noteq> StQueued"
  have t: "tables_ok (submissions d) (retry_queue d)" using assms by (simp add: store_inv_def)
  obtain s' where s': "s' \<in> set (submissions d)" "sub_id s' = i" "content s' = content s"
    using assms(2) by (auto simp: kept_def)
  then have "\<not> ?gone s'" using t assms(3) by (auto simp: tables_ok_def in_queue_def)
  with s' assms(3) show "kept i s (snd (let gone = ?gone; ids = map sub_id (filter gone (submissions (d\<lparr>faults := fs\<rparr>)))
     in (Ok (length ids), (d\<lparr>faults := fs\<rparr>)\<lparr>submissions := filter (\<lambda>s. \<not> gone s) (submissions (d\<lparr>faults := fs\<rparr>)),
           retry_queue := filter (\<lambda>q. q_id q \<notin> set ids) (retry_queue (d\<lparr>faults := fs\<rparr>))\<rparr>)))"
    using prune_queue_id [OF t, of ?gone] by (auto simp: kept_def in_queue_def Let_def)
qed (use assms in simp_all)

lemma and_then_keeps:
  assumes "P d" "\<And>d. P d \<Longrightarrow> P (snd (f d))" "\<And>x d. P d \<Longrightarrow> P (snd (g x d))"
  shows "P (snd (and_then f g d))"
  using assms(2) [OF assms(1)] assms(3)
  by (cases "f d"; cases "fst (f d)") (auto simp: and_then_def)

lemma kept_map_subs:
  assumes "kept i s d" "in_queue d i" "\<And>s. sub_id (h s) = sub_id s" "\<And>s. content (h s) = content s"
  shows "kept i s (d\<lparr>submissions := map h (submissions d)\<rparr>)"
proof -
  obtain s' where "s' \<in> set (submissions d)" "sub_id s' = i" "content s' = content s"
    using assms(1) by (auto simp: kept_def)
  then have "h s' \<in> set (map h (submissions d))" "sub_id (h s') = i" "content (h s') = content s"
    using assms(3,4) by auto
  with assms(2) show ?thesis unfolding kept_def by (auto simp: in_queue_def)
qed

lemma kept_recover:
  assumes k: "kept i s d" and "in_queue d i"
  shows "kept i s (snd (recover_in_flight d))"
proof -
  let ?P = "\<lambda>d. kept i s d \<and> in_queue d i"
  let ?add = "\<lambda>d. d\<lparr>retry_queue := retry_queue d @
        map (\<lambda>s. \<lparr>q_id = sub_id s, q_attempt = 0, q_next = 0\<rparr>)
          (filter (\<lambda>s. sub_status s = StSending \<and> \<not> in_queue d (sub_id s)) (submissions d))\<rparr>"
  let ?upd = "\<lambda>d. d\<lparr>submissions :=
        map (\<lambda>s. if sub_status s = StSending then s\<lparr>sub_status := StQueued\<rparr> else s) (submissions d)\<rparr>"
  have upd: "?P (?upd d)" if "?P d" for d
    using that kept_map_subs [of i s d "\<lambda>s. if sub_status s = StSending then s\<lparr>sub_status := StQueued\<rparr> else s"]
    by (simp add: content_def in_queue_def)
  have add: "?P (?add d)" if "?P d" for d
    using that by (auto simp: kept_def in_queue_def)
  have exu: "?P (snd (exec ?upd d))" if "?P d" for d
    by (rule exec_keeps [where P = ?P], simp, rule that, rule upd) (use that in simp)
  have exa: "?P (snd (exec ?add d))" if "?P d" for d
    by (rule exec_keeps [where P = ?P], simp, rule that, rule add) (use that in simp)
  have "?P (snd (and_then (exec ?add) (\<lambda>_. exec ?upd) d))"
    by (rule and_then_keeps [where P = ?P]) (use assms exu exa in blast)+
  then show ?thesis unfolding recover_in_flight_def by blast
qed

lemma store_step_kept:
  assumes "store_step d d'" "store_inv d" "kept i s d" "in_queue d i"
  shows "kept i s d'"
  using assms
  by (induction rule: store_step.induct)
     (simp_all add: kept_record kept_sent kept_status kept_enqueue kept_claim kept_retry_failure kept_dead
       kept_prune kept_probe kept_recover)

section \<open>On a working engine\<close>

lemma stmt_nofault: "faults d = [] \<Longrightarrow> stmt f d = f d"
  by (simp add: stmt_def)

lemma exec_nofault: "faults d = [] \<Longrightarrow> exec f d = (Inr (), f d)"
  and query_nofault: "faults d = [] \<Longrightarrow> query g d = (Inr (g d), d)"
  by (simp_all add: exec_def query_def stmt_nofault)

lemma in_tx_nofault:
  "faults d = [] \<Longrightarrow> faults (snd (body d)) = [] \<Longrightarrow>
   in_tx body d = (case body d of (Inl e, _) \<Rightarrow> (Inl e, d) | (Inr x, d1) \<Rightarrow> (Inr x, d1))"
  by (cases d; cases "body d") (auto simp: in_tx_def and_then_def exec_nofault done_op_def split: sum.splits)

lemma find_key: "distinct (map f xs) \<Longrightarrow> x \<in> set xs \<Longrightarrow> find (\<lambda>y. f y = f x) xs = Some x"
  by (induction xs) (auto simp: image_iff)

lemma enqueue_nofault:
  assumes "faults d = []" "has_sub d i" "\<not> in_queue d i"
  shows "enqueue i now d = (Inr (), update_sub i (\<lambda>s. s\<lparr>sub_status := StQueued\<rparr>)
    (d\<lparr>retry_queue := retry_queue d @ [\<lparr>q_id = i, q_attempt = 0, q_next = time_unix (now + minute)\<rparr>]\<rparr>))"
  unfolding enqueue_def
  by (subst in_tx_nofault) (use assms in \<open>simp_all add: and_then_def stmt_nofault exec_nofault update_sub_def retry_backoff_def\<close>)

lemma record_submission_nofault:
  "faults d = [] \<Longrightarrow> \<not> has_sub d (sub_id s) \<Longrightarrow> record_submission s d = (Inr (), d\<lparr>submissions := submissions d @ [s]\<rparr>)"
  by (simp add: record_submission_def stmt_nofault)

lemma retry_failure_nofault:
  assumes "store_inv d" "faults d = []" "r \<in> set (retry_queue d)"
  shows "record_retry_failure (q_id r) er now d =
    (if q_attempt r = 4
     then (Inr True, update_sub (q_id r) (\<lambda>s. s\<lparr>sub_status := StFailed, sub_last_error := er\<rparr>)
        (d\<lparr>retry_queue := filter (\<lambda>x. q_id x \<noteq> q_id r) (retry_queue d)\<rparr>))
     else (Inr False, update_sub (q_id r) (\<lambda>s. s\<lparr>sub_status := StQueued, sub_last_error := er\<rparr>)
        (d\<lparr>retry_queue := map (\<lambda>x. if q_id x = q_id r then x\<lparr>q_attempt := Suc (q_attempt r),
            q_next := time_unix (now + 4 ^ Suc (q_attempt r) * minute)\<rparr> else x) (retry_queue d)\<rparr>)))"
proof -
  have lt: "q_attempt r < 5" and dist: "distinct (map q_id (retry_queue d))"
    using assms by (auto simp: store_inv_def tables_ok_def)
  have f: "find (\<lambda>q. q_id q = q_id r) (retry_queue d) = Some r"
    by (rule find_key [OF dist assms(3)])
  have delay: "retry_backoff ! Suc (q_attempt r) = 4 ^ Suc (q_attempt r) * minute" if "q_attempt r < 4"
  proof -
    have "q_attempt r = 0 \<or> q_attempt r = 1 \<or> q_attempt r = 2 \<or> q_attempt r = 3" using that by arith
    then show ?thesis by (auto simp: retry_backoff_def)
  qed
  show ?thesis
  proof (cases "q_attempt r = 4")
    case True
    then show ?thesis unfolding record_retry_failure_def
      by (subst in_tx_nofault) (use assms f in \<open>simp_all add: and_then_def query_nofault exec_nofault done_op_def
        update_sub_def delete_queue_def\<close>)
  next
    case False
    with lt have "q_attempt r < 4" by simp
    with delay show ?thesis unfolding record_retry_failure_def
      by (subst in_tx_nofault) (use assms f False lt in \<open>simp_all add: and_then_def query_nofault exec_nofault
        done_op_def update_sub_def\<close>)
  qed
qed

lemma mark_sent_nofault:
  "faults d = [] \<Longrightarrow> mark_sent i m at d = (Inr (), delete_queue i (update_sub i
     (\<lambda>s. s\<lparr>sub_status := StSent, sub_message_id := m, sub_sent_at := Some (time_unix at), sub_last_error := []\<rparr>) d))"
  unfolding mark_sent_def
  by (subst in_tx_nofault) (simp_all add: and_then_def exec_nofault update_sub_def delete_queue_def)

lemma dead_letter_nofault:
  "faults d = [] \<Longrightarrow> dead_letter i e d = (Inr (), delete_queue i (update_sub i
     (\<lambda>s. s\<lparr>sub_status := StFailed, sub_last_error := e\<rparr>) d))"
  unfolding dead_letter_def
  by (subst in_tx_nofault) (simp_all add: and_then_def exec_nofault update_sub_def delete_queue_def)

section \<open>Properties\<close>


definition demo_sub :: submission where
  "demo_sub = \<lparr>sub_id = ''a'', sub_endpoint = ''/c'', sub_transport = [], sub_from = [], sub_to = [''x''],
     sub_reply_to = [], sub_subject = [], sub_body_text = [], sub_body_html = [], sub_fields = [],
     sub_attachments = [], sub_headers = [], sub_client_ip = [], sub_status = StSending,
     sub_message_id = [], sub_last_error = [], sub_created_at = 0, sub_sent_at = None\<rparr>"

definition demo_queued :: db where
  "demo_queued = (empty_db [])\<lparr>submissions := [demo_sub\<lparr>sub_status := StQueued\<rparr>],
     retry_queue := [\<lparr>q_id = ''a'', q_attempt = 0, q_next = 60\<rparr>]\<rparr>"

lemma demo_run: "store_run (empty_db []) demo_queued"
proof -
  let ?d1 = "(empty_db [])\<lparr>submissions := [demo_sub]\<rparr>"
  have 1: "record_submission demo_sub (empty_db []) = (Inr (), ?d1)"
    by (subst record_submission_nofault) (simp_all add: empty_db_def has_sub_def)
  have 2: "enqueue ''a'' 0 ?d1 = (Inr (), demo_queued)"
    by (subst enqueue_nofault)
       (simp_all add: demo_queued_def empty_db_def has_sub_def in_queue_def demo_sub_def update_sub_def time_unix_def time_defs)
  have "store_step (empty_db []) ?d1"
    using persist [of demo_sub "empty_db []"] 1 by (simp add: demo_sub_def)
  moreover have "store_step ?d1 demo_queued"
    using enqueued [of ?d1 "''a''" 0] 2 by simp
  ultimately show ?thesis by (meson run_refl run_step)
qed

lemma demo_queued_simps:
  "submissions demo_queued = [demo_sub\<lparr>sub_status := StQueued\<rparr>]" "sub_id demo_sub = ''a''"
  "retry_queue demo_queued = [\<lparr>q_id = ''a'', q_attempt = 0, q_next = 60\<rparr>]" "faults demo_queued = []"
  by (simp_all add: demo_queued_def empty_db_def demo_sub_def)


text \<open>
  C11: queued mail is never lost. Take any step of any reachable store, whatever statement
  fails in it, and a submission with a queue entry before the step. Afterwards the
  submission is still logged with the same content, and it is still in the queue unless the
  step marked it \<open>sent\<close> or \<open>failed\<close>: pruning, claims, failed transactions, re-enqueues and
  restarts cannot drop it.
\<close>

theorem queued_mail_kept:
  assumes "store_run (empty_db fs) d" "store_step d d'" "s \<in> set (submissions d)" "in_queue d (sub_id s)"
  shows "\<exists>s' \<in> set (submissions d'). sub_id s' = sub_id s \<and> content s' = content s \<and>
    (in_queue d' (sub_id s) \<or> sub_status s' = StSent \<or> sub_status s' = StFailed)"
proof -
  have "kept (sub_id s) s d" using assms(3,4) by (auto simp: kept_def)
  from store_step_kept [OF assms(2) store_run_inv [OF assms(1) empty_db_inv] this assms(4)]
  show ?thesis by (simp add: kept_def)
qed

theorem queued_mail_kept_witness:
  "\<exists>s' \<in> set (submissions (snd (prune 99 demo_queued))). sub_id s' = ''a''"
proof -
  let ?s = "demo_sub\<lparr>sub_status := StQueued\<rparr>"
  have s: "?s \<in> set (submissions demo_queued)" "sub_id ?s = ''a''" by (simp_all add: demo_queued_simps)
  have q: "in_queue demo_queued (sub_id ?s)" using s(2) by (simp add: in_queue_def demo_queued_simps)
  from queued_mail_kept [OF demo_run pruned s(1) q, of 99] s(2) show ?thesis by metis
qed

text \<open>
  \<open>Enqueue\<close>, \<open>MarkSent\<close>, \<open>RecordRetryFailure\<close> and \<open>DeadLetter\<close> are atomic: when one
  returns an error, at whichever of its statements the engine failed, the database is the
  one before the call.
\<close>

theorem transactions_atomic:
  "(\<forall>e. fst (enqueue i now d) = Inl e \<longrightarrow> snd (enqueue i now d)\<lparr>faults := []\<rparr> = d\<lparr>faults := []\<rparr>) \<and>
   (\<forall>e. fst (mark_sent i m now d) = Inl e \<longrightarrow> snd (mark_sent i m now d)\<lparr>faults := []\<rparr> = d\<lparr>faults := []\<rparr>) \<and>
   (\<forall>e. fst (record_retry_failure i er now d) = Inl e \<longrightarrow>
      snd (record_retry_failure i er now d)\<lparr>faults := []\<rparr> = d\<lparr>faults := []\<rparr>) \<and>
   (\<forall>e. fst (dead_letter i er d) = Inl e \<longrightarrow> snd (dead_letter i er d)\<lparr>faults := []\<rparr> = d\<lparr>faults := []\<rparr>)"
  unfolding enqueue_def mark_sent_def record_retry_failure_def dead_letter_def
  by (intro conjI allI impI) (erule in_tx_error_same)+

theorem transactions_atomic_witness:
  "snd (enqueue ''a'' 0 (empty_db []))\<lparr>faults := []\<rparr> = empty_db []"
proof -
  have "fst (enqueue ''a'' 0 (empty_db [])) = Inl ''FOREIGN KEY constraint failed''"
    by (simp add: tx_defs enqueue_def has_sub_def empty_db_def)
  with transactions_atomic [of "''a''" 0 "empty_db []"] show ?thesis by (simp add: empty_db_def)
qed

text \<open>
  C12: the retry ladder. On a working engine, the failure of a background attempt for an
  entry with \<open>a < 5\<close> failures behind it moves it to \<open>a + 1\<close> failures and schedules the next
  attempt 1, 4, 16, 64 or 256 minutes ahead (the index is always in range), and the fifth
  failure dead-letters it: the queue entry goes and the submission is \<open>failed\<close> with the
  last error. No other submission or entry changes.
\<close>

theorem retry_ladder:
  assumes "store_inv d" "faults d = []" "r \<in> set (retry_queue d)"
  shows "record_retry_failure (q_id r) er now d =
    (if q_attempt r = 4
     then (Inr True, update_sub (q_id r) (\<lambda>s. s\<lparr>sub_status := StFailed, sub_last_error := er\<rparr>)
        (d\<lparr>retry_queue := filter (\<lambda>x. q_id x \<noteq> q_id r) (retry_queue d)\<rparr>))
     else (Inr False, update_sub (q_id r) (\<lambda>s. s\<lparr>sub_status := StQueued, sub_last_error := er\<rparr>)
        (d\<lparr>retry_queue := map (\<lambda>x. if q_id x = q_id r then x\<lparr>q_attempt := Suc (q_attempt r),
            q_next := time_unix (now + 4 ^ Suc (q_attempt r) * minute)\<rparr> else x) (retry_queue d)\<rparr>)))"
  by (rule retry_failure_nofault [OF assms])

lemma demo_queued_inv: "store_inv demo_queued"
  using store_run_inv [OF demo_run empty_db_inv] .

theorem retry_ladder_witness:
  "fst (record_retry_failure ''a'' ''timeout'' 0 demo_queued) = Inr False \<and>
   map q_next (retry_queue (snd (record_retry_failure ''a'' ''timeout'' 0 demo_queued))) = [240]"
  using retry_ladder [OF demo_queued_inv demo_queued_simps(4), of "\<lparr>q_id = ''a'', q_attempt = 0, q_next = 60\<rparr>" "''timeout''" 0]
  by (simp add: demo_queued_simps update_sub_def time_unix_def time_defs)

text \<open>
  Crash recovery. Reopening a reachable store, when it succeeds, leaves no submission
  \<open>sending\<close>: each one found \<open>sending\<close> is \<open>queued\<close> and has a queue entry, which keeps its
  attempt count if it had one and is due immediately otherwise; no other submission changes.
\<close>

theorem recovery_requeues:
  assumes "store_run (empty_db fs) d" "recover_in_flight d = (Inr (), d')"
  shows "submissions d' = map (\<lambda>s. if sub_status s = StSending then s\<lparr>sub_status := StQueued\<rparr> else s) (submissions d) \<and>
    (\<forall>s \<in> set (submissions d). sub_status s = StSending \<longrightarrow> in_queue d' (sub_id s)) \<and>
    (\<forall>r \<in> set (retry_queue d). r \<in> set (retry_queue d')) \<and>
    (\<forall>r \<in> set (retry_queue d'). r \<in> set (retry_queue d) \<or> q_attempt r = 0 \<and> q_next r = 0)"
  using assms(2) unfolding recover_in_flight_def
  by (elim op_InrEs) (auto simp: in_queue_def)


theorem recovery_requeues_witness:
  "store_run (empty_db []) ((empty_db [])\<lparr>submissions := [demo_sub]\<rparr>) \<and>
   (\<exists>d'. recover_in_flight ((empty_db [])\<lparr>submissions := [demo_sub]\<rparr>) = (Inr (), d') \<and> in_queue d' ''a'')"
proof -
  let ?d = "(empty_db [])\<lparr>submissions := [demo_sub]\<rparr>"
  have "record_submission demo_sub (empty_db []) = (Inr (), ?d)"
    by (subst record_submission_nofault) (simp_all add: empty_db_def has_sub_def)
  then have "store_step (empty_db []) ?d"
    using persist [of demo_sub "empty_db []"] by (simp add: demo_sub_def)
  then have run: "store_run (empty_db []) ?d" by (meson run_refl run_step)
  obtain d' where d': "recover_in_flight ?d = (Inr (), d')"
    by (simp add: recover_in_flight_def and_then_def exec_nofault empty_db_def)
  from recovery_requeues [OF run d'] d' run show ?thesis by (simp add: demo_sub_def)
qed


definition demo_wedged :: db where
  "demo_wedged = (empty_db [])\<lparr>user_version := 1, has_headers := True\<rparr>"


end
