(* ===== verification/Storage_Lists.thy ===== *)
theory Storage_Lists
  imports Storage_Inv
begin

text \<open>
  The store's other tables: the suppression list, the idempotency rows and the lifecycle
  forward queue, and the \<open>Gate\<close> that switches persistence off while the disk is failing.
\<close>

section \<open>Suppressions\<close>

text \<open>\<open>lower\<close> stands for \<open>strings.ToLower\<close> on all of Unicode.\<close>

definition normalize_email :: "(string \<Rightarrow> string) \<Rightarrow> string \<Rightarrow> string" where
  "normalize_email lower email = lower (trim_space email)"

definition add_suppression :: "(string \<Rightarrow> string) \<Rightarrow> string \<Rightarrow> string \<Rightarrow> string \<Rightarrow> instant \<Rightarrow> unit store_op" where
  "add_suppression lower email reason source_endpoint at =
     (let email = normalize_email lower email
      in if email = [] then (\<lambda>d. (Err ''storage: suppression email is empty'', d))
         else exec (\<lambda>d.
           if \<exists>r \<in> set (suppressions d). sup_email r = email \<and> sup_reason r = reason then d
           else d\<lparr>suppressions := suppressions d @ [\<lparr>sup_email = email, sup_reason = reason,
             sup_endpoint = source_endpoint, sup_created_at = time_unix at\<rparr>]\<rparr>))"

definition suppression_for :: "(string \<Rightarrow> string) \<Rightarrow> string \<Rightarrow> suppression option store_op" where
  "suppression_for lower email = query (\<lambda>d.
     case sort_key sup_created_at (sort_key sup_reason
       (filter (\<lambda>r. sup_email r = normalize_email lower email) (suppressions d))) of
       [] \<Rightarrow> None | r # _ \<Rightarrow> Some r)"

definition remove_suppression :: "(string \<Rightarrow> string) \<Rightarrow> string \<Rightarrow> nat store_op" where
  "remove_suppression lower email = stmt (\<lambda>d.
     (Ok (length (filter (\<lambda>r. sup_email r = normalize_email lower email) (suppressions d))),
      d\<lparr>suppressions := filter (\<lambda>r. sup_email r \<noteq> normalize_email lower email) (suppressions d)\<rparr>))"

definition list_suppressions :: "int \<Rightarrow> suppression list store_op" where
  "list_suppressions limit = query (\<lambda>d.
     sql_limit limit (sort_key sup_created_at (sort_key sup_email (suppressions d))))"

section \<open>Idempotent responses\<close>

record idem_response =
  ir_status :: int
  ir_content_type :: string
  ir_body :: bytes

definition put_idempotent :: "string \<Rightarrow> string \<Rightarrow> idem_response \<Rightarrow> instant \<Rightarrow> unit store_op" where
  "put_idempotent key endpoint resp expires_at = exec (\<lambda>d.
     let row = \<lparr>idem_key = key, idem_endpoint = endpoint, idem_status = ir_status resp,
       idem_content_type = ir_content_type resp, idem_body = ir_body resp, idem_expires = time_unix expires_at\<rparr>;
         hit = (\<lambda>r. idem_key r = key \<and> idem_endpoint r = endpoint)
     in d\<lparr>idempotency := (if list_ex hit (idempotency d) then map (\<lambda>r. if hit r then row else r) (idempotency d)
           else idempotency d @ [row])\<rparr>)"

definition get_idempotent :: "string \<Rightarrow> string \<Rightarrow> instant \<Rightarrow> idem_response option store_op" where
  "get_idempotent key endpoint now = query (\<lambda>d.
     case find (\<lambda>r. idem_key r = key \<and> idem_endpoint r = endpoint) (idempotency d) of
       None \<Rightarrow> None
     | Some r \<Rightarrow> if time_unix now \<ge> idem_expires r then None
         else Some \<lparr>ir_status = idem_status r, ir_content_type = idem_content_type r, ir_body = idem_body r\<rparr>)"

definition prune_idempotency :: "instant \<Rightarrow> nat store_op" where
  "prune_idempotency now = stmt (\<lambda>d.
     (Ok (length (filter (\<lambda>r. idem_expires r \<le> time_unix now) (idempotency d))),
      d\<lparr>idempotency := filter (\<lambda>r. \<not> idem_expires r \<le> time_unix now) (idempotency d)\<rparr>))"

section \<open>The lifecycle forward queue\<close>

definition enqueue_forward :: "string \<Rightarrow> bytes \<Rightarrow> instant \<Rightarrow> unit store_op" where
  "enqueue_forward endpoint payload now = exec (\<lambda>d. d\<lparr>lifecycle_seq := Suc (lifecycle_seq d),
     lifecycle_queue := lifecycle_queue d @ [\<lparr>fwd_id = Suc (lifecycle_seq d), fwd_endpoint = endpoint,
       fwd_payload = payload, fwd_attempt = 0, fwd_next = time_unix (now + retry_backoff ! 0)\<rparr>]\<rparr>)"

definition claim_due_forwards :: "instant \<Rightarrow> int \<Rightarrow> forward_row list store_op" where
  "claim_due_forwards now limit = query (\<lambda>d.
     sql_limit limit (sort_key fwd_next (filter (\<lambda>r. fwd_next r \<le> time_unix now) (lifecycle_queue d))))"

definition record_forward_outcome :: "nat \<Rightarrow> bool \<Rightarrow> instant \<Rightarrow> bool store_op" where
  "record_forward_outcome i retryable now =
     (if \<not> retryable then
        and_then (exec (\<lambda>d. d\<lparr>lifecycle_queue := filter (\<lambda>r. fwd_id r \<noteq> i) (lifecycle_queue d)\<rparr>))
          (\<lambda>_. done_op False)
      else and_then (query (\<lambda>d. find (\<lambda>r. fwd_id r = i) (lifecycle_queue d)))
        (\<lambda>row. case row of
           None \<Rightarrow> done_op False
         | Some r \<Rightarrow>
             let attempt = Suc (fwd_attempt r)
             in if attempt \<ge> max_attempts then
                  and_then (exec (\<lambda>d. d\<lparr>lifecycle_queue := filter (\<lambda>r. fwd_id r \<noteq> i) (lifecycle_queue d)\<rparr>))
                    (\<lambda>_. done_op True)
                else
                  and_then (exec (\<lambda>d. d\<lparr>lifecycle_queue := map (\<lambda>r. if fwd_id r = i
                    then r\<lparr>fwd_attempt := attempt, fwd_next := time_unix (now + retry_backoff ! attempt)\<rparr>
                    else r) (lifecycle_queue d)\<rparr>))
                    (\<lambda>_. done_op False)))"

section \<open>The gate\<close>

record gate =
  gate_db :: db
  gate_healthy :: bool

definition new_gate :: "db \<Rightarrow> gate" where
  "new_gate d = \<lparr>gate_db = d, gate_healthy = True\<rparr>"

definition report_error :: "gate \<Rightarrow> gate" where
  "report_error g = g\<lparr>gate_healthy := False\<rparr>"

definition set_from_probe :: "unit result \<Rightarrow> gate \<Rightarrow> gate" where
  "set_from_probe r g = g\<lparr>gate_healthy := (case r of Inl _ \<Rightarrow> False | Inr _ \<Rightarrow> True)\<rparr>"

definition on_db :: "'a store_op \<Rightarrow> gate \<Rightarrow> 'a result \<times> gate" where
  "on_db f g = (case f (gate_db g) of (r, d) \<Rightarrow> (r, g\<lparr>gate_db := d\<rparr>))"

text \<open>\<open>depth\<close> is what \<open>OnDepth\<close> reports, when it is called.\<close>

definition probe_once :: "instant \<Rightarrow> gate \<Rightarrow> nat option \<times> gate" where
  "probe_once now g =
     (let (r, g1) = on_db (probe now) g;
          g2 = set_from_probe r g1
      in if gate_healthy g2 then
           (case on_db queue_depth g2 of (Inl _, g3) \<Rightarrow> (None, g3) | (Inr n, g3) \<Rightarrow> (Some n, g3))
         else (None, g2))"

datatype tick = ProbeTick instant | PruneTick instant

definition prune_tick :: "duration \<Rightarrow> instant \<Rightarrow> gate \<Rightarrow> gate" where
  "prune_tick retention now g =
     (if \<not> gate_healthy g \<or> retention \<le> 0 then g
      else case on_db (prune (now - retention)) g of
        (Inl _, g1) \<Rightarrow> g1
      | (Inr _, g1) \<Rightarrow> snd (on_db (prune_idempotency now) g1))"

definition maintenance_tick :: "duration \<Rightarrow> tick \<Rightarrow> gate \<Rightarrow> gate" where
  "maintenance_tick retention t g =
     (case t of ProbeTick now \<Rightarrow> snd (probe_once now g) | PruneTick now \<Rightarrow> prune_tick retention now g)"

text \<open>\<open>RunMaintenance\<close> until the context ends: one immediate probe, then the ticks.\<close>

definition run_maintenance :: "duration \<Rightarrow> instant \<Rightarrow> tick list \<Rightarrow> gate \<Rightarrow> gate" where
  "run_maintenance retention start ticks g =
     foldl (\<lambda>g t. maintenance_tick retention t g) (snd (probe_once start g)) ticks"

section \<open>Lemmas\<close>

definition suppressed :: "(string \<Rightarrow> string) \<Rightarrow> db \<Rightarrow> string \<Rightarrow> bool" where
  "suppressed lower d email \<longleftrightarrow> (\<exists>r \<in> set (suppressions d). sup_email r = normalize_email lower email)"

lemma suppression_for_nofault:
  assumes "faults d = []"
  shows "\<exists>res. suppression_for lower email d = (Inr res, d) \<and>
    (res \<noteq> None \<longleftrightarrow> suppressed lower d email) \<and>
    (\<forall>r. res = Some r \<longrightarrow> r \<in> set (suppressions d) \<and> sup_email r = normalize_email lower email \<and>
       (\<forall>r' \<in> set (suppressions d). sup_email r' = normalize_email lower email \<longrightarrow> sup_created_at r \<le> sup_created_at r'))"
proof -
  let ?rows = "sort_key sup_created_at (sort_key sup_reason
    (filter (\<lambda>r. sup_email r = normalize_email lower email) (suppressions d)))"
  have set: "set ?rows = {r \<in> set (suppressions d). sup_email r = normalize_email lower email}" by simp
  have sorted: "sorted (map sup_created_at ?rows)" by simp
  show ?thesis
  proof (cases ?rows)
    case Nil
    then show ?thesis using set assms
      by (auto simp: suppression_for_def query_nofault suppressed_def)
  next
    case (Cons r rs)
    then have "r \<in> set ?rows" "\<forall>r' \<in> set ?rows. sup_created_at r \<le> sup_created_at r'" using sorted by auto
    with set Cons assms show ?thesis
      by (auto simp: suppression_for_def query_nofault suppressed_def)
  qed
qed

lemma maintenance_suppressions:
  "suppressions (gate_db (maintenance_tick retention t g)) = suppressions (gate_db g)"
proof -
  have p: "suppressions (snd (probe now d)) = suppressions d" for now d
    unfolding probe_def by (rule exec_keeps [where P = "\<lambda>d'. suppressions d' = suppressions d"]) simp_all
  have q: "suppressions (snd (queue_depth d)) = suppressions d" for d
    unfolding queue_depth_def query_def by (rule stmt_keeps [where P = "\<lambda>d'. suppressions d' = suppressions d"]) simp_all
  have r: "suppressions (snd (prune c d)) = suppressions d" for c d
    unfolding prune_def by (rule stmt_keeps [where P = "\<lambda>d'. suppressions d' = suppressions d"]) (simp_all add: Let_def)
  have i: "suppressions (snd (prune_idempotency c d)) = suppressions d" for c d
    unfolding prune_idempotency_def by (rule stmt_keeps [where P = "\<lambda>d'. suppressions d' = suppressions d"]) simp_all
  show ?thesis
  proof (cases t)
    case (ProbeTick now)
    then show ?thesis using p [of now "gate_db g"] q
      by (auto simp: maintenance_tick_def probe_once_def on_db_def set_from_probe_def Let_def split: prod.splits sum.splits)
        (metis snd_conv)+
  next
    case (PruneTick now)
    then show ?thesis using r [of "now - retention" "gate_db g"] i
      by (auto simp: maintenance_tick_def prune_tick_def on_db_def split: prod.splits sum.splits) (metis snd_conv)+
  qed
qed

lemma foldl_keeps: "P x \<Longrightarrow> (\<And>x y. P x \<Longrightarrow> P (f x y)) \<Longrightarrow> P (foldl f x ys)"
  by (induction ys arbitrary: x) auto

section \<open>Properties\<close>

text \<open>
  Suppression cannot be dodged. On a working engine, after \<open>AddSuppression\<close> of a
  non-blank address, every spelling with the same normal form (case and surrounding blanks)
  is found suppressed, under the earliest row for it; a row already present for the same
  address and reason stays as it is; \<open>RemoveSuppression\<close> of any spelling clears the address
  again and leaves every other address alone.
\<close>

theorem suppression_roundtrip:
  assumes "faults d = []" "normalize_email lower e \<noteq> []" "normalize_email lower e' = normalize_email lower e"
    "add_suppression lower e reason ep at d = (r, d1)" "suppression_for lower e' d1 = (res, d2)"
    "remove_suppression lower e' d1 = (n, d3)"
  shows "r = Inr () \<and> (\<exists>row. res = Inr (Some row) \<and> sup_email row = normalize_email lower e \<and>
      (\<forall>row' \<in> set (suppressions d1). sup_email row' = normalize_email lower e \<longrightarrow> sup_created_at row \<le> sup_created_at row')) \<and>
    set (suppressions d) \<subseteq> set (suppressions d1) \<and>
    ((\<exists>row \<in> set (suppressions d). sup_email row = normalize_email lower e \<and> sup_reason row = reason) \<longrightarrow> d1 = d) \<and>
    \<not> suppressed lower d3 e \<and>
    (\<forall>x. normalize_email lower x \<noteq> normalize_email lower e \<longrightarrow> suppressed lower d3 x = suppressed lower d x)"
proof -
  let ?dup = "\<exists>row \<in> set (suppressions d). sup_email row = normalize_email lower e \<and> sup_reason row = reason"
  let ?row = "\<lparr>sup_email = normalize_email lower e, sup_reason = reason, sup_endpoint = ep, sup_created_at = time_unix at\<rparr>"
  have d1: "r = Inr ()" "d1 = (if ?dup then d else d\<lparr>suppressions := suppressions d @ [?row]\<rparr>)"
    using assms(1,2,4) by (auto simp: add_suppression_def exec_nofault Let_def)
  then have f1: "faults d1 = []" using assms(1) by simp
  have supp: "suppressed lower d1 e'" using d1(2) assms(3) by (auto simp: suppressed_def)
  obtain row where row: "res = Inr (Some row)" "sup_email row = normalize_email lower e"
    "\<forall>row' \<in> set (suppressions d1). sup_email row' = normalize_email lower e \<longrightarrow> sup_created_at row \<le> sup_created_at row'"
    using suppression_for_nofault [OF f1, of lower e'] supp assms(3,5) by auto
  have d3: "suppressions d3 = filter (\<lambda>r. sup_email r \<noteq> normalize_email lower e) (suppressions d1)"
    using assms(3,6) f1 by (auto simp: remove_suppression_def stmt_nofault)
  have "\<not> suppressed lower d3 e" using d3 by (auto simp: suppressed_def)
  moreover have "suppressed lower d3 x = suppressed lower d x" if "normalize_email lower x \<noteq> normalize_email lower e" for x
    using that d3 d1(2) by (auto simp: suppressed_def)
  moreover have "set (suppressions d) \<subseteq> set (suppressions d1)" "?dup \<longrightarrow> d1 = d" using d1(2) by auto
  ultimately show ?thesis using d1(1) row by blast
qed

definition ascii_lower :: "string \<Rightarrow> string" where
  "ascii_lower = map ascii_lower_char"

theorem suppression_roundtrip_witness:
  "fst (suppression_for ascii_lower ''BOUNCED@x.com'' (snd (add_suppression ascii_lower '' bounced@X.com'' ''hard_bounce'' ''/c'' 0 (empty_db []))))
   \<noteq> Inr None"
proof -
  have n: "normalize_email ascii_lower '' bounced@X.com'' = ''bounced@x.com''"
    "normalize_email ascii_lower ''BOUNCED@x.com'' = ''bounced@x.com''" by code_simp+
  obtain r d1 res d2 m d3 where e: "add_suppression ascii_lower '' bounced@X.com'' ''hard_bounce'' ''/c'' 0 (empty_db []) = (r, d1)"
    "suppression_for ascii_lower ''BOUNCED@x.com'' d1 = (res, d2)" "remove_suppression ascii_lower ''BOUNCED@x.com'' d1 = (m, d3)"
    by (meson surj_pair)
  from suppression_roundtrip [OF _ _ _ e] n e show ?thesis by (auto simp: empty_db_def)
qed

text \<open>
  Maintenance never forgets. The probe and pruning loop, over any ticks and any failures,
  leaves the suppression list exactly as it was, and a degraded gate does not prune: only a
  probe whose write succeeded makes it healthy again.
\<close>

theorem maintenance_safe:
  "suppressions (gate_db (run_maintenance retention start ticks g)) = suppressions (gate_db g) \<and>
   (\<not> gate_healthy g \<longrightarrow> maintenance_tick retention (PruneTick now) g = g) \<and>
   (\<not> gate_healthy g \<longrightarrow> gate_healthy (maintenance_tick retention t g) \<longrightarrow>
      (\<exists>at. t = ProbeTick at \<and> fst (probe at (gate_db g)) = Inr ()))"
proof (intro conjI impI)
  have "suppressions (gate_db (maintenance_tick retention (ProbeTick start) g)) = suppressions (gate_db g)"
    by (rule maintenance_suppressions)
  then have "suppressions (gate_db (snd (probe_once start g))) = suppressions (gate_db g)"
    by (simp add: maintenance_tick_def)
  then show "suppressions (gate_db (run_maintenance retention start ticks g)) = suppressions (gate_db g)"
    unfolding run_maintenance_def
    by (rule foldl_keeps [where P = "\<lambda>g'. suppressions (gate_db g') = suppressions (gate_db g)"])
       (simp add: maintenance_suppressions)
next
  show "maintenance_tick retention (PruneTick now) g = g" if "\<not> gate_healthy g"
    using that by (simp add: maintenance_tick_def prune_tick_def)
next
  assume "\<not> gate_healthy g" "gate_healthy (maintenance_tick retention t g)"
  then show "\<exists>at. t = ProbeTick at \<and> fst (probe at (gate_db g)) = Inr ()"
    by (auto simp: maintenance_tick_def prune_tick_def probe_once_def on_db_def set_from_probe_def Let_def
        split: tick.splits prod.splits sum.splits if_splits)
qed

theorem maintenance_safe_witness:
  "maintenance_tick 5 (PruneTick 9) (report_error (new_gate demo_queued)) = report_error (new_gate demo_queued)"
  using maintenance_safe [of 5 0 "[]" "report_error (new_gate demo_queued)" 9 "PruneTick 9"]
  by (simp add: report_error_def)

text \<open>
  The durable idempotency rows. On a working engine, what \<open>PutIdempotent\<close> stored is what
  \<open>GetIdempotent\<close> returns until the expiry second and nothing afterwards, the last write
  wins, other keys and other endpoints are untouched, and pruning expired rows never changes
  what a lookup returns.
\<close>

theorem idempotent_rows_roundtrip:
  assumes "faults d = []"
  shows "get_idempotent k ep now (snd (put_idempotent k ep resp ex d)) =
      (Inr (if time_unix now < time_unix ex then Some resp else None), snd (put_idempotent k ep resp ex d)) \<and>
    (\<forall>k' ep'. (k', ep') \<noteq> (k, ep) \<longrightarrow>
      fst (get_idempotent k' ep' now (snd (put_idempotent k ep resp ex d))) = fst (get_idempotent k' ep' now d)) \<and>
    (distinct (map (\<lambda>r. (idem_key r, idem_endpoint r)) (idempotency d)) \<longrightarrow>
      fst (get_idempotent k ep now (snd (prune_idempotency now d))) = fst (get_idempotent k ep now d))"
proof -
  let ?hit = "\<lambda>k ep (r :: idem_row). idem_key r = k \<and> idem_endpoint r = ep"
  let ?row = "\<lparr>idem_key = k, idem_endpoint = ep, idem_status = ir_status resp,
       idem_content_type = ir_content_type resp, idem_body = ir_body resp, idem_expires = time_unix ex\<rparr>"
  let ?put = "\<lambda>rows. if list_ex (?hit k ep) rows then map (\<lambda>r. if ?hit k ep r then ?row else r) rows else rows @ [?row]"
  have put: "snd (put_idempotent k ep resp ex d) = d\<lparr>idempotency := ?put (idempotency d)\<rparr>"
    using assms by (simp add: put_idempotent_def exec_nofault Let_def)
  have hit: "find (?hit k ep) (?put rows) = Some ?row" for rows
  proof (cases "list_ex (?hit k ep) rows")
    case True then show ?thesis by (induction rows) auto
  next
    case False
    then have "find (?hit k ep) (rows @ [?row]) = Some ?row" by (induction rows) auto
    with False show ?thesis by simp
  qed
  have miss: "find (?hit k' ep') (?put rows) = find (?hit k' ep') rows" if "(k', ep') \<noteq> (k, ep)" for k' ep' rows
  proof -
    have "find (?hit k' ep') (map (\<lambda>r. if ?hit k ep r then ?row else r) rows) = find (?hit k' ep') rows"
      using that by (induction rows) auto
    moreover have "find (?hit k' ep') (rows @ [?row]) = find (?hit k' ep') rows"
      using that by (induction rows) auto
    ultimately show ?thesis by simp
  qed
  have prune: "(case find (?hit k ep) (filter (\<lambda>r. \<not> idem_expires r \<le> time_unix now) rows) of None \<Rightarrow> None
      | Some r \<Rightarrow> if time_unix now \<ge> idem_expires r then None else Some (g r)) =
     (case find (?hit k ep) rows of None \<Rightarrow> None
      | Some r \<Rightarrow> if time_unix now \<ge> idem_expires r then None else Some (g r))"
    if "distinct (map (\<lambda>r. (idem_key r, idem_endpoint r)) rows)" for rows and g :: "idem_row \<Rightarrow> idem_response"
    using that
  proof (induction rows)
    case (Cons r rows)
    have none: "find (?hit k ep) (filter (\<lambda>r. \<not> idem_expires r \<le> time_unix now) rows) = None" if "?hit k ep r"
      using that Cons.prems by (auto simp: find_None_iff image_iff)
    show ?case using Cons none by auto
  qed simp
  have gone: "get_idempotent k ep now (snd (prune_idempotency now d)) =
    (Inr (case find (?hit k ep) (filter (\<lambda>r. \<not> idem_expires r \<le> time_unix now) (idempotency d)) of None \<Rightarrow> None
      | Some r \<Rightarrow> if time_unix now \<ge> idem_expires r then None
          else Some \<lparr>ir_status = idem_status r, ir_content_type = idem_content_type r, ir_body = idem_body r\<rparr>),
     snd (prune_idempotency now d))"
    using assms by (simp add: get_idempotent_def prune_idempotency_def query_nofault stmt_nofault)
  show ?thesis
  proof (intro conjI impI allI)
    show "get_idempotent k ep now (snd (put_idempotent k ep resp ex d)) =
      (Inr (if time_unix now < time_unix ex then Some resp else None), snd (put_idempotent k ep resp ex d))"
      using assms unfolding put by (simp add: get_idempotent_def query_nofault hit not_le)
  next
    fix k' ep' assume "(k', ep') \<noteq> (k, ep)"
    then show "fst (get_idempotent k' ep' now (snd (put_idempotent k ep resp ex d))) = fst (get_idempotent k' ep' now d)"
      using assms unfolding put by (simp only: get_idempotent_def) (simp add: query_nofault miss)
  next
    assume "distinct (map (\<lambda>r. (idem_key r, idem_endpoint r)) (idempotency d))"
    then show "fst (get_idempotent k ep now (snd (prune_idempotency now d))) = fst (get_idempotent k ep now d)"
      unfolding gone fst_conv using assms
      by (simp only: get_idempotent_def query_nofault fst_conv prune
          [of _ "\<lambda>r. \<lparr>ir_status = idem_status r, ir_content_type = idem_content_type r, ir_body = idem_body r\<rparr>"])
  qed
qed

definition demo_response :: idem_response where
  "demo_response = \<lparr>ir_status = 200, ir_content_type = ''application/json'', ir_body = ''{}''\<rparr>"

theorem idempotent_rows_roundtrip_witness:
  "fst (get_idempotent ''k'' ''/c'' 0 (snd (put_idempotent ''k'' ''/c'' demo_response (24 * hour) (empty_db [])))) = Inr (Some demo_response)"
  using idempotent_rows_roundtrip [of "empty_db []" "''k''" "''/c''" 0 demo_response "24 * hour"]
  by (simp add: empty_db_def time_unix_def time_defs)

end
