(* ===== verification/Retry_Worker.thy ===== *)
theory Retry_Worker
  imports Storage_Lists
begin

text \<open>
  \<open>core/storage/worker.go\<close>: the background worker that replays queued submissions through
  the transports. The state of a poll is the database and the \<open>net\<close> of providers; the
  endpoint's transport is chosen by the message's recorded endpoint (\<open>send\<close> gets both).
  Observation hooks are the list of events they are called with.
\<close>

section \<open>Configuration\<close>

record worker =
  w_interval :: duration
  w_batch_size :: int

definition worker_interval :: "worker \<Rightarrow> duration" where
  "worker_interval w = (if w_interval w \<le> 0 then 30 * second else w_interval w)"

definition worker_batch :: "worker \<Rightarrow> int" where
  "worker_batch w = (if w_batch_size w \<le> 0 then 10 else w_batch_size w)"

section \<open>One poll\<close>

datatype hook = OnSent string | OnRetryAgain string | OnDeadLetter string

text \<open>\<open>SendFunc\<close>: the outcome of the \<open>k\<close>-th background send, for an endpoint and a message.\<close>

record bg =
  bg_db :: db
  bg_send :: "nat \<Rightarrow> string \<Rightarrow> message \<Rightarrow> send_outcome"
  bg_sent :: "(string \<times> message) list"
  bg_hooks :: "hook list"

definition replay_message :: "submission \<Rightarrow> message" where
  "replay_message s = \<lparr>msg_from = sub_from s, msg_to = sub_to s, msg_reply_to = sub_reply_to s,
     msg_subject = sub_subject s, msg_body_text = sub_body_text s, msg_body_html = sub_body_html s,
     msg_submission_id = sub_id s, msg_fields = sub_fields s, msg_attachments = sub_attachments s,
     msg_headers = sub_headers s\<rparr>"

definition bg_call :: "string \<Rightarrow> message \<Rightarrow> bg \<Rightarrow> send_outcome \<times> bg" where
  "bg_call endpoint m b =
     (bg_send b (length (bg_sent b)) endpoint m, b\<lparr>bg_sent := bg_sent b @ [(endpoint, m)]\<rparr>)"

definition hook_call :: "hook \<Rightarrow> bg \<Rightarrow> bg" where
  "hook_call h b = b\<lparr>bg_hooks := bg_hooks b @ [h]\<rparr>"

definition on_bg :: "'a store_op \<Rightarrow> bg \<Rightarrow> 'a result \<times> bg" where
  "on_bg f b = (case f (bg_db b) of (r, d) \<Rightarrow> (r, b\<lparr>bg_db := d\<rparr>))"

fun is_terminal :: "send_error \<Rightarrow> bool" where
  "is_terminal (TransportErr e) \<longleftrightarrow> te_class e \<noteq> ErrTransient \<and> te_class e \<noteq> ErrRateLimited"
| "is_terminal (BareErr s) \<longleftrightarrow> True"

definition attempt :: "instant \<Rightarrow> due_retry \<Rightarrow> bg \<Rightarrow> bg" where
  "attempt now entry b =
     (let s = fst entry;
          (res, b1) = bg_call (sub_endpoint s) (replay_message s) b
      in case res of
           Inr message_id \<Rightarrow>
             hook_call (OnSent (sub_endpoint s)) (snd (on_bg (mark_sent (sub_id s) message_id now) b1))
         | Inl err \<Rightarrow>
             if is_terminal err then
               hook_call (OnDeadLetter (sub_endpoint s)) (snd (on_bg (dead_letter (sub_id s) (send_error_string err)) b1))
             else
               (case on_bg (record_retry_failure (sub_id s) (send_error_string err) now) b1 of
                  (Inl _, b2) \<Rightarrow> b2
                | (Inr dead, b2) \<Rightarrow>
                    hook_call (if dead then OnDeadLetter (sub_endpoint s) else OnRetryAgain (sub_endpoint s)) b2))"

text \<open>
  \<open>cancelled k\<close> is what \<open>ctx.Err()\<close> says before the \<open>k\<close>-th entry of the batch. A partial
  claim is attempted, an empty one is not.
\<close>

fun attempt_each :: "(nat \<Rightarrow> bool) \<Rightarrow> nat \<Rightarrow> instant \<Rightarrow> due_retry list \<Rightarrow> bg \<Rightarrow> bg" where
  "attempt_each cancelled k now [] b = b"
| "attempt_each cancelled k now (entry # due) b =
     (if cancelled k then b else attempt_each cancelled (Suc k) now due (attempt now entry b))"

definition process_due :: "worker \<Rightarrow> (nat \<Rightarrow> bool) \<Rightarrow> instant \<Rightarrow> bg \<Rightarrow> bg" where
  "process_due w cancelled now b =
     (let ((due, err), d) = claim_due now (worker_batch w) (bg_db b);
          b1 = b\<lparr>bg_db := d\<rparr>
      in if err \<noteq> None \<and> due = [] then b1 else attempt_each cancelled 0 now due b1)"

text \<open>\<open>Run\<close>: a poll at each time at which the timer fired before the context ended.\<close>

fun run_worker :: "worker \<Rightarrow> instant list \<Rightarrow> bg \<Rightarrow> bg" where
  "run_worker w [] b = b"
| "run_worker w (now # ticks) b = run_worker w ticks (process_due w (\<lambda>_. False) now b)"

section \<open>The attempts left\<close>

text \<open>How many more background sends the queue holds for a submission.\<close>

definition budget :: "db \<Rightarrow> string \<Rightarrow> nat" where
  "budget d i = (case find (\<lambda>r. q_id r = i) (retry_queue d) of None \<Rightarrow> 0 | Some r \<Rightarrow> max_attempts - q_attempt r)"

definition sends_of :: "string \<Rightarrow> bg \<Rightarrow> nat" where
  "sends_of i b = length (filter (\<lambda>(e, m). msg_submission_id m = i) (bg_sent b))"

definition working :: "db \<Rightarrow> bool" where
  "working d \<longleftrightarrow> store_inv d \<and> faults d = []"

lemma find_filter_other: "find (\<lambda>r. q_id r = j) (filter (\<lambda>r. q_id r \<noteq> i) q) = (if i = j then None else find (\<lambda>r. q_id r = j) q)"
  by (induction q) auto

lemma find_map_same:
  "(\<And>r. q_id (f r) = q_id r) \<Longrightarrow>
   find (\<lambda>r. q_id r = j) (map (\<lambda>r. if q_id r = i then f r else r) q) =
     (if i = j then map_option f (find (\<lambda>r. q_id r = j) q) else find (\<lambda>r. q_id r = j) q)"
  by (induction q) auto

lemma budget_finish: "budget (delete_queue i (update_sub i f d)) j = (if i = j then 0 else budget d j)"
  by (simp add: budget_def delete_queue_def update_sub_def find_filter_other)

lemma budget_pos: "store_inv d \<Longrightarrow> in_queue d i \<Longrightarrow> 0 < budget d i"
proof -
  assume inv: "store_inv d" and "in_queue d i"
  then obtain r where r: "r \<in> set (retry_queue d)" "q_id r = i" by (auto simp: in_queue_def)
  then have "find (\<lambda>x. q_id x = i) (retry_queue d) = Some r"
    using inv find_key [of q_id "retry_queue d" r] by (auto simp: store_inv_def tables_ok_def)
  with inv r show ?thesis by (auto simp: budget_def store_inv_def tables_ok_def)
qed

text \<open>\<open>spends d d' i\<close>: the step from \<open>d\<close> to \<open>d'\<close> costs \<open>i\<close> at least one attempt and no other anything.\<close>

definition spends :: "db \<Rightarrow> db \<Rightarrow> string \<Rightarrow> bool" where
  "spends d d' i \<longleftrightarrow> working d' \<and> budget d' i < budget d i \<and>
     (\<forall>j. j \<noteq> i \<longrightarrow> budget d' j = budget d j \<and> in_queue d' j = in_queue d j)"

lemma in_queue_finish: "in_queue (delete_queue i (update_sub i f d)) j \<longleftrightarrow> in_queue d j \<and> i \<noteq> j"
  by (auto simp: in_queue_def delete_queue_def update_sub_def)

lemma faults_finish: "faults (delete_queue i (update_sub i f d)) = faults d"
  by (simp add: delete_queue_def update_sub_def)

lemma spends_sent: "working d \<Longrightarrow> in_queue d i \<Longrightarrow> spends d (snd (mark_sent i m at d)) i"
  using mark_sent_inv [of d i m at] budget_pos [of d i]
  by (auto simp: working_def spends_def mark_sent_nofault budget_finish in_queue_finish faults_finish)

lemma spends_dead: "working d \<Longrightarrow> in_queue d i \<Longrightarrow> spends d (snd (dead_letter i e d)) i"
  using dead_letter_inv [of d i e] budget_pos [of d i]
  by (auto simp: working_def spends_def dead_letter_nofault budget_finish in_queue_finish faults_finish)

lemma spends_retry:
  assumes "working d" "in_queue d i"
  shows "spends d (snd (record_retry_failure i e now d)) i"
    "\<exists>dead. fst (record_retry_failure i e now d) = Inr dead"
proof -
  from assms obtain r where r: "r \<in> set (retry_queue d)" "q_id r = i" by (auto simp: in_queue_def)
  have inv: "store_inv d" and nf: "faults d = []" using assms(1) by (auto simp: working_def)
  have f: "find (\<lambda>x. q_id x = i) (retry_queue d) = Some r"
    using inv r find_key [of q_id "retry_queue d" r] by (auto simp: store_inv_def tables_ok_def)
  have lt: "q_attempt r < 5" using inv r by (auto simp: store_inv_def tables_ok_def)
  note run = retry_failure_nofault [OF inv nf r(1), of e now, unfolded r(2)]
  show "\<exists>dead. fst (record_retry_failure i e now d) = Inr dead" unfolding run by (cases "q_attempt r = 4") auto
  have inv': "store_inv (snd (record_retry_failure i e now d))" by (rule record_retry_failure_inv [OF inv])
  show "spends d (snd (record_retry_failure i e now d)) i"
  proof (cases "q_attempt r = 4")
    case True
    then have eq: "snd (record_retry_failure i e now d) =
        delete_queue i (update_sub i (\<lambda>s. s\<lparr>sub_status := StFailed, sub_last_error := e\<rparr>) d)"
      unfolding run by (simp add: delete_queue_def update_sub_def)
    show ?thesis using inv' nf budget_pos [OF inv assms(2)] unfolding eq
      by (auto simp: spends_def working_def budget_finish in_queue_finish faults_finish)
  next
    case False
    let ?f = "\<lambda>x. x\<lparr>q_attempt := Suc (q_attempt r), q_next := time_unix (now + 4 ^ Suc (q_attempt r) * minute)\<rparr>"
    let ?d' = "snd (record_retry_failure i e now d)"
    have q': "retry_queue ?d' = map (\<lambda>x. if q_id x = i then ?f x else x) (retry_queue d)" "faults ?d' = []"
      using False nf unfolding run by (simp_all add: update_sub_def)
    have "budget ?d' j = (if i = j then 4 - q_attempt r else budget d j)" for j
      using f by (auto simp: budget_def q' find_map_same)
    moreover have "budget d i = 5 - q_attempt r" using f by (simp add: budget_def)
    moreover have "in_queue ?d' j = in_queue d j" for j
      by (force simp: in_queue_def q'(1))
    ultimately show ?thesis using inv' q'(2) lt by (auto simp: spends_def working_def)
  qed
qed

lemma attempt_effect:
  assumes w: "working (bg_db b)" and q: "in_queue (bg_db b) (sub_id (fst entry))"
  shows "spends (bg_db b) (bg_db (attempt now entry b)) (sub_id (fst entry))"
    "bg_sent (attempt now entry b) = bg_sent b @ [(sub_endpoint (fst entry), replay_message (fst entry))]"
proof -
  let ?s = "fst entry"
  let ?res = "bg_send b (length (bg_sent b)) (sub_endpoint ?s) (replay_message ?s)"
  have "spends (bg_db b) (bg_db (attempt now entry b)) (sub_id ?s) \<and>
    bg_sent (attempt now entry b) = bg_sent b @ [(sub_endpoint ?s, replay_message ?s)]"
  proof (cases ?res)
    case (Inr mid)
    with spends_sent [OF w q, of mid now] show ?thesis
      by (simp add: attempt_def bg_call_def on_bg_def hook_call_def Let_def case_prod_unfold)
  next
    case (Inl err)
    show ?thesis
    proof (cases "is_terminal err")
      case True
      with Inl spends_dead [OF w q, of "send_error_string err"] show ?thesis
        by (simp add: attempt_def bg_call_def on_bg_def hook_call_def Let_def case_prod_unfold)
    next
      case False
      obtain dead d' where "record_retry_failure (sub_id ?s) (send_error_string err) now (bg_db b) = (Inr dead, d')"
        using spends_retry(2) [OF w q, of "send_error_string err" now] by (metis prod.collapse)
      with False Inl spends_retry(1) [OF w q, of "send_error_string err" now] show ?thesis
        by (simp add: attempt_def bg_call_def on_bg_def hook_call_def Let_def)
    qed
  qed
  then show "spends (bg_db b) (bg_db (attempt now entry b)) (sub_id ?s)"
    "bg_sent (attempt now entry b) = bg_sent b @ [(sub_endpoint ?s, replay_message ?s)]" by blast+
qed

section \<open>A whole poll\<close>

lemma attempt_send [simp]: "bg_send (attempt now entry b) = bg_send b"
  by (auto simp: attempt_def bg_call_def on_bg_def hook_call_def Let_def split: sum.splits prod.splits)

lemma claim_each_nofault:
  assumes "working d" "\<forall>e \<in> set es. in_queue d (q_id e)"
  shows "\<exists>due d'. claim_each es d = ((due, None), d') \<and> working d' \<and> retry_queue d' = retry_queue d \<and>
    map (\<lambda>x. sub_id (fst x)) due = map q_id es"
  using assms
proof (induction es arbitrary: d)
  case (Cons e es)
  have nf: "faults d = []" and inv: "store_inv d" using Cons.prems(1) by (auto simp: working_def)
  have "in_queue d (q_id e)" using Cons.prems(2) by simp
  then have "q_id e \<in> sub_id ` set (submissions d)"
    using inv unfolding store_inv_def tables_ok_def in_queue_def by auto
  then have "find (\<lambda>s. sub_id s = q_id e) (submissions d) \<noteq> None"
    unfolding find_None_iff by auto
  then obtain s where s: "find (\<lambda>s. sub_id s = q_id e) (submissions d) = Some s" by blast
  have si: "sub_id s = q_id e" using find_SomeD [OF s] by blast
  let ?d = "snd (mark_status (q_id e) StSending (sub_last_error s) d)"
  have ms: "mark_status (q_id e) StSending (sub_last_error s) d = (Inr (), ?d)"
    using nf by (simp add: mark_status_def exec_nofault)
  have "store_inv ?d" using inv by (intro mark_status_inv) auto
  then have w: "working ?d" using nf by (simp add: working_def mark_status_def exec_nofault update_sub_def)
  have q: "retry_queue ?d = retry_queue d" by (rule mark_status_queue)
  with Cons.prems(2) have "\<forall>e \<in> set es. in_queue ?d (q_id e)" by (simp add: in_queue_def)
  then obtain due d' where IH: "claim_each es ?d = ((due, None), d')" "working d'" "retry_queue d' = retry_queue ?d"
    "map (\<lambda>x. sub_id (fst x)) due = map q_id es" using Cons.IH [OF w] by blast
  have g: "get_submission (q_id e) d = (Inr (Some s), d)"
    using nf s by (simp add: get_submission_def query_nofault)
  have "claim_each (e # es) d = (((s\<lparr>sub_status := StSending\<rparr>, q_attempt e) # due, None), d')"
    unfolding claim_each.simps(2) g prod.case sum.case option.case by (subst ms) (simp add: IH(1))
  with IH(2-4) q si show ?case by simp
qed simp

lemma set_due_rows: "set (due_rows now limit d) \<subseteq> set (retry_queue d)"
  by (auto simp: due_rows_def sql_limit_def dest: in_set_takeD)

lemma distinct_due_rows: "distinct (map q_id (retry_queue d)) \<Longrightarrow> distinct (map q_id (due_rows now limit d))"
proof -
  assume "distinct (map q_id (retry_queue d))"
  then have d: "distinct (map q_id (filter p (retry_queue d)))" for p by (simp add: distinct_map_filter)
  have "distinct (sort_key q_next (filter (\<lambda>q. q_next q \<le> now) (retry_queue d)))"
    using d distinct_map by auto
  moreover have "inj_on q_id (set (sort_key q_next (filter (\<lambda>q. q_next q \<le> now) (retry_queue d))))"
    using d [of "\<lambda>q. q_next q \<le> now"] by (simp only: distinct_map set_sort)
  ultimately have "distinct (map q_id (sort_key q_next (filter (\<lambda>q. q_next q \<le> now) (retry_queue d))))"
    by (simp only: distinct_map)
  then show ?thesis by (simp add: due_rows_def sql_limit_def distinct_take take_map [symmetric])
qed

lemma attempt_each_spends:
  assumes "working (bg_db b)" "distinct (map (\<lambda>x. sub_id (fst x)) due)"
    "\<forall>x \<in> set due. in_queue (bg_db b) (sub_id (fst x))"
  shows "working (bg_db (attempt_each cancelled k now due b)) \<and>
    sends_of i b \<le> sends_of i (attempt_each cancelled k now due b) \<and>
    sends_of i (attempt_each cancelled k now due b) + budget (bg_db (attempt_each cancelled k now due b)) i
      \<le> sends_of i b + budget (bg_db b) i \<and>
    ((\<forall>j. \<not> cancelled j) \<longrightarrow> i \<in> set (map (\<lambda>x. sub_id (fst x)) due) \<longrightarrow>
      budget (bg_db (attempt_each cancelled k now due b)) i < budget (bg_db b) i)"
  using assms
proof (induction due arbitrary: b k)
  case (Cons x due)
  let ?b = "attempt now x b" and ?j = "sub_id (fst x)"
  have w: "working (bg_db b)" and q: "in_queue (bg_db b) ?j" using Cons.prems by auto
  have sp: "spends (bg_db b) (bg_db ?b) ?j"
    and st: "bg_sent ?b = bg_sent b @ [(sub_endpoint (fst x), replay_message (fst x))]"
    by (rule attempt_effect [OF w q])+
  have w1: "working (bg_db ?b)" using sp by (simp add: spends_def)
  have sends: "sends_of i ?b = sends_of i b + (if i = ?j then 1 else 0)"
    by (simp add: sends_of_def st replay_message_def)
  have "\<forall>y \<in> set due. in_queue (bg_db ?b) (sub_id (fst y))"
  proof
    fix y assume y: "y \<in> set due"
    then have "sub_id (fst y) \<noteq> ?j" using Cons.prems(2) by (auto simp: image_iff)
    moreover have "in_queue (bg_db b) (sub_id (fst y))" using Cons.prems(3) y by simp
    ultimately show "in_queue (bg_db ?b) (sub_id (fst y))" using sp by (simp add: spends_def)
  qed
  then have IH: "working (bg_db (attempt_each cancelled (Suc k) now due ?b)) \<and>
    sends_of i ?b \<le> sends_of i (attempt_each cancelled (Suc k) now due ?b) \<and>
    sends_of i (attempt_each cancelled (Suc k) now due ?b) + budget (bg_db (attempt_each cancelled (Suc k) now due ?b)) i
      \<le> sends_of i ?b + budget (bg_db ?b) i \<and>
    ((\<forall>j. \<not> cancelled j) \<longrightarrow> i \<in> set (map (\<lambda>x. sub_id (fst x)) due) \<longrightarrow>
      budget (bg_db (attempt_each cancelled (Suc k) now due ?b)) i < budget (bg_db ?b) i)"
    using Cons.prems(2) by (intro Cons.IH w1) simp_all
  let ?c = "attempt_each cancelled (Suc k) now due ?b"
  have one: "sends_of i ?b + budget (bg_db ?b) i \<le> sends_of i b + budget (bg_db b) i"
    "budget (bg_db ?b) i \<le> budget (bg_db b) i" "i = ?j \<Longrightarrow> budget (bg_db ?b) i < budget (bg_db b) i"
    "sends_of i b \<le> sends_of i ?b"
    using sp sends by (cases "i = ?j"; auto simp: spends_def)+
  have rest: "sends_of i ?b \<le> sends_of i ?c" "sends_of i ?c + budget (bg_db ?c) i \<le> sends_of i ?b + budget (bg_db ?b) i"
    "(\<forall>j. \<not> cancelled j) \<Longrightarrow> i \<in> set (map (\<lambda>x. sub_id (fst x)) due) \<Longrightarrow> budget (bg_db ?c) i < budget (bg_db ?b) i"
    using IH by blast+
  show ?case
  proof (cases "cancelled k")
    case True
    then show ?thesis using w by auto
  next
    case False
    then have c: "attempt_each cancelled k now (x # due) b = ?c" by simp
    have "budget (bg_db ?c) i \<le> budget (bg_db ?b) i" using rest by linarith
    then have "i = ?j \<or> i \<in> set (map (\<lambda>x. sub_id (fst x)) due) \<Longrightarrow> (\<forall>j. \<not> cancelled j) \<Longrightarrow>
        budget (bg_db ?c) i < budget (bg_db b) i"
      using one(2,3) rest(3) by fastforce
    moreover have "sends_of i b \<le> sends_of i ?c" "sends_of i ?c + budget (bg_db ?c) i \<le> sends_of i b + budget (bg_db b) i"
      using one rest by linarith+
    ultimately show ?thesis unfolding c using IH by auto
  qed
qed simp

lemma process_due_spends:
  assumes "working (bg_db b)"
  shows "working (bg_db (process_due w cancelled now b)) \<and>
    sends_of i (process_due w cancelled now b) + budget (bg_db (process_due w cancelled now b)) i
      \<le> sends_of i b + budget (bg_db b) i \<and>
    ((\<forall>j. \<not> cancelled j) \<longrightarrow> i \<in> set (map q_id (due_rows (time_unix now) (worker_batch w) (bg_db b))) \<longrightarrow>
      budget (bg_db (process_due w cancelled now b)) i < budget (bg_db b) i)"
proof -
  let ?es = "due_rows (time_unix now) (worker_batch w) (bg_db b)"
  have inv: "store_inv (bg_db b)" and nf: "faults (bg_db b) = []" using assms by (auto simp: working_def)
  have "\<forall>e \<in> set ?es. in_queue (bg_db b) (q_id e)"
    using set_due_rows by (fastforce simp: in_queue_def)
  then obtain due d' where c: "claim_each ?es (bg_db b) = ((due, None), d')" "working d'"
    "retry_queue d' = retry_queue (bg_db b)" "map (\<lambda>x. sub_id (fst x)) due = map q_id ?es"
    using claim_each_nofault [OF assms] by blast
  then have cd: "claim_due now (worker_batch w) (bg_db b) = ((due, None), d')"
    using nf by (simp add: claim_due_def query_nofault)
  let ?b = "b\<lparr>bg_db := d'\<rparr>"
  have eq: "process_due w cancelled now b = attempt_each cancelled 0 now due ?b"
    by (simp add: process_due_def cd)
  have q: "\<forall>x \<in> set due. in_queue (bg_db ?b) (sub_id (fst x))"
  proof
    fix x assume "x \<in> set due"
    then have "sub_id (fst x) \<in> set (map q_id ?es)" using c(4) by (metis (mono_tags, lifting) image_eqI list.set_map)
    then show "in_queue (bg_db ?b) (sub_id (fst x))"
      using set_due_rows [of "time_unix now" "worker_batch w" "bg_db b"] c(3) by (auto simp: in_queue_def)
  qed
  have "distinct (map q_id (retry_queue (bg_db b)))" using inv by (simp add: store_inv_def tables_ok_def)
  then have "distinct (map (\<lambda>x. sub_id (fst x)) due)" unfolding c(4) by (rule distinct_due_rows)
  from attempt_each_spends [OF _ this q, of cancelled 0 now i] c(2) have
    "working (bg_db (attempt_each cancelled 0 now due ?b)) \<and>
     sends_of i (attempt_each cancelled 0 now due ?b) + budget (bg_db (attempt_each cancelled 0 now due ?b)) i
      \<le> sends_of i ?b + budget d' i \<and>
    ((\<forall>j. \<not> cancelled j) \<longrightarrow> i \<in> set (map q_id ?es) \<longrightarrow>
      budget (bg_db (attempt_each cancelled 0 now due ?b)) i < budget d' i)"
    unfolding c(4) by simp
  moreover have "budget d' i = budget (bg_db b) i" "sends_of i ?b = sends_of i b"
    by (simp_all add: budget_def c(3) sends_of_def)
  ultimately show ?thesis unfolding eq by simp
qed

lemma run_worker_spends:
  "working (bg_db b) \<Longrightarrow> working (bg_db (run_worker w ticks b)) \<and>
    sends_of i (run_worker w ticks b) + budget (bg_db (run_worker w ticks b)) i \<le> sends_of i b + budget (bg_db b) i"
proof (induction ticks arbitrary: b)
  case (Cons now ticks)
  from process_due_spends [OF Cons.prems, of w "\<lambda>_. False" now i] Cons.IH [of "process_due w (\<lambda>_. False) now b"]
  show ?case by auto
qed simp

lemma budget_le: "budget d i \<le> 5"
  by (auto simp: budget_def split: option.splits)

section \<open>Properties\<close>


definition demo_bg :: bg where
  "demo_bg = \<lparr>bg_db = demo_queued, bg_send = (\<lambda>_ _ _. Inl (TransportErr \<lparr>te_class = ErrTransient, te_status = 503,
     te_cause = None, te_message = ''down''\<rparr>)), bg_sent = [], bg_hooks = []\<rparr>"




text \<open>
  How a background send is classified. The submission is replayed with all its recorded
  content under its own id. Success marks it \<open>sent\<close> with the provider's id; an error that is
  neither transient nor rate-limited, or not a transport error at all, dead-letters it at
  once; a retryable error goes to the ladder.
\<close>

theorem attempt_classifies:
  "bg_db (attempt now (s, a) b) =
    (case bg_send b (length (bg_sent b)) (sub_endpoint s) (replay_message s) of
       Inr mid \<Rightarrow> snd (mark_sent (sub_id s) mid now (bg_db b))
     | Inl e \<Rightarrow> if is_retryable e then snd (record_retry_failure (sub_id s) (send_error_string e) now (bg_db b))
         else snd (dead_letter (sub_id s) (send_error_string e) (bg_db b))) \<and>
   bg_sent (attempt now (s, a) b) = bg_sent b @ [(sub_endpoint s, replay_message s)]"
proof -
  have t: "is_terminal e = (\<not> is_retryable e)" for e by (cases e) auto
  show ?thesis
    by (auto simp: attempt_def bg_call_def on_bg_def hook_call_def t Let_def split: sum.splits prod.splits)
qed

end
