(* ===== verification/Gate_Calls.thy ===== *)
theory Gate_Calls
  imports Retry_Worker
begin

text \<open>
  How the two ingresses use the store behind its gate: the suppression filter, calls whose
  error only marks the gate degraded, and what such a call can and cannot change.
\<close>

section \<open>The suppression filter\<close>

text \<open>One suppression lookup per recipient; a failed lookup lets the recipient through.\<close>

fun filter_each :: "(string \<Rightarrow> string) \<Rightarrow> string list \<Rightarrow> gate \<Rightarrow> string list \<times> (string \<times> string) list \<times> gate" where
  "filter_each lower [] g = ([], [], g)"
| "filter_each lower (addr # to) g =
     (case on_db (suppression_for lower addr) g of
        (Inl _, g1) \<Rightarrow>
          (case filter_each lower to (report_error g1) of (rs, ss, g2) \<Rightarrow> (addr # rs, ss, g2))
      | (Inr (Some row), g1) \<Rightarrow>
          (case filter_each lower to g1 of (rs, ss, g2) \<Rightarrow> (rs, (addr, sup_reason row) # ss, g2))
      | (Inr None, g1) \<Rightarrow>
          (case filter_each lower to g1 of (rs, ss, g2) \<Rightarrow> (addr # rs, ss, g2)))"

definition filter_suppressed :: "(string \<Rightarrow> string) \<Rightarrow> string list \<Rightarrow> gate option \<Rightarrow>
    string list \<times> (string \<times> string) list \<times> gate option" where
  "filter_suppressed lower to go =
     (case go of
        None \<Rightarrow> (to, [], None)
      | Some g \<Rightarrow>
          if \<not> gate_healthy g then (to, [], Some g)
          else (case filter_each lower to g of (rs, ss, g1) \<Rightarrow> (rs, ss, Some g1)))"

text \<open>A store call whose error goes to the gate, for call sites that only care about the effect.\<close>

definition store_or_report :: "'a store_op \<Rightarrow> gate \<Rightarrow> bool \<times> gate" where
  "store_or_report f g =
     (case on_db f g of (Inl _, g1) \<Rightarrow> (False, report_error g1) | (Inr _, g1) \<Rightarrow> (True, g1))"

definition try_store :: "'a store_op \<Rightarrow> gate option \<Rightarrow> bool \<times> gate option" where
  "try_store f go =
     (case go of
        None \<Rightarrow> (False, None)
      | Some g \<Rightarrow> (case store_or_report f g of (done, g1) \<Rightarrow> (done, Some g1)))"


definition gate_up :: "gate option \<Rightarrow> bool" where
  "gate_up go = (case go of None \<Rightarrow> False | Some g \<Rightarrow> gate_healthy g)"

section \<open>Lemmas\<close>

lemma filter_each_subset:
  "filter_each lower to g = (rs, ss, g1) \<Longrightarrow> set rs \<subseteq> set to \<and> length rs \<le> length to"
proof (induction lower to g arbitrary: rs ss g1 rule: filter_each.induct)
  case (2 lower addr to g)
  then show ?case
    by (auto split: prod.splits sum.splits option.splits; fastforce)
qed simp

lemma filter_suppressed_subset:
  "filter_suppressed lower to go = (rs, ss, g1) \<Longrightarrow> set rs \<subseteq> set to \<and> length rs \<le> length to"
  using filter_each_subset by (auto simp: filter_suppressed_def split: option.splits if_splits prod.splits)


text \<open>What the store's writes do to the retry queue.\<close>

lemma in_tx_queue:
  assumes "\<And>fs x d1. body (d\<lparr>faults := fs\<rparr>) = (Inr x, d1) \<Longrightarrow> retry_queue d1 = retry_queue d"
  shows "retry_queue (snd (in_tx body d)) = retry_queue d"
  by (rule in_tx_keeps [where P = "\<lambda>d'. retry_queue d' = retry_queue d"]) (use assms in auto)

lemma record_submission_queue [simp]: "retry_queue (snd (record_submission x d)) = retry_queue d"
  by (cases rule: stmt_cases [of "\<lambda>d. if has_sub d (sub_id x) then (Err ''storage: record submission: UNIQUE constraint failed'', d)
     else (Ok (), d\<lparr>submissions := submissions d @ [x]\<rparr>)" d]) (auto simp: record_submission_def)

lemma enqueue_ok: "enqueue i now d = (Inr u, d1) \<Longrightarrow> in_queue d1 i"
  unfolding enqueue_def in_tx_def
  by (auto elim!: op_InrEs simp: done_op_def in_queue_def update_sub_def split: prod.splits sum.splits if_splits)

lemma enqueue_error: "enqueue i now d = (Inl e, d1) \<Longrightarrow> retry_queue d1 = retry_queue d"
  unfolding enqueue_def in_tx_def by (auto split: prod.splits sum.splits)

definition gate_queue :: "gate option \<Rightarrow> queue_row list" where
  "gate_queue go = (case go of None \<Rightarrow> [] | Some g \<Rightarrow> retry_queue (gate_db g))"

lemma try_store_queue:
  "(\<And>d. retry_queue (snd (f d)) = retry_queue d) \<Longrightarrow> gate_queue (snd (try_store f go)) = gate_queue go"
  by (auto simp: try_store_def store_or_report_def on_db_def gate_queue_def report_error_def
      split: option.splits prod.splits sum.splits; metis snd_conv)

lemma try_enqueue:
  assumes "try_store (enqueue i now) go = (b, go')"
  shows "b \<Longrightarrow> i \<in> set (map q_id (gate_queue go'))" "\<not> b \<Longrightarrow> gate_queue go' = gate_queue go"
  using assms enqueue_ok enqueue_error
  by (auto simp: try_store_def store_or_report_def on_db_def gate_queue_def report_error_def in_queue_def
      split: option.splits prod.splits sum.splits; fastforce)+

end
