(* ===== verification/Idempotency.thy ===== *)
theory Idempotency
  imports LRU_Cache Storage_Lists
begin

text \<open>
  \<open>core/idempotency\<close>: the in-memory \<open>Cache\<close>, the storage-backed \<open>Durable\<close> and the \<open>Cacher\<close>
  contract the gateway drives them through. Each method runs under the instance's mutex and
  is one step here, except \<open>Durable.ClaimInFlight\<close>, whose stored-response check runs outside
  the mutex: its two halves are separate steps and \<open>durable_claim\<close> is their composition.
  The clock is an argument.
\<close>

section \<open>Keys\<close>

datatype key_error = KeyEmpty | KeyTooLong nat | KeyByte char nat

definition max_key_length :: nat where
  "max_key_length = 255"

fun key_bytes :: "nat \<Rightarrow> string \<Rightarrow> key_error option" where
  "key_bytes i [] = None"
| "key_bytes i (c # s) = (if byte c < 32 \<or> byte c > 126 then Some (KeyByte c i) else key_bytes (Suc i) s)"

definition validate_key :: "string \<Rightarrow> key_error option" where
  "validate_key key =
     (if length key < 1 then Some KeyEmpty
      else if length key > max_key_length then Some (KeyTooLong (length key))
      else key_bytes 0 key)"

section \<open>The contract\<close>

record 's cacher_ops =
  c_lookup :: "'s \<Rightarrow> string \<Rightarrow> instant \<Rightarrow> (idem_response option \<times> bool) \<times> 's"
  c_claim :: "'s \<Rightarrow> string \<Rightarrow> instant \<Rightarrow> bool \<times> 's"
  c_store :: "'s \<Rightarrow> string \<Rightarrow> idem_response \<Rightarrow> instant \<Rightarrow> 's"
  c_abandon :: "'s \<Rightarrow> string \<Rightarrow> 's"

text \<open>
  What both backends promise about claims. \<open>held\<close> is the set of claimed keys.
\<close>

locale cacher =
  fixes C :: "'s cacher_ops"
    and ok :: "'s \<Rightarrow> bool"
    and held :: "'s \<Rightarrow> string set"
  assumes ok_lookup: "ok s \<Longrightarrow> ok (snd (c_lookup C s k t))"
    and ok_claim: "ok s \<Longrightarrow> ok (snd (c_claim C s k t))"
    and ok_store: "ok s \<Longrightarrow> ok (c_store C s k r t)"
    and ok_abandon: "ok s \<Longrightarrow> ok (c_abandon C s k)"
    and lookup_held: "ok s \<Longrightarrow> held (snd (c_lookup C s k t)) = held s"
    and lookup_shape: "ok s \<Longrightarrow> snd (fst (c_lookup C s k t)) = (k \<in> held s)"
    and lookup_excl: "ok s \<Longrightarrow> k \<in> held s \<Longrightarrow> fst (fst (c_lookup C s k t)) = None"
    and claim_held: "ok s \<Longrightarrow> held (snd (c_claim C s k t)) = (if fst (c_claim C s k t) then insert k (held s) else held s)"
    and claim_free: "ok s \<Longrightarrow> fst (c_claim C s k t) \<Longrightarrow> k \<notin> held s"
    and store_held: "ok s \<Longrightarrow> held (c_store C s k r t) = held s - {k}"
    and abandon_held: "ok s \<Longrightarrow> held (c_abandon C s k) = held s - {k}"

text \<open>
  A trace of requests against a cacher: a request that wins a claim is its key's owner until
  it stores or abandons. \<open>owners\<close> maps a running request to its key; only an owner finishes.
\<close>

datatype idem_event =
  Look string instant
| Claim nat string instant
| Finish nat "idem_response option" instant

type_synonym owners = "nat \<rightharpoonup> string"

fun idem_step :: "'s cacher_ops \<Rightarrow> idem_event \<Rightarrow> 's \<times> owners \<Rightarrow> 's \<times> owners" where
  "idem_step C (Look k t) (s, w) = (snd (c_lookup C s k t), w)"
| "idem_step C (Claim r k t) (s, w) =
     (if w r \<noteq> None then (s, w)
      else let (won, s1) = c_claim C s k t in (s1, if won then w(r \<mapsto> k) else w))"
| "idem_step C (Finish r resp t) (s, w) =
     (case w r of
        None \<Rightarrow> (s, w)
      | Some k \<Rightarrow> ((case resp of None \<Rightarrow> c_abandon C s k | Some x \<Rightarrow> c_store C s k x t), w(r := None)))"

definition idem_run :: "'s cacher_ops \<Rightarrow> idem_event list \<Rightarrow> 's \<times> owners \<Rightarrow> 's \<times> owners" where
  "idem_run C es sw = foldl (\<lambda>sw e. idem_step C e sw) sw es"

definition owners_agree :: "string set \<Rightarrow> owners \<Rightarrow> bool" where
  "owners_agree ks w \<longleftrightarrow> ran w = ks \<and> (\<forall>r r' k. w r = Some k \<longrightarrow> w r' = Some k \<longrightarrow> r = r')"

context cacher
begin

lemma event_agree:
  assumes "ok s" "owners_agree (held s) w"
  shows "ok (fst (idem_step C e (s, w))) \<and>
    owners_agree (held (fst (idem_step C e (s, w)))) (snd (idem_step C e (s, w)))"
proof (cases e)
  case (Look k t)
  with assms show ?thesis by (simp add: ok_lookup lookup_held)
next
  case (Claim r k t)
  show ?thesis
  proof (cases "w r = None \<and> fst (c_claim C s k t)")
    case True
    then have "k \<notin> ran w" using claim_free assms unfolding owners_agree_def by blast
    then have "owners_agree (insert k (held s)) (w(r \<mapsto> k))"
      using assms(2) True unfolding owners_agree_def by (auto simp: ran_map_upd) (auto simp: ran_def)
    with True assms(1) show ?thesis
      by (simp add: Claim case_prod_unfold ok_claim claim_held Let_def)
  next
    case False
    with assms show ?thesis by (auto simp: Claim case_prod_unfold ok_claim claim_held Let_def)
  qed
next
  case (Finish r resp t)
  show ?thesis
  proof (cases "w r")
    case (Some k)
    have "owners_agree (held s - {k}) (w(r := None))"
    proof -
      have uniq: "\<And>a b x. w a = Some x \<Longrightarrow> w b = Some x \<Longrightarrow> a = b" and ran: "ran w = held s"
        using assms(2) by (auto simp: owners_agree_def)
      have "ran (w(r := None)) = ran w - {k}"
      proof
        show "ran (w(r := None)) \<subseteq> ran w - {k}" using uniq Some by (auto simp: ran_def split: if_splits)
        show "ran w - {k} \<subseteq> ran (w(r := None))"
        proof
          fix x assume "x \<in> ran w - {k}"
          then obtain a where "w a = Some x" "x \<noteq> k" by (auto simp: ran_def)
          then have "(w(r := None)) a = Some x" using Some by auto
          then show "x \<in> ran (w(r := None))" by (rule ranI)
        qed
      qed
      then show ?thesis using uniq ran unfolding owners_agree_def by (metis fun_upd_apply option.distinct(1))
    qed
    with Some assms(1) show ?thesis
      by (auto simp: Finish ok_store ok_abandon store_held abandon_held split: option.splits)
  qed (use assms Finish in simp)
qed

text \<open>Mutual exclusion: over any interleaving of requests, no key has two owners.\<close>

lemma run_agree:
  "ok s \<Longrightarrow> owners_agree (held s) w \<Longrightarrow>
   ok (fst (idem_run C es (s, w))) \<and> owners_agree (held (fst (idem_run C es (s, w)))) (snd (idem_run C es (s, w)))"
proof (induction es arbitrary: s w)
  case (Cons e es)
  obtain s1 w1 where "idem_step C e (s, w) = (s1, w1)" by fastforce
  with Cons event_agree [of s w e] show ?case by (simp add: idem_run_def)
qed (simp add: idem_run_def)

lemma one_owner:
  "ok s \<Longrightarrow> held s = {} \<Longrightarrow> snd (idem_run C es (s, Map.empty)) r = Some k \<Longrightarrow>
   snd (idem_run C es (s, Map.empty)) r' = Some k \<Longrightarrow> r = r'"
  using run_agree [of s Map.empty es] unfolding owners_agree_def by (auto simp: ran_def)

end

section \<open>The in-memory cache\<close>

record cache_entry =
  ce_response :: idem_response
  ce_expires :: instant

record 'c idem_cache =
  ic_lru :: 'c
  ic_inflight :: "string set"
  ic_ttl :: duration

definition default_capacity :: int where
  "default_capacity = 10000"

definition default_ttl :: duration where
  "default_ttl = 24 * hour"

definition new_cache :: "('c, string, cache_entry) lru_ops \<Rightarrow> int \<Rightarrow> duration \<Rightarrow> 'c idem_cache result" where
  "new_cache L capacity ttl =
     (if capacity \<le> 0 then Err ''idempotency: capacity must be positive''
      else if ttl \<le> 0 then Err ''idempotency: ttl must be positive''
      else Ok \<lparr>ic_lru = lru_new L (nat capacity), ic_inflight = {}, ic_ttl = ttl\<rparr>)"

definition cache_lookup :: "('c, string, cache_entry) lru_ops \<Rightarrow> 'c idem_cache \<Rightarrow> string \<Rightarrow> instant \<Rightarrow>
    (idem_response option \<times> bool) \<times> 'c idem_cache" where
  "cache_lookup L c k now =
     (if k \<in> ic_inflight c then ((None, True), c)
      else case lru_get L (ic_lru c) k of
        (Some e, l) \<Rightarrow>
          if now < ce_expires e then ((Some (ce_response e), False), c\<lparr>ic_lru := l\<rparr>)
          else ((None, False), c\<lparr>ic_lru := lru_remove L l k\<rparr>)
      | (None, l) \<Rightarrow> ((None, False), c\<lparr>ic_lru := l\<rparr>))"

definition cache_claim :: "('c, string, cache_entry) lru_ops \<Rightarrow> 'c idem_cache \<Rightarrow> string \<Rightarrow> instant \<Rightarrow>
    bool \<times> 'c idem_cache" where
  "cache_claim L c k now =
     (if k \<in> ic_inflight c then (False, c)
      else case lru_get L (ic_lru c) k of
        (v, l) \<Rightarrow>
          if (case v of Some e \<Rightarrow> now < ce_expires e | None \<Rightarrow> False) then (False, c\<lparr>ic_lru := l\<rparr>)
          else (True, c\<lparr>ic_lru := l, ic_inflight := insert k (ic_inflight c)\<rparr>))"

definition cache_store :: "('c, string, cache_entry) lru_ops \<Rightarrow> 'c idem_cache \<Rightarrow> string \<Rightarrow> idem_response \<Rightarrow> instant \<Rightarrow>
    'c idem_cache" where
  "cache_store L c k r now = c\<lparr>ic_lru := lru_add L (ic_lru c) k \<lparr>ce_response = r, ce_expires = now + ic_ttl c\<rparr>,
     ic_inflight := ic_inflight c - {k}\<rparr>"

definition cache_abandon :: "'c idem_cache \<Rightarrow> string \<Rightarrow> 'c idem_cache" where
  "cache_abandon c k = c\<lparr>ic_inflight := ic_inflight c - {k}\<rparr>"

definition cache_ops :: "('c, string, cache_entry) lru_ops \<Rightarrow> 'c idem_cache cacher_ops" where
  "cache_ops L = \<lparr>c_lookup = cache_lookup L, c_claim = cache_claim L, c_store = cache_store L,
     c_abandon = cache_abandon\<rparr>"

section \<open>The durable cache\<close>

record durable =
  du_gate :: gate
  du_endpoint :: string
  du_ttl :: duration
  du_inflight :: "string set"

definition new_durable :: "gate \<Rightarrow> string \<Rightarrow> duration \<Rightarrow> durable" where
  "new_durable g endpoint ttl = \<lparr>du_gate = g, du_endpoint = endpoint,
     du_ttl = (if ttl \<le> 0 then default_ttl else ttl), du_inflight = {}\<rparr>"

definition durable_lookup :: "durable \<Rightarrow> string \<Rightarrow> instant \<Rightarrow> (idem_response option \<times> bool) \<times> durable" where
  "durable_lookup c k now =
     (if k \<in> du_inflight c then ((None, True), c)
      else if \<not> gate_healthy (du_gate c) then ((None, False), c)
      else case on_db (get_idempotent k (du_endpoint c) now) (du_gate c) of
        (Inl _, g) \<Rightarrow> ((None, False), c\<lparr>du_gate := report_error g\<rparr>)
      | (Inr None, g) \<Rightarrow> ((None, False), c\<lparr>du_gate := g\<rparr>)
      | (Inr (Some r), g) \<Rightarrow> ((Some r, False), c\<lparr>du_gate := g\<rparr>))"

text \<open>\<open>lookupStored\<close>: an error counts as a miss and is not reported to the gate.\<close>

definition lookup_stored :: "durable \<Rightarrow> string \<Rightarrow> instant \<Rightarrow> idem_response option \<times> durable" where
  "lookup_stored c k now =
     (if \<not> gate_healthy (du_gate c) then (None, c)
      else case on_db (get_idempotent k (du_endpoint c) now) (du_gate c) of
        (Inl _, g) \<Rightarrow> (None, c\<lparr>du_gate := g\<rparr>)
      | (Inr r, g) \<Rightarrow> (r, c\<lparr>du_gate := g\<rparr>))"

definition durable_lock :: "durable \<Rightarrow> string \<Rightarrow> bool \<times> durable" where
  "durable_lock c k =
     (if k \<in> du_inflight c then (False, c) else (True, c\<lparr>du_inflight := insert k (du_inflight c)\<rparr>))"

definition durable_claim :: "durable \<Rightarrow> string \<Rightarrow> instant \<Rightarrow> bool \<times> durable" where
  "durable_claim c k now =
     (case lookup_stored c k now of (Some _, c1) \<Rightarrow> (False, c1) | (None, c1) \<Rightarrow> durable_lock c1 k)"

definition durable_store :: "durable \<Rightarrow> string \<Rightarrow> idem_response \<Rightarrow> instant \<Rightarrow> durable" where
  "durable_store c k r now =
     (let c1 = (if gate_healthy (du_gate c) then
          (case on_db (put_idempotent k (du_endpoint c) r (now + du_ttl c)) (du_gate c) of
             (Inl _, g) \<Rightarrow> c\<lparr>du_gate := report_error g\<rparr>
           | (Inr _, g) \<Rightarrow> c\<lparr>du_gate := g\<rparr>)
        else c)
      in c1\<lparr>du_inflight := du_inflight c1 - {k}\<rparr>)"

definition durable_abandon :: "durable \<Rightarrow> string \<Rightarrow> durable" where
  "durable_abandon c k = c\<lparr>du_inflight := du_inflight c - {k}\<rparr>"

definition durable_ops :: "durable cacher_ops" where
  "durable_ops = \<lparr>c_lookup = durable_lookup, c_claim = durable_claim, c_store = durable_store,
     c_abandon = durable_abandon\<rparr>"

section \<open>Both keep the contract\<close>

lemma durable_lookup_cases:
  "du_inflight (snd (durable_lookup c k t)) = du_inflight c \<and> snd (fst (durable_lookup c k t)) = (k \<in> du_inflight c) \<and>
   (k \<in> du_inflight c \<longrightarrow> fst (fst (durable_lookup c k t)) = None)"
  by (auto simp: durable_lookup_def split: prod.splits sum.splits option.splits)

lemma lookup_stored_inflight: "du_inflight (snd (lookup_stored c k t)) = du_inflight c"
  by (auto simp: lookup_stored_def split: prod.splits sum.splits)

lemma durable_claim_inflight:
  "du_inflight (snd (durable_claim c k t)) =
     (if fst (durable_claim c k t) then insert k (du_inflight c) else du_inflight c)"
  "fst (durable_claim c k t) \<Longrightarrow> k \<notin> du_inflight c"
  using lookup_stored_inflight [of c k t]
  by (cases "lookup_stored c k t"; cases "fst (lookup_stored c k t)"; simp add: durable_claim_def durable_lock_def split: if_splits)+

lemma durable_store_inflight: "du_inflight (durable_store c k r t) = du_inflight c - {k}"
  by (auto simp: durable_store_def Let_def split: prod.splits sum.splits)

interpretation dur: cacher durable_ops "\<lambda>_. True" du_inflight
  by unfold_locales
     (simp_all add: durable_ops_def durable_lookup_cases durable_claim_inflight durable_store_inflight durable_abandon_def)

lemma cache_lookup_cases:
  "ic_inflight (snd (cache_lookup L c k t)) = ic_inflight c \<and> snd (fst (cache_lookup L c k t)) = (k \<in> ic_inflight c) \<and>
   (k \<in> ic_inflight c \<longrightarrow> fst (fst (cache_lookup L c k t)) = None)"
  by (auto simp: cache_lookup_def split: prod.splits option.splits)

lemma cache_claim_inflight:
  "ic_inflight (snd (cache_claim L c k t)) =
     (if fst (cache_claim L c k t) then insert k (ic_inflight c) else ic_inflight c)"
  "fst (cache_claim L c k t) \<Longrightarrow> k \<notin> ic_inflight c"
  by (auto simp: cache_claim_def split: prod.splits option.splits if_splits)

lemma cache_lookup_lru: "ic_lru (snd (cache_lookup L c k t)) \<in>
    {ic_lru c, snd (lru_get L (ic_lru c) k), lru_remove L (snd (lru_get L (ic_lru c) k)) k}"
  by (auto simp: cache_lookup_def split: prod.splits option.splits)

lemma cache_claim_lru: "ic_lru (snd (cache_claim L c k t)) \<in> {ic_lru c, snd (lru_get L (ic_lru c) k)}"
  by (auto simp: cache_claim_def split: prod.splits option.splits)

lemma cache_contract:
  assumes "lru_cache L view size_of lok"
  shows "cacher (cache_ops L) (\<lambda>c. lok (ic_lru c)) ic_inflight"
proof -
  from assms have L: "\<And>c k. lok c \<Longrightarrow> lok (snd (lru_get L c k))" "\<And>c k v. lok c \<Longrightarrow> lok (lru_add L c k v)"
    "\<And>c k. lok c \<Longrightarrow> lok (lru_remove L c k)"
    by (simp_all add: lru_cache_def)
  show ?thesis
  proof unfold_locales
    fix s :: "'a idem_cache" and k t assume "lok (ic_lru s)"
    then show "lok (ic_lru (snd (c_lookup (cache_ops L) s k t)))"
      using L cache_lookup_lru [of L s k t] by (auto simp: cache_ops_def)
  next
    fix s :: "'a idem_cache" and k t assume "lok (ic_lru s)"
    then show "lok (ic_lru (snd (c_claim (cache_ops L) s k t)))"
      using L cache_claim_lru [of L s k t] by (auto simp: cache_ops_def)
  qed (simp_all add: cache_ops_def cache_lookup_cases cache_claim_inflight cache_store_def cache_abandon_def L)
qed

interpretation mem: cacher "cache_ops list_lru" "\<lambda>c. ll_ok (ic_lru c)" ic_inflight
  by (rule cache_contract) (rule ll.lru_cache_axioms)

section \<open>Replay from the in-memory cache\<close>

definition event_key :: "idem_event \<Rightarrow> string set" where
  "event_key e = (case e of Look k t \<Rightarrow> {k} | Claim r k t \<Rightarrow> {k} | Finish r resp t \<Rightarrow> {})"

fun event_time :: "idem_event \<Rightarrow> instant" where
  "event_time (Look k t) = t"
| "event_time (Claim r k t) = t"
| "event_time (Finish r resp t) = t"

lemma cacher_cache_ops [simp]:
  "c_lookup (cache_ops L) = cache_lookup L" "c_claim (cache_ops L) = cache_claim L"
  "c_store (cache_ops L) = cache_store L" "c_abandon (cache_ops L) = cache_abandon"
  by (simp_all add: cache_ops_def)

text \<open>
  \<open>holding\<close>: the cache holds the response \<open>x\<close> for \<open>k\<close> until \<open>ex\<close>, nobody owns \<open>k\<close>, and all
  keys involved fit into the capacity.
\<close>

definition holding :: "('c \<Rightarrow> string \<rightharpoonup> cache_entry) \<Rightarrow> ('c \<Rightarrow> nat) \<Rightarrow> string set \<Rightarrow> string \<Rightarrow> cache_entry \<Rightarrow>
    'c idem_cache \<Rightarrow> owners \<Rightarrow> bool" where
  "holding view size_of K k e c w \<longleftrightarrow> view (ic_lru c) k = Some e \<and> dom (view (ic_lru c)) \<subseteq> K \<and>
     ran w \<subseteq> K - {k} \<and> finite K \<and> card K \<le> size_of (ic_lru c) \<and> k \<notin> ic_inflight c"

context lru_cache
begin

lemma add_in_room:
  assumes "ok c" "dom (view c) \<subseteq> K" "j \<in> K" "finite K" "card K \<le> size_of c"
  shows "view (lru_add L c j v) = (view c)(j \<mapsto> v)"
proof (rule add_room [OF assms(1)])
  show "j \<in> dom (view c) \<or> card (dom (view c)) < size_of c"
  proof (cases "j \<in> dom (view c)")
    case False
    then have "dom (view c) \<subset> K" using assms(2,3) by blast
    then have "card (dom (view c)) < card K" using assms(4) psubset_card_mono by blast
    then show ?thesis using assms(5) by simp
  qed simp
qed

end

locale idem_lru = lru_cache L view size_of ok
  for L :: "('c, string, cache_entry) lru_ops" and view size_of ok
begin

lemma lookup_lru:
  assumes "ok (ic_lru c)"
  shows "ok (ic_lru (snd (cache_lookup L c j t)))" "size_of (ic_lru (snd (cache_lookup L c j t))) = size_of (ic_lru c)"
    "view (ic_lru (snd (cache_lookup L c j t))) = view (ic_lru c) \<or>
     (\<exists>e. view (ic_lru c) j = Some e \<and> ce_expires e \<le> t \<and> view (ic_lru (snd (cache_lookup L c j t))) = (view (ic_lru c))(j := None))"
proof -
  obtain v l where g: "lru_get L (ic_lru c) j = (v, l)" by fastforce
  have l: "ok l" "view l = view (ic_lru c)" "v = view (ic_lru c) j" "size_of l = size_of (ic_lru c)"
    using get_ok [OF assms, of j] get_view [OF assms, of j] get_val [OF assms, of j] get_size [OF assms, of j] g by auto
  show "ok (ic_lru (snd (cache_lookup L c j t)))" "size_of (ic_lru (snd (cache_lookup L c j t))) = size_of (ic_lru c)"
    "view (ic_lru (snd (cache_lookup L c j t))) = view (ic_lru c) \<or>
     (\<exists>e. view (ic_lru c) j = Some e \<and> ce_expires e \<le> t \<and> view (ic_lru (snd (cache_lookup L c j t))) = (view (ic_lru c))(j := None))"
    using assms l by (auto simp: cache_lookup_def g split: option.splits)
qed

lemma claim_lru:
  assumes "ok (ic_lru c)"
  shows "ok (ic_lru (snd (cache_claim L c j t)))" "size_of (ic_lru (snd (cache_claim L c j t))) = size_of (ic_lru c)"
    "view (ic_lru (snd (cache_claim L c j t))) = view (ic_lru c)"
    "fst (cache_claim L c j t) \<Longrightarrow> view (ic_lru c) j = Some e \<Longrightarrow> ce_expires e \<le> t"
proof -
  obtain v l where g: "lru_get L (ic_lru c) j = (v, l)" by fastforce
  have l: "ok l" "view l = view (ic_lru c)" "v = view (ic_lru c) j" "size_of l = size_of (ic_lru c)"
    using get_ok [OF assms, of j] get_view [OF assms, of j] get_val [OF assms, of j] get_size [OF assms, of j] g by auto
  show "ok (ic_lru (snd (cache_claim L c j t)))" "size_of (ic_lru (snd (cache_claim L c j t))) = size_of (ic_lru c)"
    "view (ic_lru (snd (cache_claim L c j t))) = view (ic_lru c)"
    using assms l by (auto simp: cache_claim_def g)
  show "fst (cache_claim L c j t) \<Longrightarrow> view (ic_lru c) j = Some e \<Longrightarrow> ce_expires e \<le> t"
    using l by (auto simp: cache_claim_def g split: if_splits)
qed

lemma holding_step:
  assumes ok: "ok (ic_lru c)" and h: "holding view size_of K k e c w"
    and K: "event_key ev \<subseteq> K" and t: "k \<in> event_key ev \<longrightarrow> event_time ev < ce_expires e"
  shows "ok (ic_lru (fst (idem_step (cache_ops L) ev (c, w)))) \<and>
    holding view size_of K k e (fst (idem_step (cache_ops L) ev (c, w))) (snd (idem_step (cache_ops L) ev (c, w)))"
proof (cases ev)
  case (Look j now)
  have "view (ic_lru (snd (cache_lookup L c j now))) k = Some e" "dom (view (ic_lru (snd (cache_lookup L c j now)))) \<subseteq> K"
    using lookup_lru(3) [OF ok, of j now] h t Look by (auto simp: holding_def event_key_def split: if_splits)
  then show ?thesis
    using lookup_lru(1,2) [OF ok, of j now] h cache_lookup_cases [of L c j now]
    by (simp add: Look holding_def)
next
  case (Claim r j now)
  show ?thesis
  proof (cases "w r = None \<and> fst (cache_claim L c j now)")
    case True
    have "j \<noteq> k" using claim_lru(4) [OF ok, of j now e] True h t Claim by (auto simp: holding_def event_key_def)
    moreover have "j \<in> K" using K by (simp add: Claim event_key_def)
    ultimately show ?thesis
      using True claim_lru(1-3) [OF ok, of j now] h cache_claim_inflight(1) [of L c j now]
      by (auto simp: Claim holding_def case_prod_unfold ran_map_upd)
  next
    case False
    then show ?thesis
      using claim_lru(1-3) [OF ok, of j now] h ok cache_claim_inflight(1) [of L c j now]
      by (auto simp: Claim holding_def case_prod_unfold Let_def)
  qed
next
  case (Finish r resp now)
  show ?thesis
  proof (cases "w r")
    case (Some j)
    then have j: "j \<in> K" "j \<noteq> k" using h ranI [of w r j] by (auto simp: holding_def)
    have sub: "ran (w(r := None)) \<subseteq> K - {k}" using h by (auto simp: holding_def ran_def)
    show ?thesis
    proof (cases resp)
      case None
      then show ?thesis using Some h ok sub by (simp add: Finish holding_def cache_abandon_def)
    next
      case (Some x)
      have "view (lru_add L (ic_lru c) j v) = (view (ic_lru c))(j \<mapsto> v)" for v
        using h j by (intro add_in_room [OF ok, of K]) (auto simp: holding_def)
      then show ?thesis using \<open>w r = Some j\<close> Some h ok sub j
        by (auto simp: Finish holding_def cache_store_def add_ok add_size)
    qed
  qed (use h ok Finish in simp)
qed

lemma holding_run:
  "ok (ic_lru c) \<Longrightarrow> holding view size_of K k e c w \<Longrightarrow> \<Union> (event_key ` set es) \<subseteq> K \<Longrightarrow>
   \<forall>ev \<in> set es. k \<in> event_key ev \<longrightarrow> event_time ev < ce_expires e \<Longrightarrow>
   ok (ic_lru (fst (idem_run (cache_ops L) es (c, w)))) \<and>
   holding view size_of K k e (fst (idem_run (cache_ops L) es (c, w))) (snd (idem_run (cache_ops L) es (c, w)))"
proof (induction es arbitrary: c w)
  case (Cons ev es)
  obtain c1 w1 where s: "idem_step (cache_ops L) ev (c, w) = (c1, w1)" by fastforce
  have "ok (ic_lru c1)" "holding view size_of K k e c1 w1"
    using holding_step [OF Cons.prems(1,2), of ev] Cons.prems(3,4) s by auto
  with Cons.IH [of c1 w1] Cons.prems(3,4) s show ?case by (simp add: idem_run_def)
qed (simp add: idem_run_def)

lemma holding_lookup:
  assumes "ok (ic_lru c)" "holding view size_of K k e c w" "now < ce_expires e"
  shows "fst (cache_lookup L c k now) = (Some (ce_response e), False)"
  using assms get_val [OF assms(1), of k]
  by (cases "lru_get L (ic_lru c) k") (auto simp: holding_def cache_lookup_def)

lemma replay_after_store:
  assumes ok: "ok (ic_lru c)" and own: "owners_agree (ic_inflight c) w" "w r = Some k"
    and room: "finite K" "card K \<le> size_of (ic_lru c)" "dom (view (ic_lru c)) \<union> ran w \<union> \<Union> (event_key ` set es) \<subseteq> K"
    and time: "\<forall>ev \<in> set es. k \<in> event_key ev \<longrightarrow> event_time ev < t0 + ic_ttl c" "now < t0 + ic_ttl c"
  shows "fst (cache_lookup L (fst (idem_run (cache_ops L) (Finish r (Some x) t0 # es) (c, w))) k now) = (Some x, False)"
proof -
  let ?e = "\<lparr>ce_response = x, ce_expires = t0 + ic_ttl c\<rparr>" and ?c = "cache_store L c k x t0"
  have k: "k \<in> K" using own(2) room(3) by (auto intro: ranI)
  have "view (lru_add L (ic_lru c) k ?e) = (view (ic_lru c))(k \<mapsto> ?e)"
    using room k by (intro add_in_room [OF ok, of K]) auto
  moreover have "ran (w(r := None)) \<subseteq> K - {k}"
  proof
    fix j assume "j \<in> ran (w(r := None))"
    then obtain r' where r': "w r' = Some j" "r' \<noteq> r" by (auto simp: ran_def split: if_splits)
    then have "j \<noteq> k" using own unfolding owners_agree_def by metis
    with r'(1) room(3) show "j \<in> K - {k}" by (auto intro: ranI)
  qed
  ultimately have "holding view size_of K k ?e ?c (w(r := None))"
    using room k ok by (auto simp: holding_def cache_store_def)
  moreover have "ok (ic_lru ?c)" using ok by (simp add: cache_store_def)
  ultimately have h: "ok (ic_lru (fst (idem_run (cache_ops L) es (?c, w(r := None)))))"
    "holding view size_of K k ?e (fst (idem_run (cache_ops L) es (?c, w(r := None)))) (snd (idem_run (cache_ops L) es (?c, w(r := None))))"
    using holding_run [of ?c K k ?e "w(r := None)" es] room(3) time(1) by auto
  have "idem_run (cache_ops L) (Finish r (Some x) t0 # es) (c, w) = idem_run (cache_ops L) es (?c, w(r := None))"
    by (simp add: idem_run_def own(2))
  with holding_lookup [OF h] time(2) show ?thesis by simp
qed

end

interpretation mem_lru: idem_lru list_lru ll_view fst ll_ok
  by unfold_locales

lemma idem_lru_iff: "idem_lru L view size_of ok \<longleftrightarrow> lru_cache L view size_of ok"
  by (simp add: idem_lru_def)

section \<open>Properties\<close>

text \<open>
  C24: at most one request runs under a key. Over any interleaving of lookups, claims and
  completions by any number of requests, and whatever the store and its gate do, no two
  requests own the same key of an endpoint's cache at once: neither with the in-memory cache
  (over any LRU with the documented behaviour) nor with the durable one.
\<close>

theorem at_most_one_in_flight:
  assumes "lru_cache L view size_of lok" "new_cache L capacity ttl = Ok c"
  shows "(snd (idem_run (cache_ops L) es (c, Map.empty)) r = Some k \<longrightarrow>
      snd (idem_run (cache_ops L) es (c, Map.empty)) r' = Some k \<longrightarrow> r = r') \<and>
    (snd (idem_run durable_ops es (new_durable g endpoint ttl', Map.empty)) r = Some k \<longrightarrow>
      snd (idem_run durable_ops es (new_durable g endpoint ttl', Map.empty)) r' = Some k \<longrightarrow> r = r')"
proof -
  have "lok (ic_lru c)" "ic_inflight c = {}"
    using assms by (auto simp: new_cache_def lru_cache_def split: if_splits)
  with cacher.one_owner [OF cache_contract [OF assms(1)], of c es r k r']
    dur.one_owner [of "new_durable g endpoint ttl'" es r k r'] show ?thesis
    by (auto simp: new_durable_def)
qed

definition demo_cache :: "(string, cache_entry) list_lru idem_cache" where
  "demo_cache = \<lparr>ic_lru = (2, []), ic_inflight = {}, ic_ttl = default_ttl\<rparr>"

lemma demo_cache_new: "new_cache list_lru 2 default_ttl = Ok demo_cache"
  by (simp add: new_cache_def demo_cache_def default_ttl_def time_defs)

theorem at_most_one_in_flight_witness:
  "snd (idem_run (cache_ops list_lru) [Claim 0 ''k'' 0, Claim 1 ''k'' 5] (demo_cache, Map.empty)) 0 = Some ''k'' \<and>
   snd (idem_run (cache_ops list_lru) [Claim 0 ''k'' 0, Claim 1 ''k'' 5] (demo_cache, Map.empty)) 1 \<noteq> Some ''k''"
proof -
  have "snd (idem_run (cache_ops list_lru) [Claim 0 ''k'' 0, Claim 1 ''k'' 5] (demo_cache, Map.empty)) 0 = Some ''k''"
    by (simp add: idem_run_def cache_claim_def demo_cache_def)
  with at_most_one_in_flight [OF ll.lru_cache_axioms demo_cache_new, of "[Claim 0 ''k'' 0, Claim 1 ''k'' 5]" 0 "''k''" 1]
  show ?thesis by auto
qed

text \<open>
  A stored response is replayed. When a request that owns a key stores its response in
  the in-memory cache, every lookup of the key before the TTL is over returns exactly that
  response, whatever other requests do in between (lookups, claims of this key, completions
  of others), as long as the keys in play fit the configured capacity.
\<close>

theorem stored_response_replayed:
  assumes "lru_cache L view size_of lok" "lok (ic_lru c)" "owners_agree (ic_inflight c) w" "w r = Some k"
    and "finite K" "card K \<le> size_of (ic_lru c)" "dom (view (ic_lru c)) \<union> ran w \<union> \<Union> (event_key ` set es) \<subseteq> K"
    and "\<forall>ev \<in> set es. k \<in> event_key ev \<longrightarrow> event_time ev < t0 + ic_ttl c" "now < t0 + ic_ttl c"
  shows "fst (cache_lookup L (fst (idem_run (cache_ops L) (Finish r (Some x) t0 # es) (c, w))) k now) = (Some x, False)"
  by (rule idem_lru.replay_after_store [OF assms(1) [folded idem_lru_iff] assms(2-9)])

theorem stored_response_replayed_witness:
  "fst (cache_lookup list_lru (fst (idem_run (cache_ops list_lru) [Finish 7 (Some demo_response) 0, Claim 8 ''k'' 5]
      (demo_cache\<lparr>ic_inflight := {''k''}\<rparr>, [7 \<mapsto> ''k'']))) ''k'' 9) = (Some demo_response, False)"
proof -
  let ?c = "demo_cache\<lparr>ic_inflight := {''k''}\<rparr>"
  have "ll_ok (ic_lru ?c)" "owners_agree (ic_inflight ?c) [7 \<mapsto> ''k'']" "[7 \<mapsto> ''k''] 7 = Some ''k''"
    by (auto simp: demo_cache_def ll_ok_def owners_agree_def split: if_splits)
  moreover have "finite {''k''}" "card {''k''} \<le> fst (ic_lru ?c)"
    "dom (ll_view (ic_lru ?c)) \<union> ran [7 \<mapsto> ''k''] \<union> \<Union> (event_key ` set [Claim 8 ''k'' 5]) \<subseteq> {''k''}"
    by (auto simp: demo_cache_def ll_view_def event_key_def)
  moreover have "\<forall>ev \<in> set [Claim 8 ''k'' 5]. ''k'' \<in> event_key ev \<longrightarrow> event_time ev < 0 + ic_ttl ?c" "9 < 0 + ic_ttl ?c"
    by (simp_all add: demo_cache_def default_ttl_def time_defs)
  ultimately show ?thesis by (rule stored_response_replayed [OF ll.lru_cache_axioms])
qed

text \<open>
  The durable claim is not atomic. In the in-memory cache a claim succeeds only when no
  unexpired response is stored; in \<open>Durable.ClaimInFlight\<close> the stored-response check precedes
  the lock, and a request that finishes in between goes unnoticed: there is a run on a
  healthy store in which the second claim succeeds although the response is stored and
  unexpired, so the same key is processed twice.
\<close>

theorem durable_claim_race:
  assumes "lru_cache L view size_of lok"
  shows "(\<forall>c k now e. lok (ic_lru c) \<longrightarrow> view (ic_lru c) k = Some e \<longrightarrow> now < ce_expires e \<longrightarrow>
      \<not> fst (cache_claim L c k now)) \<and>
    (let d0 = new_durable (new_gate (empty_db [])) ''/api'' default_ttl;
         (won, d1) = durable_claim d0 ''k'' 0;
         (seen, d2) = lookup_stored d1 ''k'' 0;
         d3 = durable_store d2 ''k'' demo_response 0;
         (won', d4) = durable_lock d3 ''k''
     in won \<and> seen = None \<and> won' \<and> fst (lookup_stored d4 ''k'' 0) = Some demo_response)"
proof
  show "\<forall>c k now e. lok (ic_lru c) \<longrightarrow> view (ic_lru c) k = Some e \<longrightarrow> now < ce_expires e \<longrightarrow> \<not> fst (cache_claim L c k now)"
    using idem_lru.claim_lru(4) [OF assms [folded idem_lru_iff]] by fastforce
  show "let d0 = new_durable (new_gate (empty_db [])) ''/api'' default_ttl;
         (won, d1) = durable_claim d0 ''k'' 0;
         (seen, d2) = lookup_stored d1 ''k'' 0;
         d3 = durable_store d2 ''k'' demo_response 0;
         (won', d4) = durable_lock d3 ''k''
     in won \<and> seen = None \<and> won' \<and> fst (lookup_stored d4 ''k'' 0) = Some demo_response"
    by (simp add: new_durable_def new_gate_def empty_db_def durable_claim_def lookup_stored_def on_db_def
        get_idempotent_def query_nofault durable_lock_def durable_store_def put_idempotent_def exec_nofault
        default_ttl_def demo_response_def time_unix_def time_defs)
qed

theorem durable_claim_race_witness:
  "\<not> fst (cache_claim list_lru (cache_store list_lru demo_cache ''k'' demo_response 0) ''k'' 5)"
proof -
  have "ll_ok (ic_lru (cache_store list_lru demo_cache ''k'' demo_response 0))"
    "ll_view (ic_lru (cache_store list_lru demo_cache ''k'' demo_response 0)) ''k'' =
      Some \<lparr>ce_response = demo_response, ce_expires = default_ttl\<rparr>"
    by (simp_all add: cache_store_def demo_cache_def ll_ok_def ll_view_def drop_key_def)
  then show ?thesis
    using durable_claim_race [OF ll.lru_cache_axioms] by (auto simp: default_ttl_def time_defs)
qed

end
