(* ===== verification/Go_Float.thy ===== *)
theory Go_Float
  imports Prelude Complex_Main
begin

text \<open>
  Go's \<open>float64\<close>, as far as the rate limiter uses it: every arithmetic operation returns
  the exact result rounded to 53 significant bits, ties to even. A float is the rational
  number it denotes; \<open>rnd64\<close> is the rounding. The limiter's values (token counts up to
  the configured capacity, seconds, tokens per second) stay far inside the exponent
  range, so neither overflow nor the subnormal range is modelled.

  The locale \<open>rounding\<close> states what the components rely on, and \<open>rnd64\<close> interprets it.
\<close>

section \<open>Rounding to 53 bits\<close>

definition round_even :: "rat \<Rightarrow> int" where
  "round_even y =
     (let f = \<lfloor>y\<rfloor>; r = y - of_int f
      in if r < 1/2 then f else if r > 1/2 then f + 1 else if even f then f else f + 1)"

fun bit_length :: "nat \<Rightarrow> nat" where
  "bit_length n = (if n = 0 then 0 else Suc (bit_length (n div 2)))"

declare bit_length.simps [simp del]

text \<open>The exponent of the leading bit: \<open>2 ^ e \<le> x < 2 ^ (e + 1)\<close>.\<close>

definition exponent :: "rat \<Rightarrow> int" where
  "exponent x =
     (let (p, q) = quotient_of x;
          e = int (bit_length (nat p)) - int (bit_length (nat q))
      in if 2 powi e \<le> x then e else e - 1)"

definition rnd_pos :: "rat \<Rightarrow> rat" where
  "rnd_pos x = (let u = 2 powi (exponent x - 52) in of_int (round_even (x / u)) * u)"

definition rnd64 :: "rat \<Rightarrow> rat" where
  "rnd64 x = (if x = 0 then 0 else if x < 0 then - rnd_pos (- x) else rnd_pos x)"

section \<open>Rounding to the nearest integer\<close>

lemma round_even_of_int [simp]: "round_even (of_int k) = k"
  by (simp add: round_even_def)

lemma round_even_upper: "of_int (round_even y) \<le> y + 1/2"
  unfolding round_even_def Let_def
  by (auto simp: not_less intro: order_trans [OF of_int_floor_le])

lemma round_even_lower: "y - 1/2 \<le> of_int (round_even y)"
  unfolding round_even_def Let_def
  by (auto simp: not_less) linarith+

lemma round_even_mono:
  assumes "x \<le> y"
  shows "round_even x \<le> round_even y"
proof (rule ccontr)
  assume less: "\<not> round_even x \<le> round_even y"
  have fl: "\<lfloor>x\<rfloor> \<le> \<lfloor>y\<rfloor>" using assms by (rule floor_mono)
  have bounds: "\<lfloor>x\<rfloor> \<le> round_even x" "round_even x \<le> \<lfloor>x\<rfloor> + 1"
    "\<lfloor>y\<rfloor> \<le> round_even y" "round_even y \<le> \<lfloor>y\<rfloor> + 1"
    by (auto simp: round_even_def Let_def)
  with less fl have eq: "\<lfloor>x\<rfloor> = \<lfloor>y\<rfloor>" by linarith
  have "x - of_int \<lfloor>y\<rfloor> \<le> y - of_int \<lfloor>y\<rfloor>" using assms by simp
  then show False
    using less unfolding round_even_def Let_def eq by (auto split: if_splits)
qed

section \<open>The exponent\<close>

lemma bit_length_bounds: "0 < n \<Longrightarrow> 2 ^ (bit_length n - 1) \<le> n \<and> n < 2 ^ bit_length n \<and> 0 < bit_length n"
proof (induction n rule: bit_length.induct)
  case (1 n)
  have eq: "bit_length n = Suc (bit_length (n div 2))"
    using "1.prems" by (subst bit_length.simps) simp
  show ?case
  proof (cases "n div 2 = 0")
    case True
    then have n: "n = 1" using "1.prems" by linarith
    have "bit_length n = 1" using True by (simp add: eq bit_length.simps [of 0])
    with n show ?thesis by simp
  next
    case False
    with "1.IH" "1.prems" have IH: "2 ^ (bit_length (n div 2) - 1) \<le> n div 2"
      "n div 2 < 2 ^ bit_length (n div 2)" "0 < bit_length (n div 2)" by auto
    have pow: "(2::nat) ^ bit_length (n div 2) = 2 * 2 ^ (bit_length (n div 2) - 1)"
      using IH(3) by (metis One_nat_def Suc_pred power_Suc)
    show ?thesis using IH pow by (simp add: eq) linarith
  qed
qed

lemma powi_nat_diff: "(2::rat) powi (int a - int b) = 2 ^ a / 2 ^ b"
  by (simp add: power_int_diff)

lemma exponent_bounds:
  assumes "0 < x"
  shows "2 powi exponent x \<le> x \<and> x < 2 powi (exponent x + 1)"
proof -
  obtain p q where pq: "quotient_of x = (p, q)" by (cases "quotient_of x")
  have x: "x = of_int p / of_int q" and q: "0 < q"
    using quotient_of_div [OF pq] quotient_of_denom_pos [OF pq] by auto
  have p: "0 < p" using assms x q by (simp add: zero_less_divide_iff)
  obtain P Q where PQ: "p = int P" "q = int Q" "0 < P" "0 < Q"
    using p q by (metis of_nat_0_less_iff zero_less_imp_eq_int)
  define a b where "a = bit_length P" and "b = bit_length Q"
  have ba: "2 ^ (a - 1) \<le> P" "P < 2 ^ a" "0 < a" and bb: "2 ^ (b - 1) \<le> Q" "Q < 2 ^ b" "0 < b"
    using bit_length_bounds PQ(3,4) by (auto simp: a_def b_def)
  have rat_le: "(2::rat) ^ k \<le> of_nat N" if "2 ^ k \<le> N" for k N :: nat
    using that by (metis of_nat_le_iff of_nat_numeral of_nat_power)
  have rat_less: "of_nat N < (2::rat) ^ k" if "N < 2 ^ k" for k N :: nat
    using that by (metis of_nat_less_iff of_nat_numeral of_nat_power)
  have pr: "(2::rat) ^ (a - 1) \<le> of_int p" "of_int p < (2::rat) ^ a"
    using rat_le [OF ba(1)] rat_less [OF ba(2)] by (simp_all add: PQ(1))
  have qr: "(2::rat) ^ (b - 1) \<le> of_int q" "of_int q < (2::rat) ^ b"
    using rat_le [OF bb(1)] rat_less [OF bb(2)] by (simp_all add: PQ(2))
  have pa: "(2::rat) ^ a = 2 * 2 ^ (a - 1)" and pb: "(2::rat) ^ b = 2 * 2 ^ (b - 1)"
    using ba(3) bb(3) by (metis One_nat_def Suc_pred power_Suc)+
  have hi: "x < 2 powi (int a - int b + 1)"
  proof -
    have "of_int p / of_int q < (2::rat) ^ a / 2 ^ (b - 1)"
      using pr(2) qr p q by (intro frac_less) auto
    also have "\<dots> = 2 powi (int a - int b + 1)"
      using power_int_add [of "2::rat" "int a - int b" 1] by (simp add: powi_nat_diff pb)
    finally show ?thesis by (simp add: x)
  qed
  have lo: "2 powi (int a - int b - 1) \<le> x"
  proof -
    have "(2::rat) ^ (a - 1) / 2 ^ b \<le> of_int p / of_int q"
      using pr qr p q by (intro frac_le) auto
    moreover have "2 powi (int a - int b - 1) = (2::rat) ^ (a - 1) / 2 ^ b"
      using power_int_diff [of "2::rat" "int a - int b" 1] by (simp add: powi_nat_diff pa)
    ultimately show ?thesis by (simp add: x)
  qed
  have e: "exponent x = (if 2 powi (int a - int b) \<le> x then int a - int b else int a - int b - 1)"
    by (simp add: exponent_def pq a_def b_def PQ Let_def)
  show ?thesis using hi lo by (auto simp: e)
qed


section \<open>The laws of rounding\<close>

text \<open>
  What the rate limiter relies on: rounding is monotone, leaves whole numbers up to
  \<open>2 ^ 53\<close> alone, and increases a non-negative number by a relative error of at most
  \<open>2 ^ -53\<close>.
\<close>

definition eps64 :: rat where
  "eps64 = 1 / 2 ^ 53"

locale rounding =
  fixes rnd :: "rat \<Rightarrow> rat"
  assumes rnd_mono: "x \<le> y \<Longrightarrow> rnd x \<le> rnd y"
    and rnd_of_nat: "n \<le> 2 ^ 53 \<Longrightarrow> rnd (of_nat n) = of_nat n"
    and rnd_upper: "0 \<le> x \<Longrightarrow> rnd x \<le> x + x * eps64"
begin

lemma rnd_0 [simp]: "rnd 0 = 0"
  using rnd_of_nat [of 0] by simp

lemma rnd_1 [simp]: "rnd 1 = 1"
  using rnd_of_nat [of 1] by simp

lemma rnd_nonneg: "0 \<le> x \<Longrightarrow> 0 \<le> rnd x"
  using rnd_mono [of 0 x] by simp

end

lemma eps64_pos [simp]: "0 < eps64"
  by (simp add: eps64_def)

lemma powi_less_imp_less: "(2::rat) powi a < 2 powi b \<Longrightarrow> a < b"
  by (rule ccontr) (use power_int_increasing [of b a "2::rat"] in simp)

lemma exponent_mono:
  assumes "0 < x" and "x \<le> y"
  shows "exponent x \<le> exponent y"
proof -
  have "2 powi exponent x < (2::rat) powi (exponent y + 1)"
    using exponent_bounds [of x] exponent_bounds [of y] assms by linarith
  then have "exponent x < exponent y + 1"
    by (rule powi_less_imp_less)
  then show ?thesis by simp
qed

lemma exponent_unique:
  assumes "2 powi e \<le> x" and "x < 2 powi (e + 1)"
  shows "exponent x = e"
proof -
  have x: "0 < x" using assms(1) zero_less_power_int [of "2::rat" e] by linarith
  have "2 powi e < (2::rat) powi (exponent x + 1)" "2 powi exponent x < (2::rat) powi (e + 1)"
    using exponent_bounds [OF x] assms by linarith+
  then show ?thesis by (auto dest!: powi_less_imp_less)
qed

lemma rnd_pos_bounds:
  assumes "0 < x"
  shows "2 powi exponent x \<le> rnd_pos x" and "rnd_pos x \<le> 2 powi (exponent x + 1)"
proof -
  define u :: rat where "u = 2 powi (exponent x - 52)"
  have u: "0 < u" and lo_u: "2 powi exponent x = 2 ^ 52 * u"
    and hi_u: "2 powi (exponent x + 1) = 2 ^ 53 * u"
    by (simp_all add: u_def power_int_diff power_int_add)
  have lo: "of_int (2 ^ 52) \<le> x / u" and hi: "x / u \<le> of_int (2 ^ 53)"
    using exponent_bounds [OF assms] u lo_u hi_u by (simp_all add: field_simps)
  have "2 ^ 52 \<le> round_even (x / u)" and "round_even (x / u) \<le> 2 ^ 53"
    using round_even_mono [OF lo] round_even_mono [OF hi] by (simp_all only: round_even_of_int)
  then have "of_int (2 ^ 52) \<le> (of_int (round_even (x / u)) :: rat)"
    "of_int (round_even (x / u)) \<le> (of_int (2 ^ 53) :: rat)"
    by (simp_all only: of_int_le_iff)
  then show "2 powi exponent x \<le> rnd_pos x" and "rnd_pos x \<le> 2 powi (exponent x + 1)"
    using u by (simp_all add: rnd_pos_def Let_def flip: u_def) (simp_all add: lo_u hi_u)
qed

lemma rnd_pos_mono:
  assumes "0 < x" and "x \<le> y"
  shows "rnd_pos x \<le> rnd_pos y"
proof (cases "exponent x = exponent y")
  case True
  have "x / 2 powi (exponent y - 52) \<le> y / 2 powi (exponent y - 52)"
    using assms by (intro divide_right_mono) auto
  then have "round_even (x / 2 powi (exponent y - 52)) \<le> round_even (y / 2 powi (exponent y - 52))"
    by (rule round_even_mono)
  then show ?thesis
    by (auto simp: rnd_pos_def True Let_def intro!: mult_right_mono)
next
  case False
  with exponent_mono [OF assms] have "exponent x + 1 \<le> exponent y" by simp
  then have "2 powi (exponent x + 1) \<le> (2::rat) powi exponent y"
    by (intro power_int_increasing) auto
  with rnd_pos_bounds [of x] rnd_pos_bounds [of y] assms show ?thesis by force
qed

lemma rnd_pos_pos: "0 < x \<Longrightarrow> 0 < rnd_pos x"
  by (rule less_le_trans [OF _ rnd_pos_bounds(1)]) simp_all

lemma rnd64_mono: "x \<le> y \<Longrightarrow> rnd64 x \<le> rnd64 y"
  using rnd_pos_mono [of x y] rnd_pos_mono [of "- y" "- x"] rnd_pos_pos [of y] rnd_pos_pos [of "- x"]
  by (auto simp: rnd64_def)

lemma rnd_pos_exact:
  assumes "0 < x" and "x = of_int k * 2 powi (exponent x - 52)"
  shows "rnd_pos x = x"
proof -
  have "x / 2 powi (exponent x - 52) = of_int k"
    using assms(2) by (metis nonzero_mult_div_cancel_right power_int_not_zero zero_neq_numeral)
  then show ?thesis using assms(2) by (simp add: rnd_pos_def Let_def)
qed

lemma rnd64_of_nat:
  assumes "n \<le> 2 ^ 53"
  shows "rnd64 (of_nat n) = of_nat n"
proof (cases "n = 0 \<or> n = 2 ^ 53")
  case True
  have e: "exponent (2 ^ 53) = 53" by (rule exponent_unique) simp_all
  have "rnd_pos (2 ^ 53) = 2 ^ 53"
    by (rule rnd_pos_exact [where k = "2 ^ 52"]) (simp, simp only: e, simp)
  with True show ?thesis by (auto simp: rnd64_def)
next
  case False
  define e where "e = exponent (of_nat n)"
  have n: "0 < n" "n < 2 ^ 53" using False assms by auto
  then have "(of_nat n :: rat) < 2 ^ 53"
    by (metis of_nat_less_iff of_nat_numeral of_nat_power)
  then have "2 powi e < (2::rat) powi 53"
    using exponent_bounds [of "of_nat n"] n by (simp add: e_def)
  then have e: "e \<le> 52"
    using powi_less_imp_less [of e 53] by simp
  have one: "(2::rat) ^ nat (52 - e) * 2 powi (e - 52) = 1"
  proof -
    have "e - 52 = - int (nat (52 - e))" using e by simp
    then show ?thesis by (simp only: power_int_minus power_int_of_nat) simp
  qed
  have "(of_nat n :: rat) = of_nat n * (2 ^ nat (52 - e) * 2 powi (e - 52))"
    by (simp only: one mult_1_right)
  also have "\<dots> = of_int (int n * 2 ^ nat (52 - e)) * 2 powi (e - 52)"
    by (simp only: of_int_mult of_int_of_nat_eq of_int_power of_int_numeral mult.assoc)
  finally have eq: "(of_nat n :: rat) = of_int (int n * 2 ^ nat (52 - e)) * 2 powi (e - 52)" .
  have "rnd_pos (of_nat n) = of_nat n"
    by (rule rnd_pos_exact [OF _ eq [unfolded e_def]]) (use n in simp)
  with n show ?thesis by (simp add: rnd64_def)
qed

lemma rnd64_upper:
  assumes "0 \<le> x"
  shows "rnd64 x \<le> x + x * eps64"
proof (cases "x = 0")
  case True
  then show ?thesis by (simp add: rnd64_def)
next
  case False
  then have x: "0 < x" using assms by simp
  define u :: rat where "u = 2 powi (exponent x - 52)"
  have u: "0 < u" "u * 2 ^ 52 \<le> x"
    using exponent_bounds [OF x] by (simp_all add: u_def power_int_diff)
  have "of_int (round_even (x / u)) * u \<le> (x / u + 1/2) * u"
    using u(1) round_even_upper by (intro mult_right_mono) auto
  also have "\<dots> = x + u / 2" using u(1) by (simp add: field_simps)
  also have "\<dots> \<le> x + x * eps64" using u(2) by (simp add: eps64_def)
  finally show ?thesis using x by (simp add: rnd64_def rnd_pos_def Let_def flip: u_def)
qed

lemma rnd64_separates:
  assumes "0 \<le> x" "x + x * eps64 < 2 powi e" "2 powi e \<le> y" "y < 2 powi (e + 1)"
  shows "rnd64 x < rnd64 y"
proof -
  have "0 < y" using assms(3) by (rule less_le_trans [rotated]) simp
  moreover have "exponent y = e" by (rule exponent_unique) (use assms(3,4) in simp_all)
  ultimately have "2 powi e \<le> rnd64 y" using rnd_pos_bounds(1) [of y] by (simp add: rnd64_def)
  with rnd64_upper [OF assms(1)] assms(2) show ?thesis by linarith
qed

interpretation f64: rounding rnd64
  by unfold_locales (fact rnd64_mono rnd64_of_nat rnd64_upper)+

end
