(* ===== verification/Rate_Limit.thy ===== *)
theory Rate_Limit
  imports Go_Float LRU_Cache "HOL-Library.Signed_Division"
begin

text \<open>
  \<open>core/ratelimit\<close>: the per-key token bucket limiter and the client-IP extraction that
  keys it. The limiter's cache maps a key to a pointer; the buckets live in a heap and are
  updated in place through that pointer, as in the source, so the invariant has to say that
  no two keys share a bucket.
\<close>

section \<open>State\<close>

record bucket =
  tokens :: rat
  last_at :: instant

record 'c limiter =
  capacity :: rat
  refill_per_sec :: rat
  buckets :: 'c
  heap :: "bucket list"

type_synonym 'c bucket_lru = "('c, string, nat) lru_ops"

definition default_max_ips :: int where
  "default_max_ips = 10000"

text \<open>\<open>Duration.Seconds\<close>: whole seconds plus the remaining nanoseconds over 1e9, in floats.\<close>

definition seconds :: "duration \<Rightarrow> rat" where
  "seconds d = rnd64 (rnd64 (of_int (d sdiv 1000000000)) +
     rnd64 (rnd64 (of_int (d smod 1000000000)) / 1000000000))"

section \<open>Operations\<close>

definition new_limiter :: "'c bucket_lru \<Rightarrow> int \<Rightarrow> duration \<Rightarrow> int \<Rightarrow> 'c limiter result" where
  "new_limiter L count interval max_ips =
     (if count \<le> 0 then Err ''ratelimit: count must be positive''
      else if interval \<le> 0 then Err ''ratelimit: interval must be positive''
      else let n = (if max_ips \<le> 0 then default_max_ips else max_ips)
        in Ok \<lparr>capacity = rnd64 (of_int count),
               refill_per_sec = rnd64 (rnd64 (of_int count) / seconds interval),
               buckets = lru_new L (nat n), heap = []\<rparr>)"

text \<open>What \<open>allowAt\<close> does to the bucket itself: refill by the elapsed time, then take a token.\<close>

definition refill :: "rat \<Rightarrow> rat \<Rightarrow> instant \<Rightarrow> bucket \<Rightarrow> bucket" where
  "refill cap rate now b =
     (let elapsed = seconds (time_sub now (last_at b))
      in if elapsed > 0
         then \<lparr>tokens = min cap (rnd64 (tokens b + rnd64 (elapsed * rate))), last_at = now\<rparr>
         else b)"

definition take_token :: "rat \<Rightarrow> rat \<Rightarrow> instant \<Rightarrow> bucket \<Rightarrow> bool \<times> bucket" where
  "take_token cap rate now b =
     (let b1 = refill cap rate now b
      in if 1 \<le> tokens b1 then (True, b1\<lparr>tokens := rnd64 (tokens b1 - 1)\<rparr>) else (False, b1))"

definition allow_at :: "'c bucket_lru \<Rightarrow> 'c limiter \<Rightarrow> string \<Rightarrow> instant \<Rightarrow> bool \<times> 'c limiter" where
  "allow_at L l ip now =
     (let (got, c1) = lru_get L (buckets l) ip;
          (p, l1) = (case got of
             Some p \<Rightarrow> (p, l\<lparr>buckets := c1\<rparr>)
           | None \<Rightarrow> (length (heap l),
               l\<lparr>buckets := lru_add L c1 ip (length (heap l)),
                 heap := heap l @ [\<lparr>tokens = capacity l, last_at = now\<rparr>]\<rparr>));
          (granted, b) = take_token (capacity l1) (refill_per_sec l1) now (heap l1 ! p)
      in (granted, l1\<lparr>heap := (heap l1)[p := b]\<rparr>))"

definition limiter_len :: "'c bucket_lru \<Rightarrow> 'c limiter \<Rightarrow> nat" where
  "limiter_len L l = lru_len L (buckets l)"

text \<open>A sequence of requests, each a key and its arrival time.\<close>

fun allow_run :: "'c bucket_lru \<Rightarrow> 'c limiter \<Rightarrow> (string \<times> instant) list \<Rightarrow> bool list \<times> 'c limiter" where
  "allow_run L l [] = ([], l)"
| "allow_run L l ((ip, now) # rs) =
     (let (g, l1) = allow_at L l ip now; (gs, l2) = allow_run L l1 rs in (g # gs, l2))"

text \<open>The same for one bucket.\<close>

fun bucket_run :: "rat \<Rightarrow> rat \<Rightarrow> bucket \<Rightarrow> instant list \<Rightarrow> bool list \<times> bucket" where
  "bucket_run cap rate b [] = ([], b)"
| "bucket_run cap rate b (t # ts) =
     (let (g, b1) = take_token cap rate t b; (gs, b2) = bucket_run cap rate b1 ts in (g # gs, b2))"

text \<open>The answers one key got, and when it asked.\<close>

definition times_of :: "string \<Rightarrow> (string \<times> instant) list \<Rightarrow> instant list" where
  "times_of ip rs = map snd (filter (\<lambda>r. fst r = ip) rs)"

definition grants_of :: "string \<Rightarrow> (string \<times> instant) list \<Rightarrow> bool list \<Rightarrow> bool list" where
  "grants_of ip rs gs = map snd (filter (\<lambda>rg. fst (fst rg) = ip) (zip rs gs))"

section \<open>One bucket\<close>

definition bucket_ok :: "rat \<Rightarrow> bucket \<Rightarrow> bool" where
  "bucket_ok cap b \<longleftrightarrow> 0 \<le> tokens b \<and> tokens b \<le> cap"

text \<open>The rounded elapsed time never has the wrong sign, so a clock that steps back refills nothing.\<close>

lemma sdiv_second_nonneg: "0 \<le> d \<Longrightarrow> 0 \<le> d sdiv 1000000000" "d \<le> 0 \<Longrightarrow> d sdiv 1000000000 \<le> (0::int)"
  "0 \<le> d \<Longrightarrow> 0 \<le> d smod 1000000000" "d \<le> 0 \<Longrightarrow> d smod 1000000000 \<le> (0::int)"
  by (auto simp: signed_divide_int_def signed_modulo_int_def sgn_if)

lemma seconds_nonneg: "0 \<le> d \<Longrightarrow> 0 \<le> seconds d"
  unfolding seconds_def by (intro f64.rnd_nonneg add_nonneg_nonneg divide_nonneg_nonneg)
    (auto simp: sdiv_second_nonneg)

lemma rnd64_nonpos: "x \<le> 0 \<Longrightarrow> rnd64 x \<le> 0"
  using f64.rnd_mono [of x 0] by simp

lemma seconds_nonpos: "d \<le> 0 \<Longrightarrow> seconds d \<le> 0"
  unfolding seconds_def
  by (intro rnd64_nonpos add_nonpos_nonpos divide_nonpos_nonneg) (auto simp: sdiv_second_nonneg)

lemma seconds_0 [simp]: "seconds 0 = 0"
  using seconds_nonneg [of 0] seconds_nonpos [of 0] by simp

lemma refill_backwards: "now \<le> last_at b \<Longrightarrow> refill cap rate now b = b"
  using seconds_nonpos [of "time_sub now (last_at b)"]
  by (auto simp: refill_def Let_def time_sub_def min_int64_def max_int64_def not_less)

lemma refill_ok: "0 \<le> rate \<Longrightarrow> bucket_ok cap b \<Longrightarrow> bucket_ok cap (refill cap rate now b)"
  by (auto simp: refill_def bucket_ok_def Let_def intro!: f64.rnd_nonneg add_nonneg_nonneg
      mult_nonneg_nonneg)

text \<open>
  Taking a token cannot leave more than there was: the rounded difference is still at
  most the capacity, because the capacity is a float.
\<close>

lemma take_token_ok:
  assumes "0 \<le> rate" and "bucket_ok cap b" and "rnd64 cap = cap"
  shows "bucket_ok cap (snd (take_token cap rate now b))"
proof -
  have r: "bucket_ok cap (refill cap rate now b)" using assms(1,2) by (rule refill_ok)
  have "rnd64 (tokens (refill cap rate now b) - 1) \<le> rnd64 cap"
    using r by (intro f64.rnd_mono) (simp add: bucket_ok_def)
  with r assms(3) show ?thesis
    by (auto simp: take_token_def bucket_ok_def Let_def intro!: f64.rnd_nonneg)
qed

lemma take_token_denied:
  "\<not> fst (take_token cap rate now b) \<Longrightarrow> snd (take_token cap rate now b) = refill cap rate now b"
  by (simp add: take_token_def Let_def split: if_splits)

lemma take_token_same_instant:
  assumes "now \<le> last_at b" and "tokens b = of_nat k" and "k \<le> 2 ^ 53"
  shows "take_token cap rate now b = (0 < k, b\<lparr>tokens := of_nat (k - 1)\<rparr>)"
proof (cases k)
  case 0
  then show ?thesis using assms by (simp add: take_token_def refill_backwards)
next
  case (Suc m)
  then have "rnd64 (tokens b - 1) = of_nat m" using assms by (simp add: f64.rnd_of_nat)
  then show ?thesis using assms Suc by (simp add: take_token_def refill_backwards)
qed

lemma bucket_run_same_instant:
  assumes "\<forall>t \<in> set ts. t \<le> last_at b" and "tokens b = of_nat k" and "k \<le> 2 ^ 53"
  shows "fst (bucket_run cap rate b ts) =
    replicate (min k (length ts)) True @ replicate (length ts - k) False"
  using assms
proof (induction ts arbitrary: b k)
  case (Cons t ts)
  have tt: "take_token cap rate t b = (0 < k, b\<lparr>tokens := of_nat (k - 1)\<rparr>)"
    using Cons.prems by (intro take_token_same_instant) auto
  have "fst (bucket_run cap rate (b\<lparr>tokens := of_nat (k - 1)\<rparr>) ts) =
    replicate (min (k - 1) (length ts)) True @ replicate (length ts - (k - 1)) False"
    using Cons.prems by (intro Cons.IH) auto
  then show ?case by (cases k) (simp_all add: tt case_prod_beta)
qed simp

section \<open>The bound over a window\<close>

text \<open>
  How far rounding can inflate the refill: four roundings lie between the elapsed
  nanoseconds and the tokens they add.
\<close>

definition slack :: rat where
  "slack = (1 + eps64) ^ 4"

lemma rnd64_scale: "0 \<le> x \<Longrightarrow> rnd64 x \<le> x * (1 + eps64)"
  using f64.rnd_upper [of x] by (simp add: algebra_simps)

lemma seconds_upper:
  assumes "0 \<le> d"
  shows "seconds d \<le> of_int d / 1000000000 * (1 + eps64) ^ 3"
proof -
  define s n where "s = d sdiv 1000000000" and "n = d smod 1000000000"
  have d: "d = 1000000000 * s + n" and pos: "0 \<le> s" "0 \<le> n"
    using assms by (auto simp: s_def n_def signed_divide_int_def signed_modulo_int_def sgn_if)
  have sq: "(1 + eps64) \<le> (1 + eps64) ^ 2"
    by (rule self_le_power) (auto simp: less_imp_le)
  have a: "rnd64 (of_int s) \<le> of_int s * (1 + eps64) ^ 2"
    using rnd64_scale [of "of_int s"] pos(1) sq
    by (meson mult_left_mono of_int_0_le_iff order_trans)
  have "rnd64 (rnd64 (of_int n) / 1000000000) \<le> rnd64 (of_int n * (1 + eps64) / 1000000000)"
    using rnd64_scale [of "of_int n"] pos(2) by (intro f64.rnd_mono divide_right_mono) auto
  also have "\<dots> \<le> of_int n / 1000000000 * (1 + eps64) ^ 2"
    using rnd64_scale [of "of_int n * (1 + eps64) / 1000000000"] pos(2)
    by (simp add: power2_eq_square less_imp_le)
  finally have b: "rnd64 (rnd64 (of_int n) / 1000000000) \<le> of_int n / 1000000000 * (1 + eps64) ^ 2" .
  have tot: "of_int s + of_int n / 1000000000 = (of_int d / 1000000000 :: rat)"
    by (simp add: d add_divide_distrib)
  have "seconds d \<le> rnd64 (of_int d / 1000000000 * (1 + eps64) ^ 2)"
    unfolding seconds_def s_def [symmetric] n_def [symmetric] tot [symmetric]
    using a b by (intro f64.rnd_mono) (simp add: distrib_right)
  also have "\<dots> \<le> of_int d / 1000000000 * (1 + eps64) ^ 2 * (1 + eps64)"
    using assms by (intro rnd64_scale) (auto simp: less_imp_le)
  finally show ?thesis by (simp add: power_numeral_reduce)
qed

lemma min_rnd_upper: "0 \<le> y \<Longrightarrow> 0 \<le> cap \<Longrightarrow> min cap (rnd64 y) \<le> y + cap * eps64"
proof (cases "y \<le> cap")
  case True
  assume y: "0 \<le> y"
  have "y * eps64 \<le> cap * eps64"
    using True by (rule mult_right_mono) (simp add: less_imp_le)
  with f64.rnd_upper [OF y] show ?thesis by linarith
next
  case False
  assume "0 \<le> cap"
  with False show ?thesis by (simp add: min.coboundedI1 less_imp_le add_increasing2)
qed

lemma refill_upper:
  assumes "0 \<le> rate" and "bucket_ok cap b"
  shows "tokens (refill cap rate now b) \<le> tokens b +
    of_int (last_at (refill cap rate now b) - last_at b) / 1000000000 * rate * slack + cap * eps64"
    (is "_ \<le> _ + ?r + _")
    and "last_at b \<le> last_at (refill cap rate now b)"
proof -
  have cap: "0 \<le> cap" "0 \<le> tokens b" using assms(2) by (auto simp: bucket_ok_def)
  define d where "d = time_sub now (last_at b)"
  show "last_at b \<le> last_at (refill cap rate now b)"
    by (cases "now \<le> last_at b") (simp add: refill_backwards, simp add: refill_def Let_def)
  show "tokens (refill cap rate now b) \<le> tokens b + ?r + cap * eps64"
  proof (cases "seconds d > 0")
    case False
    then show ?thesis using cap by (simp add: refill_def Let_def d_def less_imp_le)
  next
    case True
    then have pos: "0 < d" using seconds_nonpos [of d] by (meson not_le)
    then have now: "last_at b < now" by (simp add: d_def)
    have d: "0 \<le> d" "d \<le> now - last_at b"
      using pos time_sub_le [of "last_at b" now] now unfolding d_def by linarith+
    define e where "e = of_int (now - last_at b) / (1000000000::rat)"
    have "of_int d / 1000000000 \<le> e" using d(2) unfolding e_def
      by (intro divide_right_mono) (metis of_int_le_iff, simp)
    then have "seconds d \<le> e * (1 + eps64) ^ 3"
      using seconds_upper [OF d(1)] by (meson mult_right_mono order_trans zero_le_power
        add_nonneg_nonneg eps64_pos less_imp_le zero_le_one)
    then have "rnd64 (seconds d * rate) \<le> rnd64 (e * (1 + eps64) ^ 3 * rate)"
      using assms(1) by (intro f64.rnd_mono mult_right_mono) auto
    also have "\<dots> \<le> e * (1 + eps64) ^ 3 * rate * (1 + eps64)"
      using assms(1) now by (intro rnd64_scale mult_nonneg_nonneg) (auto simp: e_def less_imp_le)
    also have "\<dots> = e * rate * slack" by (simp add: slack_def power_numeral_reduce)
    finally have add: "rnd64 (seconds d * rate) \<le> e * rate * slack" .
    have "0 \<le> rnd64 (seconds d * rate)"
      using assms(1) True by (intro f64.rnd_nonneg) simp
    then have "min cap (rnd64 (tokens b + rnd64 (seconds d * rate))) \<le>
      tokens b + rnd64 (seconds d * rate) + cap * eps64"
      using cap by (intro min_rnd_upper) auto
    with add True show ?thesis by (simp add: refill_def Let_def d_def e_def)
  qed
qed

lemma take_token_upper:
  assumes "0 \<le> rate" and "bucket_ok cap b" and "take_token cap rate now b = (g, b')"
  shows "of_bool g + tokens b' \<le> tokens b +
    of_int (last_at b' - last_at b) / 1000000000 * rate * slack + 2 * cap * eps64"
    and "last_at b \<le> last_at b'"
proof -
  let ?r = "refill cap rate now b"
  have r: "bucket_ok cap ?r" using assms(1,2) by (rule refill_ok)
  have up: "tokens ?r \<le> tokens b + of_int (last_at ?r - last_at b) / 1000000000 * rate * slack + cap * eps64"
    and la: "last_at b \<le> last_at ?r"
    using refill_upper [OF assms(1,2)] by auto
  have ce: "0 \<le> cap * eps64" using r by (auto simp: bucket_ok_def less_imp_le)
  have "of_bool g + tokens b' \<le> tokens ?r + cap * eps64 \<and> last_at b' = last_at ?r"
  proof (cases g)
    case True
    then have g: "1 \<le> tokens ?r" "b' = ?r\<lparr>tokens := rnd64 (tokens ?r - 1)\<rparr>"
      using assms(3) by (auto simp: take_token_def Let_def split: if_splits)
    have "(tokens ?r - 1) * eps64 \<le> cap * eps64"
      using r by (intro mult_right_mono) (auto simp: bucket_ok_def less_imp_le)
    moreover have "rnd64 (tokens ?r - 1) \<le> tokens ?r - 1 + (tokens ?r - 1) * eps64"
      using g(1) by (intro f64.rnd_upper) simp
    ultimately have "1 + rnd64 (tokens ?r - 1) \<le> tokens ?r + cap * eps64" by linarith
    then show ?thesis using g True by simp
  next
    case False
    then have "b' = ?r" using assms(3) by (auto simp: take_token_def Let_def split: if_splits)
    then show ?thesis using False ce by simp
  qed
  with up la show "of_bool g + tokens b' \<le> tokens b +
    of_int (last_at b' - last_at b) / 1000000000 * rate * slack + 2 * cap * eps64"
    and "last_at b \<le> last_at b'" by (simp_all add: mult.assoc)
qed


text \<open>
  The tokens spent over a run are covered by those in the bucket, the refill over the time
  that passed, and a rounding error of at most two ulps of the capacity per request.
\<close>

lemma bucket_run_upper:
  assumes "0 \<le> rate" and "rnd64 cap = cap" and "bucket_ok cap b"
    and "bucket_run cap rate b ts = (gs, b')"
  shows "of_nat (length (filter id gs)) + tokens b' \<le> tokens b +
    of_int (last_at b' - last_at b) / 1000000000 * rate * slack + of_nat (length ts) * (2 * cap * eps64)"
  using assms(3,4)
proof (induction ts arbitrary: b gs)
  case (Cons t ts)
  obtain g b1 where tt: "take_token cap rate t b = (g, b1)" by fastforce
  obtain gs1 where run: "bucket_run cap rate b1 ts = (gs1, b')" and gs: "gs = g # gs1"
    using Cons.prems(2) by (auto simp: tt split: prod.splits)
  have ok: "bucket_ok cap b1" using take_token_ok [OF assms(1) Cons.prems(1) assms(2), of t] tt by simp
  have split: "of_int (last_at b' - last_at b) / 1000000000 * rate * slack =
    of_int (last_at b' - last_at b1) / 1000000000 * rate * slack +
    (of_int (last_at b1 - last_at b) / 1000000000 * rate * slack :: rat)"
    by (simp add: algebra_simps diff_divide_distrib)
  have n: "of_nat (length (t # ts)) * (2 * cap * eps64) =
    of_nat (length ts) * (2 * cap * eps64) + 2 * cap * eps64"
    by (simp add: distrib_right)
  have g: "of_nat (length (filter id gs)) = (of_bool g + of_nat (length (filter id gs1)) :: rat)"
    by (simp add: gs)
  show ?case
    unfolding split n g
    using Cons.IH [OF ok run] take_token_upper(1) [OF assms(1) Cons.prems(1) tt] by linarith
qed simp

lemma bucket_run_last_at:
  assumes "\<forall>t \<in> set ts. t \<le> t1" and "last_at b \<le> t1"
  shows "last_at (snd (bucket_run cap rate b ts)) \<le> t1"
  using assms
proof (induction ts arbitrary: b)
  case (Cons t ts)
  then have "last_at (snd (take_token cap rate t b)) \<le> t1"
    by (auto simp: take_token_def refill_def Let_def)
  with Cons show ?case by (simp add: case_prod_beta)
qed simp

lemma bucket_run_ok:
  assumes "0 \<le> rate" and "rnd64 cap = cap" and "bucket_ok cap b"
  shows "bucket_ok cap (snd (bucket_run cap rate b ts))"
  using assms(3)
  by (induction ts arbitrary: b)
     (auto simp: case_prod_beta intro: take_token_ok [OF assms(1) _ assms(2)])

section \<open>The limiter as a family of independent buckets\<close>

definition bucket_of :: "('c \<Rightarrow> string \<rightharpoonup> nat) \<Rightarrow> 'c limiter \<Rightarrow> string \<rightharpoonup> bucket" where
  "bucket_of view l ip = map_option ((!) (heap l)) (view (buckets l) ip)"

definition fresh_bucket :: "'c limiter \<Rightarrow> instant \<Rightarrow> bucket" where
  "fresh_bucket l now = \<lparr>tokens = capacity l, last_at = now\<rparr>"

definition limiter_inv :: "('c \<Rightarrow> string \<rightharpoonup> nat) \<Rightarrow> ('c \<Rightarrow> bool) \<Rightarrow> 'c limiter \<Rightarrow> bool" where
  "limiter_inv view ok l \<longleftrightarrow>
     ok (buckets l) \<and>
     (\<forall>ip p. view (buckets l) ip = Some p \<longrightarrow> p < length (heap l)) \<and>
     (\<forall>i j p. view (buckets l) i = Some p \<longrightarrow> view (buckets l) j = Some p \<longrightarrow> i = j) \<and>
     (\<forall>b \<in> set (heap l). bucket_ok (capacity l) b) \<and>
     0 \<le> refill_per_sec l \<and> rnd64 (capacity l) = capacity l \<and> 1 \<le> capacity l"

text \<open>Every tracked key together with the one being asked about fits the cache.\<close>

definition has_room :: "('c \<Rightarrow> string \<rightharpoonup> nat) \<Rightarrow> ('c \<Rightarrow> nat) \<Rightarrow> 'c limiter \<Rightarrow> string set \<Rightarrow> bool" where
  "has_room view size_of l K \<longleftrightarrow> finite K \<and> card (dom (view (buckets l)) \<union> K) \<le> size_of (buckets l)"

locale limiter_cache = lru_cache L view size_of ok
  for L :: "('c, string, nat) lru_ops" and view :: "'c \<Rightarrow> string \<rightharpoonup> nat"
    and size_of :: "'c \<Rightarrow> nat" and ok :: "'c \<Rightarrow> bool"
begin

text \<open>
  One request, in terms of the buckets alone: the key's bucket (a fresh one if the key is
  not tracked) takes the token step; any other key keeps its bucket or has been evicted.
\<close>

lemma allow_at_shape:
  assumes inv: "limiter_inv view ok l" and step: "allow_at L l ip now = (g, l')"
  defines "b0 \<equiv> (case bucket_of view l ip of Some b \<Rightarrow> b | None \<Rightarrow> fresh_bucket l now)"
  obtains p c hp b where
    "take_token (capacity l) (refill_per_sec l) now b0 = (g, b)"
    "l' = l\<lparr>buckets := c, heap := hp[p := b]\<rparr>"
    "ok c" "size_of c = size_of (buckets l)" "view c \<subseteq>\<^sub>m (view (buckets l))(ip \<mapsto> p)" "view c ip = Some p"
    "has_room view size_of l {ip} \<Longrightarrow> view c = (view (buckets l))(ip \<mapsto> p)"
    "p < length hp" "hp ! p = b0" "bucket_ok (capacity l) b0" "length (heap l) \<le> length hp"
    "\<forall>b \<in> set hp. bucket_ok (capacity l) b"
    "\<forall>j q. j \<noteq> ip \<longrightarrow> view (buckets l) j = Some q \<longrightarrow> q \<noteq> p \<and> q < length (heap l) \<and> hp ! q = heap l ! q"
proof -
  have okc: "ok (buckets l)" and cap: "1 \<le> capacity l" using inv by (simp_all add: limiter_inv_def)
  define c1 where "c1 = snd (lru_get L (buckets l) ip)"
  have get: "lru_get L (buckets l) ip = (view (buckets l) ip, c1)"
    using get_val [OF okc, of ip] by (simp add: c1_def prod_eq_iff)
  have c1: "ok c1" "view c1 = view (buckets l)" "size_of c1 = size_of (buckets l)"
    using okc by (simp_all add: c1_def)
  obtain b where tt: "take_token (capacity l) (refill_per_sec l) now b0 = (g, b)"
    using step by (auto simp: allow_at_def get b0_def bucket_of_def fresh_bucket_def Let_def
        split: option.splits prod.splits)
  show thesis
  proof (cases "view (buckets l) ip")
    case (Some p)
    then have b0: "b0 = heap l ! p" by (simp add: b0_def bucket_of_def)
    have p: "p < length (heap l)" using inv Some by (auto simp: limiter_inv_def)
    have l': "l' = l\<lparr>buckets := c1, heap := (heap l)[p := b]\<rparr>"
      using step tt by (simp add: allow_at_def get Some b0)
    show thesis
      using inv p b0 Some c1 by (intro that [OF tt l']) (auto simp: limiter_inv_def fun_upd_idem)
  next
    case None
    define p where "p = length (heap l)"
    have b0: "b0 = fresh_bucket l now" by (simp add: b0_def bucket_of_def None)
    have ok0: "bucket_ok (capacity l) b0" using cap by (simp add: b0 fresh_bucket_def bucket_ok_def)
    have l': "l' = l\<lparr>buckets := lru_add L c1 ip p, heap := (heap l @ [b0])[p := b]\<rparr>"
      using step tt by (simp add: allow_at_def get None b0 fresh_bucket_def p_def)
    have room: "view (lru_add L c1 ip p) = (view (buckets l))(ip \<mapsto> p)" if "has_room view size_of l {ip}"
      using that None add_room [OF c1(1), of ip p] len_view [OF okc]
      by (simp add: c1 has_room_def domIff)
    have "view (lru_add L c1 ip p) \<subseteq>\<^sub>m (view (buckets l))(ip \<mapsto> p)"
      using add_view_le [OF c1(1), of ip p] by (simp add: c1)
    then show thesis
      using inv c1 ok0 room
      by (intro that [OF tt l']) (auto simp: limiter_inv_def p_def nth_append)
  qed
qed

lemma allow_at_refines:
  assumes inv: "limiter_inv view ok l" and step: "allow_at L l ip now = (g, l')"
  defines "b0 \<equiv> (case bucket_of view l ip of Some b \<Rightarrow> b | None \<Rightarrow> fresh_bucket l now)"
  shows "\<exists>b. take_token (capacity l) (refill_per_sec l) now b0 = (g, b) \<and> bucket_of view l' ip = Some b"
    and "j \<noteq> ip \<Longrightarrow> bucket_of view l' j \<in> {bucket_of view l j, None}"
    and "has_room view size_of l {ip} \<Longrightarrow> j \<noteq> ip \<Longrightarrow> bucket_of view l' j = bucket_of view l j"
    and "limiter_inv view ok l'"
    and "capacity l' = capacity l" and "refill_per_sec l' = refill_per_sec l"
    and "size_of (buckets l') = size_of (buckets l)"
    and "dom (view (buckets l')) \<subseteq> insert ip (dom (view (buckets l)))"
proof -
  obtain p c hp b where tt: "take_token (capacity l) (refill_per_sec l) now b0 = (g, b)"
    and l': "l' = l\<lparr>buckets := c, heap := hp[p := b]\<rparr>"
    and c: "ok c" "size_of c = size_of (buckets l)" "view c \<subseteq>\<^sub>m (view (buckets l))(ip \<mapsto> p)"
      "view c ip = Some p"
    and room: "has_room view size_of l {ip} \<Longrightarrow> view c = (view (buckets l))(ip \<mapsto> p)"
    and p: "p < length hp" "hp ! p = b0" "bucket_ok (capacity l) b0" "length (heap l) \<le> length hp"
    and hp: "\<forall>b \<in> set hp. bucket_ok (capacity l) b"
      "\<forall>j q. j \<noteq> ip \<longrightarrow> view (buckets l) j = Some q \<longrightarrow> q \<noteq> p \<and> q < length (heap l) \<and> hp ! q = heap l ! q"
    using allow_at_shape [OF inv step] unfolding b0_def by metis
  have below: "view (buckets l) j = Some q" if "view c j = Some q" "j \<noteq> ip" for j q
    using c(3) that by (auto simp: map_le_def dom_def split: if_splits)
  show "\<exists>b. take_token (capacity l) (refill_per_sec l) now b0 = (g, b) \<and> bucket_of view l' ip = Some b"
    using tt p(1) by (simp add: l' bucket_of_def c(4))
  show "bucket_of view l' j \<in> {bucket_of view l j, None}" if "j \<noteq> ip"
    using that hp(2) below by (cases "view c j") (auto simp: l' bucket_of_def)
  show "bucket_of view l' j = bucket_of view l j" if "has_room view size_of l {ip}" "j \<noteq> ip"
    using that hp(2) room by (cases "view (buckets l) j") (auto simp: l' bucket_of_def)
  have "bucket_ok (capacity l) b"
    using take_token_ok [OF _ p(3)] inv tt by (metis limiter_inv_def snd_conv)
  then have heap_ok: "\<forall>x \<in> set (hp[p := b]). bucket_ok (capacity l) x"
    using hp(1) set_update_subset_insert [of hp p b] by auto
  have ptr: "\<forall>j q. view c j = Some q \<longrightarrow> q < length hp"
    using p hp(2) below c(4) by (metis less_le_trans option.inject)
  have inj: "\<forall>i j q. view c i = Some q \<longrightarrow> view c j = Some q \<longrightarrow> i = j"
    using hp(2) below c(4) inv unfolding limiter_inv_def by metis
  show "limiter_inv view ok l'"
    using inv heap_ok ptr inj c(1) by (auto simp: l' limiter_inv_def)
  show "dom (view (buckets l')) \<subseteq> insert ip (dom (view (buckets l)))"
    using map_le_implies_dom_le [OF c(3)] by (auto simp: l')
  show "capacity l' = capacity l" "refill_per_sec l' = refill_per_sec l"
    "size_of (buckets l') = size_of (buckets l)" by (simp_all add: l' c(2))
qed

lemma allow_run_inv:
  assumes "limiter_inv view ok l"
  shows "limiter_inv view ok (snd (allow_run L l rs)) \<and>
    size_of (buckets (snd (allow_run L l rs))) = size_of (buckets l) \<and>
    capacity (snd (allow_run L l rs)) = capacity l"
  using assms
proof (induction rs arbitrary: l)
  case (Cons r rs)
  obtain g l1 where a: "allow_at L l (fst r) (snd r) = (g, l1)" by fastforce
  then show ?case
    using Cons.IH [OF allow_at_refines(4) [OF Cons.prems a]] allow_at_refines(5,7) [OF Cons.prems a]
    by (cases r) (simp add: case_prod_beta)
qed simp

lemma has_room_subset: "has_room view size_of l K \<Longrightarrow> K' \<subseteq> K \<Longrightarrow> ok (buckets l) \<Longrightarrow> has_room view size_of l K'"
  unfolding has_room_def
  by (meson Un_mono card_mono finite_Un finite_subset len_view order_refl order_trans)

lemma has_room_step:
  assumes "limiter_inv view ok l" and "allow_at L l ip now = (g, l')" and "ip \<in> K"
    and "has_room view size_of l K"
  shows "has_room view size_of l' K"
proof -
  have "dom (view (buckets l')) \<union> K \<subseteq> dom (view (buckets l)) \<union> K"
    using allow_at_refines(8) [OF assms(1,2)] assms(3) by auto
  moreover have "finite (dom (view (buckets l)) \<union> K)"
    using assms(1,4) len_view by (auto simp: has_room_def limiter_inv_def)
  ultimately have "card (dom (view (buckets l')) \<union> K) \<le> card (dom (view (buckets l)) \<union> K)"
    by (rule card_mono [rotated])
  then show ?thesis
    using assms(4) allow_at_refines(7) [OF assms(1,2)] by (simp add: has_room_def)
qed

text \<open>
  While every key fits the cache, the limiter is a family of independent buckets: what one
  key is granted depends on its own request times only.
\<close>

lemma allow_run_independent:
  assumes "limiter_inv view ok l" and "has_room view size_of l (insert ip (fst ` set rs))"
  defines "b0 \<equiv> (case bucket_of view l ip of Some b \<Rightarrow> b | None \<Rightarrow> fresh_bucket l (hd (times_of ip rs)))"
  shows "grants_of ip rs (fst (allow_run L l rs)) =
    fst (bucket_run (capacity l) (refill_per_sec l) b0 (times_of ip rs))"
  using assms(1,2) unfolding b0_def
proof (induction rs arbitrary: l)
  case (Cons r rs)
  obtain k t where r: "r = (k, t)" by (cases r)
  obtain g l1 where a: "allow_at L l k t = (g, l1)" by fastforce
  let ?K = "insert ip (fst ` set (r # rs))"
  have okc: "ok (buckets l)" using Cons.prems(1) by (simp add: limiter_inv_def)
  have room: "has_room view size_of l {k}"
    by (rule has_room_subset [OF Cons.prems(2) _ okc]) (simp add: r)
  note ref = allow_at_refines [OF Cons.prems(1) a]
  have "has_room view size_of l1 ?K"
    by (rule has_room_step [OF Cons.prems(1) a _ Cons.prems(2)]) (simp add: r)
  then have room1: "has_room view size_of l1 (insert ip (fst ` set rs))"
    by (rule has_room_subset) (use ref(4) in \<open>auto simp: limiter_inv_def\<close>)
  note IH = Cons.IH [OF ref(4) room1]
  show ?case
  proof (cases "k = ip")
    case True
    from ref(1) obtain b where b: "take_token (capacity l) (refill_per_sec l) t
        (case bucket_of view l ip of None \<Rightarrow> fresh_bucket l t | Some b \<Rightarrow> b) = (g, b)"
      "bucket_of view l1 ip = Some b" using True by blast
    have a1: "allow_at L l ip t = (g, l1)" and hd: "hd (times_of ip (r # rs)) = t"
      using a True by (simp_all add: r times_of_def)
    show ?thesis
      unfolding hd using IH b a1
      by (simp add: r True case_prod_beta grants_of_def times_of_def ref(5,6))
  next
    case False
    then have "bucket_of view l1 ip = bucket_of view l ip" using ref(3) [OF room] by simp
    moreover have hd: "times_of ip (r # rs) = times_of ip rs"
      using False by (simp add: r times_of_def)
    moreover have fb: "fresh_bucket l1 = fresh_bucket l" by (simp add: fresh_bucket_def ref(5) fun_eq_iff)
    ultimately show ?thesis
      unfolding hd using IH [unfolded fb] False
      by (simp add: r a case_prod_beta grants_of_def ref(5,6))
  qed
qed (simp add: grants_of_def times_of_def)

lemma new_limiter_inv:
  assumes "new_limiter L count interval max_ips = Ok l" and "count \<le> 2 ^ 53"
  shows "limiter_inv view ok l" and "capacity l = of_int count"
    and "view (buckets l) = Map.empty" and "0 < count" and "0 \<le> refill_per_sec l"
    and "size_of (buckets l) = nat (if max_ips \<le> 0 then default_max_ips else max_ips)"
proof -
  have c: "0 < count" "0 < interval" using assms(1) by (auto simp: new_limiter_def split: if_splits)
  have "rnd64 (of_nat (nat count)) = of_nat (nat count)"
    using assms(2) c by (intro f64.rnd_of_nat) (simp add: nat_le_iff)
  then have cap: "rnd64 (of_int count) = of_int count" using c by simp
  show "limiter_inv view ok l" "capacity l = of_int count" "view (buckets l) = Map.empty"
    "0 < count" "0 \<le> refill_per_sec l"
    "size_of (buckets l) = nat (if max_ips \<le> 0 then default_max_ips else max_ips)"
    using assms(1) c
    by (auto simp: new_limiter_def limiter_inv_def cap default_max_ips_def Let_def split: if_splits
        intro!: f64.rnd_nonneg divide_nonneg_nonneg seconds_nonneg)
qed

end

interpretation ll_limiter: limiter_cache list_lru ll_view fst ll_ok
  by unfold_locales

lemma limiter_cache_iff: "limiter_cache L view size_of ok \<longleftrightarrow> lru_cache L view size_of ok"
  by (simp add: limiter_cache_def)

lemma grants_of_length: "length gs = length rs \<Longrightarrow> length (grants_of ip rs gs) = length (times_of ip rs)"
  by (induction gs rs rule: list_induct2) (auto simp: grants_of_def times_of_def)

lemma set_times_of: "set (times_of ip rs) \<subseteq> snd ` set rs"
  by (auto simp: times_of_def)

section \<open>Properties of the limiter\<close>

text \<open>
  C3: the limiter keeps its invariant over any sequence of requests, at any clock readings
  (also a clock that steps back) and any key rotation: every bucket holds between 0 and
  \<open>capacity\<close> tokens, no two tracked keys share a bucket, and never more than \<open>maxIPs\<close>
  keys are tracked.
\<close>

theorem limiter_invariant:
  assumes "lru_cache L view size_of ok" and "new_limiter L count interval max_ips = Ok l"
    and "count \<le> 2 ^ 53" and "allow_run L l rs = (gs, l')"
  shows "limiter_inv view ok l' \<and>
    limiter_len L l' \<le> nat (if max_ips \<le> 0 then default_max_ips else max_ips)"
proof -
  have lc: "limiter_cache L view size_of ok" using assms(1) by (simp add: limiter_cache_iff)
  note new = limiter_cache.new_limiter_inv [OF lc assms(2,3)]
  note run = limiter_cache.allow_run_inv [OF lc new(1), of rs]
  then have inv: "limiter_inv view ok l'"
    and size: "size_of (buckets l') = nat (if max_ips \<le> 0 then default_max_ips else max_ips)"
    using new(6) by (simp_all add: assms(4))
  have "lru_len L (buckets l') \<le> size_of (buckets l')"
    using inv by (intro lru_cache.len_bound [OF assms(1)]) (simp add: limiter_inv_def)
  with inv show ?thesis by (simp only: limiter_len_def size simp_thms)
qed

text \<open>A limiter for the witnesses: two requests per second, two keys tracked.\<close>

definition demo_limiter :: "(string, nat) list_lru limiter" where
  "demo_limiter = \<lparr>capacity = rnd64 (of_int 2),
     refill_per_sec = rnd64 (rnd64 (of_int 2) / seconds second), buckets = (2, []), heap = []\<rparr>"

lemma demo_limiter_new: "new_limiter list_lru 2 second 2 = Ok demo_limiter"
  by (simp add: new_limiter_def second_def demo_limiter_def Let_def)

theorem limiter_invariant_witness:
  "limiter_len list_lru (snd (allow_run list_lru demo_limiter
     [(''a'', 0), (''b'', 0), (''c'', 5), (''a'', 3)])) \<le> nat 2"
proof -
  obtain gs l' where run: "allow_run list_lru demo_limiter
      [(''a'', 0), (''b'', 0), (''c'', 5), (''a'', 3)] = (gs, l')"
    by fastforce
  show ?thesis
    using limiter_invariant [OF ll.lru_cache_axioms demo_limiter_new _ run] run by simp
qed





text \<open>
  Keys do not disturb each other. One request either leaves another key's bucket as it
  was or evicts it; while the cache has room it is never evicted. A denied request takes no
  token.
\<close>

theorem rate_limit_isolation:
  assumes lru: "lru_cache L view size_of ok" and inv: "limiter_inv view ok l"
    and step: "allow_at L l ip now = (g, l')" and other: "j \<noteq> ip"
  shows "(bucket_of view l' j = bucket_of view l j \<or> bucket_of view l' j = None) \<and>
    (has_room view size_of l {ip} \<longrightarrow> bucket_of view l' j = bucket_of view l j) \<and>
    (\<not> g \<longrightarrow> bucket_of view l' ip = Some (refill (capacity l) (refill_per_sec l) now
      (case bucket_of view l ip of Some b \<Rightarrow> b | None \<Rightarrow> fresh_bucket l now)))"
proof -
  have lc: "limiter_cache L view size_of ok" using lru by (simp add: limiter_cache_iff)
  note ref = limiter_cache.allow_at_refines [OF lc inv step]
  have "bucket_of view l' ip = Some (refill (capacity l) (refill_per_sec l) now
      (case bucket_of view l ip of Some b \<Rightarrow> b | None \<Rightarrow> fresh_bucket l now))" if "\<not> g"
    using ref(1) take_token_denied that by (metis fst_conv snd_conv)
  with ref(2) [OF other] ref(3) [OF _ other] show ?thesis by auto
qed

theorem rate_limit_isolation_witness:
  "let l' = snd (allow_at list_lru demo_limiter ''a'' 0)
   in bucket_of ll_view l' ''b'' = bucket_of ll_view demo_limiter ''b'' \<or> bucket_of ll_view l' ''b'' = None"
proof -
  have inv: "limiter_inv ll_view ll_ok demo_limiter"
    by (rule ll_limiter.new_limiter_inv(1) [OF demo_limiter_new]) simp
  obtain g l' where step: "allow_at list_lru demo_limiter ''a'' 0 = (g, l')" by fastforce
  show ?thesis
    using rate_limit_isolation [OF ll.lru_cache_axioms inv step, of "''b''"] step by (auto simp: Let_def)
qed

end
