(* ===== verification/Client_IP.thy ===== *)
theory Client_IP
  imports Prelude
begin

text \<open>
  The client-IP extraction of \<open>core/ratelimit\<close>: \<open>ClientIP\<close>, \<open>ipInPrefixes\<close>,
  \<open>ParsePrefixes\<close> and the named presets. Parsing of addresses and prefixes belongs to Go's
  \<open>net\<close> and \<open>net/netip\<close>; the definitions take it as a record of functions and every
  property holds for whatever those functions return.
\<close>

record ('a, 'p) netip =
  parse_addr :: "string \<Rightarrow> 'a option"
  parse_prefix :: "string \<Rightarrow> 'p option"
  prefix_contains :: "'p \<Rightarrow> 'a \<Rightarrow> bool"
  split_host_port :: "string \<Rightarrow> (string \<times> string) option"

section \<open>Operations\<close>

definition remote_ip :: "('a, 'p) netip \<Rightarrow> string \<Rightarrow> string" where
  "remote_ip N remote_addr = (case split_host_port N remote_addr of None \<Rightarrow> remote_addr | Some (host, _) \<Rightarrow> host)"

definition ip_in_prefixes :: "('a, 'p) netip \<Rightarrow> string \<Rightarrow> 'p list \<Rightarrow> bool" where
  "ip_in_prefixes N ip prefixes =
     (case parse_addr N ip of None \<Rightarrow> False | Some a \<Rightarrow> list_ex (\<lambda>p. prefix_contains N p a) prefixes)"

text \<open>The right-to-left walk over the header's entries; the argument is in walk order.\<close>

fun first_untrusted :: "('a, 'p) netip \<Rightarrow> 'p list \<Rightarrow> string list \<Rightarrow> string option" where
  "first_untrusted N prefixes [] = None"
| "first_untrusted N prefixes (part # parts) =
     (let candidate = trim_space part
      in if candidate = [] then first_untrusted N prefixes parts
         else if \<not> ip_in_prefixes N candidate prefixes then Some candidate
         else first_untrusted N prefixes parts)"

definition client_ip :: "('a, 'p) netip \<Rightarrow> 'p list \<Rightarrow> string \<Rightarrow> string \<Rightarrow> string" where
  "client_ip N trusted remote_addr xff =
     (let remote = remote_ip N remote_addr
      in if trusted = [] then remote
         else if \<not> ip_in_prefixes N remote trusted then remote
         else if xff = [] then remote
         else let parts = split_byte (CHR '','') xff
           in case first_untrusted N trusted (rev parts) of
                Some candidate \<Rightarrow> candidate
              | None \<Rightarrow> let first = trim_space (hd parts) in if first \<noteq> [] then first else remote)"

definition presets :: "(string \<times> string list) list" where
  "presets =
    [(''cloudflare'',
       [''173.245.48.0/20'', ''103.21.244.0/22'', ''103.22.200.0/22'', ''103.31.4.0/22'',
        ''141.101.64.0/18'', ''108.162.192.0/18'', ''190.93.240.0/20'', ''188.114.96.0/20'',
        ''197.234.240.0/22'', ''198.41.128.0/17'', ''162.158.0.0/15'', ''104.16.0.0/13'',
        ''104.24.0.0/14'', ''172.64.0.0/13'', ''131.0.72.0/22'',
        ''2400:cb00::/32'', ''2606:4700::/32'', ''2803:f800::/32'', ''2405:b500::/32'',
        ''2405:8100::/32'', ''2a06:98c0::/29'', ''2c0f:f248::/32'']),
     (''aws-elb'', []), (''gcp-lb'', []), (''azure-front-door'', [])]"

definition is_preset :: "string \<Rightarrow> bool" where
  "is_preset name \<longleftrightarrow> map_of presets name \<noteq> None"

fun parse_all :: "('a, 'p) netip \<Rightarrow> (string \<Rightarrow> string) \<Rightarrow> string list \<Rightarrow> 'p list result" where
  "parse_all N msg [] = Ok []"
| "parse_all N msg (c # cs) =
     (case parse_prefix N c of
        None \<Rightarrow> Err (msg c)
      | Some p \<Rightarrow> (case parse_all N msg cs of Inl e \<Rightarrow> Inl e | Inr ps \<Rightarrow> Ok (p # ps)))"

fun parse_prefixes :: "('a, 'p) netip \<Rightarrow> string list \<Rightarrow> 'p list result" where
  "parse_prefixes N [] = Ok []"
| "parse_prefixes N (item # items) =
     (case (if is_preset item
            then parse_all N (\<lambda>c. ''preset '' @ item @ '': invalid CIDR '' @ c) (the (map_of presets item))
            else parse_all N (\<lambda>c. ''invalid CIDR or unknown preset: '' @ c) [item]) of
        Inl e \<Rightarrow> Inl e
      | Inr ps \<Rightarrow> (case parse_prefixes N items of Inl e \<Rightarrow> Inl e | Inr qs \<Rightarrow> Ok (ps @ qs)))"

section \<open>Lemmas\<close>

lemma split_byte_append:
  "c \<notin> set t \<Longrightarrow> split_byte c (s @ c # t) = split_byte c s @ [t]"
proof (induction s)
  case Nil
  then have "split_byte c t = [t]" by (induction t) auto
  then show ?case by simp
next
  case (Cons x s)
  then show ?case by (cases "split_byte c s") (auto simp: split: list.splits)
qed

text \<open>Joining trusted hops to the right of a header adds exactly their entries.\<close>

lemma split_byte_hops:
  assumes "\<forall>h \<in> set hops. c \<notin> set h"
  shows "split_byte c (s @ concat (map (\<lambda>h. c # h) hops)) = split_byte c s @ hops"
  using assms
proof (induction hops rule: rev_induct)
  case (snoc h hops)
  have "split_byte c ((s @ concat (map (\<lambda>h. c # h) hops)) @ c # h) =
    split_byte c (s @ concat (map (\<lambda>h. c # h) hops)) @ [h]"
    using snoc.prems by (intro split_byte_append) simp
  with snoc show ?case by simp
qed simp

lemma first_untrusted_skip:
  assumes "\<forall>h \<in> set hops. trim_space h = [] \<or> ip_in_prefixes N (trim_space h) trusted"
  shows "first_untrusted N trusted (hops @ parts) = first_untrusted N trusted parts"
  using assms by (induction hops) (auto simp: Let_def)

lemma first_untrusted_untrusted:
  "first_untrusted N trusted parts = Some c \<Longrightarrow> c \<noteq> [] \<and> \<not> ip_in_prefixes N c trusted"
  by (induction parts) (auto simp: Let_def split: if_splits)

lemma parse_all_Ok: "parse_all N msg cs = Ok qs \<longleftrightarrow> list_all2 (\<lambda>c q. parse_prefix N c = Some q) cs qs"
proof (induction cs arbitrary: qs)
  case (Cons c cs)
  show ?case
    by (cases "parse_prefix N c"; cases "parse_all N msg cs")
       (auto simp: list_all2_Cons1 simp flip: Cons.IH)
qed auto

section \<open>Properties\<close>

text \<open>
  C4: a forged \<open>X-Forwarded-For\<close> cannot choose the rate-limit key. Whatever the client
  put in the header (\<open>forged\<close>), once the first trusted proxy appends the address it saw
  (\<open>seen\<close>) and further trusted proxies append theirs, the extracted address is \<open>seen\<close>;
  and a connection that does not come from a trusted proxy is keyed by its own address
  whatever the header says.
\<close>

theorem client_ip_unforgeable:
  assumes "CHR '','' \<notin> set seen" and "trim_space seen \<noteq> []"
    and "\<not> ip_in_prefixes N (trim_space seen) trusted"
    and "\<forall>h \<in> set hops. CHR '','' \<notin> set h \<and> (trim_space h = [] \<or> ip_in_prefixes N (trim_space h) trusted)"
  shows "client_ip N trusted remote (forged @ CHR '','' # seen @ concat (map (\<lambda>h. CHR '','' # h) hops)) =
    (if trusted \<noteq> [] \<and> ip_in_prefixes N (remote_ip N remote) trusted then trim_space seen
     else remote_ip N remote)"
proof -
  let ?xff = "(forged @ CHR '','' # seen) @ concat (map (\<lambda>h. CHR '','' # h) hops)"
  have parts: "split_byte (CHR '','') ?xff = split_byte (CHR '','') forged @ [seen] @ hops"
    using assms(4) by (subst split_byte_hops) (simp_all add: split_byte_append [OF assms(1)])
  have "first_untrusted N trusted (rev (split_byte (CHR '','') ?xff)) = Some (trim_space seen)"
    unfolding parts using assms(2-4) by (simp add: first_untrusted_skip [of "rev hops"] Let_def)
  then show ?thesis by (simp add: client_ip_def Let_def)
qed

text \<open>A small address parser for the witnesses: an address is its text, a prefix a text prefix.\<close>

definition demo_netip :: "(string, string) netip" where
  "demo_netip = \<lparr>parse_addr = (\<lambda>s. Some s), parse_prefix = (\<lambda>s. Some s),
     prefix_contains = (\<lambda>p a. has_prefix a p), split_host_port = cut_byte (CHR '':'')\<rparr>"

theorem client_ip_unforgeable_witness:
  "client_ip demo_netip [''10.''] ''10.0.0.1:443'' ''6.6.6.6, 7.7.7.7, 10.0.0.9'' = ''7.7.7.7''"
proof -
  have "client_ip demo_netip [''10.''] ''10.0.0.1:443''
      (''6.6.6.6'' @ CHR '','' # '' 7.7.7.7'' @ concat (map (\<lambda>h. CHR '','' # h) ['' 10.0.0.9''])) =
    (if [''10.''] \<noteq> [] \<and> ip_in_prefixes demo_netip (remote_ip demo_netip ''10.0.0.1:443'') [''10.'']
     then trim_space '' 7.7.7.7'' else remote_ip demo_netip ''10.0.0.1:443'')"
    by (rule client_ip_unforgeable) code_simp+
  moreover have "trim_space '' 7.7.7.7'' = ''7.7.7.7''" by code_simp
  moreover have "ip_in_prefixes demo_netip (remote_ip demo_netip ''10.0.0.1:443'') [''10.'']" by code_simp
  ultimately show ?thesis by simp
qed

text \<open>
  The address a request is attributed to is never a trusted proxy's, unless every
  entry of the header (or the lack of one) leaves no other choice: then it is the
  leftmost entry or the connection's own address.
\<close>

lemma client_ip_source:
  "client_ip N trusted remote xff = remote_ip N remote
   \<or> \<not> ip_in_prefixes N (client_ip N trusted remote xff) trusted
   \<or> first_untrusted N trusted (rev (split_byte (CHR '','') xff)) = None
     \<and> client_ip N trusted remote xff = trim_space (hd (split_byte (CHR '','') xff))"
proof (cases "first_untrusted N trusted (rev (split_byte (CHR '','') xff))")
  case None
  then show ?thesis by (simp add: client_ip_def Let_def)
next
  case (Some c)
  then have "client_ip N trusted remote xff \<in> {remote_ip N remote, c}"
    by (simp add: client_ip_def Let_def)
  with first_untrusted_untrusted [OF Some] show ?thesis by auto
qed

text \<open>
  A list of proxies parses to the concatenation of what its items expand to, or fails
  with the first item that does not parse; a reserved preset expands to nothing.
\<close>

lemma parse_prefixes_expands:
  "parse_prefixes N items = Ok ps \<longleftrightarrow>
   (\<exists>pss. ps = concat pss \<and> list_all2 (\<lambda>item qs.
      list_all2 (\<lambda>c q. parse_prefix N c = Some q)
        (if is_preset item then the (map_of presets item) else [item]) qs) items pss)"
proof -
  define R where "R = (\<lambda>item qs. list_all2 (\<lambda>c q. parse_prefix N c = Some q)
    (if is_preset item then the (map_of presets item) else [item]) qs)"
  define f where "f = (\<lambda>item. if is_preset item
    then parse_all N (\<lambda>c. ''preset '' @ item @ '': invalid CIDR '' @ c) (the (map_of presets item))
    else parse_all N (\<lambda>c. ''invalid CIDR or unknown preset: '' @ c) [item])"
  have f: "f item = Ok qs \<longleftrightarrow> R item qs" for item qs
    by (simp add: f_def R_def parse_all_Ok del: parse_all.simps)
  have "parse_prefixes N items = Ok ps \<longleftrightarrow> (\<exists>pss. ps = concat pss \<and> list_all2 R items pss)"
  proof (induction items arbitrary: ps)
    case (Cons item items)
    have step: "parse_prefixes N (item # items) = Ok ps \<longleftrightarrow>
        (\<exists>qs qs'. f item = Ok qs \<and> parse_prefixes N items = Ok qs' \<and> ps = qs @ qs')"
      by (auto simp: f_def simp del: parse_all.simps split: sum.splits)
    show ?case unfolding step f Cons.IH list_all2_Cons1 by (metis concat.simps(2))
  qed auto
  then show ?thesis by (simp only: R_def)
qed

end
