(* ===== verification/HTML_Text.thy ===== *)
theory HTML_Text
  imports Prelude
begin

text \<open>
  \<open>core/template/htmltotext.go\<close>: the scanner that derives the text part of an HTML body. The
  scan position is the remaining input. \<open>html.UnescapeString\<close> (the standard library's entity
  table) and \<open>strings.ToLower\<close> are parameters.
\<close>

section \<open>Pieces\<close>

text \<open>\<open>strings.Index\<close>, as the text after the first occurrence.\<close>

fun after_str :: "string \<Rightarrow> string \<Rightarrow> string option" where
  "after_str p [] = (if p = [] then Some [] else None)"
| "after_str p (c # s) = (if has_prefix (c # s) p then Some (drop (length p) (c # s)) else after_str p s)"

fun index_str :: "string \<Rightarrow> string \<Rightarrow> nat option" where
  "index_str p [] = (if p = [] then Some 0 else None)"
| "index_str p (c # s) = (if has_prefix (c # s) p then Some 0 else map_option Suc (index_str p s))"

text \<open>
  Go's conversion \<open>string(c)\<close> of a byte: the UTF-8 encoding of the code point with that
  number, two bytes from 128 on.
\<close>

definition string_of_byte :: "char \<Rightarrow> string" where
  "string_of_byte c =
     (if byte c < 128 then [c] else [char_of (192 + byte c div 64), char_of (128 + byte c mod 64)])"

definition is_tag_start :: "char \<Rightarrow> bool" where
  "is_tag_start c \<longleftrightarrow> 97 \<le> byte c \<and> byte c \<le> 122 \<or> 65 \<le> byte c \<and> byte c \<le> 90 \<or> c = CHR ''!''"

definition is_alnum :: "char \<Rightarrow> bool" where
  "is_alnum c \<longleftrightarrow> 97 \<le> byte c \<and> byte c \<le> 122 \<or> 65 \<le> byte c \<and> byte c \<le> 90 \<or> 48 \<le> byte c \<and> byte c \<le> 57"

definition block_tags :: "string list" where
  "block_tags = [''p'', ''div'', ''section'', ''article'', ''header'', ''footer'', ''main'', ''aside'',
     ''h1'', ''h2'', ''h3'', ''h4'', ''h5'', ''h6'', ''ul'', ''ol'', ''li'', ''table'', ''tr'', ''blockquote'',
     ''pre'', ''hr'', ''figure'', ''figcaption'', ''form'', ''fieldset'', ''address'']"

text \<open>The attribute text up to the unquoted \<open>>\<close>, and the input after it.\<close>

fun scan_tag :: "char option \<Rightarrow> string \<Rightarrow> (string \<times> string) option" where
  "scan_tag q [] = None"
| "scan_tag (Some q) (c # s) =
     map_option (\<lambda>(a, r). (c # a, r)) (scan_tag (if c = q then None else Some q) s)"
| "scan_tag None (c # s) =
     (if byte c = 34 \<or> byte c = 39 then map_option (\<lambda>(a, r). (c # a, r)) (scan_tag (Some c) s)
      else if c = CHR ''>'' then Some ([], s)
      else map_option (\<lambda>(a, r). (c # a, r)) (scan_tag None s))"

text \<open>\<open>parseTag\<close> on the input from its \<open><\<close>: name, attributes, whether it closes, and the rest.\<close>

definition tag_body :: "bool \<Rightarrow> string \<Rightarrow> (string \<times> string \<times> bool \<times> string) option" where
  "tag_body closing s =
     (if s = [] \<or> \<not> is_tag_start (hd s) then None
      else let in_name = (\<lambda>c. is_alnum c \<or> c = CHR ''!'')
           in map_option (\<lambda>(attrs, rest). (map ascii_lower_char (takeWhile in_name s), attrs, closing, rest))
                (scan_tag None (dropWhile in_name s)))"

definition parse_tag :: "string \<Rightarrow> (string \<times> string \<times> bool \<times> string) option" where
  "parse_tag s = (if has_prefix (drop 1 s) ''/'' then tag_body True (drop 2 s) else tag_body False (drop 1 s))"

definition is_attr_blank :: "char \<Rightarrow> bool" where
  "is_attr_blank c \<longleftrightarrow> byte c = 32 \<or> byte c = 9 \<or> byte c = 10 \<or> byte c = 13"

text \<open>\<open>attrValue\<close>: positions are found in the lowered text and used in the original.\<close>

function attr_from :: "string \<Rightarrow> string \<Rightarrow> string \<Rightarrow> nat \<Rightarrow> string" where
  "attr_from lowered attrs name idx =
     (case index_str name (drop idx lowered) of
        None \<Rightarrow> []
      | Some k \<Rightarrow>
          let pos = idx + k; next = pos + length name
          in if length name = 0 \<or> idx \<ge> length lowered then [] \<comment> \<open>not reached for a non-empty name\<close>
             else if pos > 0 \<and> is_alnum (lowered ! (pos - 1)) then attr_from lowered attrs name next
             else (case dropWhile is_attr_blank (drop next attrs) of
                 c # r \<Rightarrow>
                   if c \<noteq> CHR ''='' then attr_from lowered attrs name next
                   else (case dropWhile is_attr_blank r of
                       [] \<Rightarrow> []
                     | q # v \<Rightarrow>
                         if byte q = 34 \<or> byte q = 39 then takeWhile (\<lambda>x. x \<noteq> q) v
                         else takeWhile (\<lambda>x. byte x \<noteq> 32 \<and> byte x \<noteq> 9) (q # v))
               | [] \<Rightarrow> attr_from lowered attrs name next))"
  by pat_completeness auto
termination
  by (relation "measure (\<lambda>(lowered, attrs, name, idx). length lowered - idx)")
     (rule wf_measure, unfold in_measure case_prod_conv, linarith+)

declare attr_from.simps [simp del]

definition attr_value :: "(string \<Rightarrow> string) \<Rightarrow> string \<Rightarrow> string \<Rightarrow> string" where
  "attr_value lower attrs name = attr_from (lower attrs) attrs name 0"

section \<open>Whitespace\<close>

text \<open>\<open>strings.Fields\<close>: the maximal runs between Unicode white space.\<close>

function blank_split_from :: "string \<Rightarrow> string \<Rightarrow> string list" where
  "blank_split_from acc s =
     (case s of
        [] \<Rightarrow> (if acc = [] then [] else [rev acc])
      | c # r \<Rightarrow>
          (case space_prefix (map byte s) of
             0 \<Rightarrow> blank_split_from (c # acc) r
           | Suc n \<Rightarrow> (if acc = [] then blank_split_from [] (drop n r) else rev acc # blank_split_from [] (drop n r))))"
  by pat_completeness auto
termination
  by (relation "measure (\<lambda>(acc, s). length s)") auto

declare blank_split_from.simps [simp del]

definition blank_split :: "string \<Rightarrow> string list" where
  "blank_split s = blank_split_from [] s"

text \<open>The two \<open>ReplaceAll\<close>s: CRLF and then lone CR become LF.\<close>

fun unify_newlines :: "string \<Rightarrow> string" where
  "unify_newlines [] = []"
| "unify_newlines [c] = [if byte c = 13 then char_of (10 :: nat) else c]"
| "unify_newlines (c # d # s) =
     (if byte c = 13 then
        (if byte d = 10 then char_of (10 :: nat) # unify_newlines s else char_of (10 :: nat) # unify_newlines (d # s))
      else c # unify_newlines (d # s))"

abbreviation newline :: char where
  "newline \<equiv> char_of (10 :: nat)"

fun layout :: "bool \<Rightarrow> nat \<Rightarrow> string list \<Rightarrow> string" where
  "layout wrote blanks [] = []"
| "layout wrote blanks (line # ls) =
     (let fs = blank_split line
      in if fs = [] then layout wrote (Suc blanks) ls
         else (if wrote then newline # (if blanks > 0 then [newline] else []) else []) @
           join '' '' fs @ layout True 0 ls)"

definition normalize_whitespace :: "string \<Rightarrow> string" where
  "normalize_whitespace s = layout False 0 (split_byte newline (unify_newlines s))"

section \<open>The scanner\<close>

record scanner =
  sc_out :: string
  sc_anchor :: string
  sc_in :: bool
  sc_href :: string
  sc_skip :: string

definition start_scan :: scanner where
  "start_scan = \<lparr>sc_out = [], sc_anchor = [], sc_in = False, sc_href = [], sc_skip = []\<rparr>"

definition emit :: "string \<Rightarrow> scanner \<Rightarrow> scanner" where
  "emit t s = (if sc_in s then s\<lparr>sc_anchor := sc_anchor s @ t\<rparr> else s\<lparr>sc_out := sc_out s @ t\<rparr>)"

definition close_anchor :: "(string \<Rightarrow> string) \<Rightarrow> scanner \<Rightarrow> scanner" where
  "close_anchor unescape s =
     s\<lparr>sc_out := sc_out s @ sc_anchor s @
         (if sc_href s \<noteq> [] \<and> trim_space (unescape (sc_anchor s)) \<noteq> unescape (sc_href s)
          then '' ('' @ sc_href s @ '')'' else []),
       sc_anchor := [], sc_href := [], sc_in := False\<rparr>"

definition linkable :: "string \<Rightarrow> bool" where
  "linkable href \<longleftrightarrow> has_prefix href ''http://'' \<or> has_prefix href ''https://'' \<or> has_prefix href ''mailto:''"

definition tag_step :: "(string \<Rightarrow> string) \<Rightarrow> (string \<Rightarrow> string) \<Rightarrow> string \<Rightarrow> string \<Rightarrow> bool \<Rightarrow> scanner \<Rightarrow> scanner" where
  "tag_step lower unescape name attrs closing s =
     (if sc_skip s \<noteq> [] then
        (if closing \<and> name = sc_skip s then s\<lparr>sc_skip := []\<rparr> else s)
      else if name = ''style'' \<or> name = ''script'' then
        (if \<not> closing then s\<lparr>sc_skip := name\<rparr> else s)
      else if name = ''br'' then emit [newline] s
      else if name = ''a'' then
        (if closing then (if sc_in s then close_anchor unescape s else s)
         else let s1 = (if sc_in s then close_anchor unescape s else s);
                  href = attr_value lower attrs ''href''
              in (if linkable href then s1\<lparr>sc_href := href\<rparr> else s1)\<lparr>sc_in := True\<rparr>)
      else if name = ''li'' then (if \<not> closing then emit (newline # ''- '') s else s)
      else if name \<in> set block_tags then emit [newline] s
      else s)"

lemma scan_tag_length: "scan_tag q s = Some (a, r) \<Longrightarrow> length r < length s"
proof (induction q s arbitrary: a r rule: scan_tag.induct)
  case (2 q c s)
  then show ?case by (auto split: if_splits simp: less_Suc_eq)
next
  case (3 c s)
  then show ?case by (auto split: if_splits simp: less_Suc_eq)
qed simp

lemma tag_body_length: "tag_body cl s = Some (name, attrs, closing, r) \<Longrightarrow> length r < length s"
proof -
  let ?s = "dropWhile (\<lambda>c. is_alnum c \<or> c = CHR ''!'') s"
  assume "tag_body cl s = Some (name, attrs, closing, r)"
  then have "scan_tag None ?s = Some (attrs, r)"
    by (cases "scan_tag None ?s") (auto simp: tag_body_def Let_def case_prod_unfold split: if_splits)
  then have "length r < length ?s" by (rule scan_tag_length)
  also have "\<dots> \<le> length s" by (rule length_dropWhile_le)
  finally show ?thesis .
qed

lemma parse_tag_length: "parse_tag s = Some (name, attrs, closing, r) \<Longrightarrow> length r < length s"
  by (cases "has_prefix (drop 1 s) ''/''") (auto simp: parse_tag_def dest!: tag_body_length)

lemma after_str_length: "after_str p s = Some r \<Longrightarrow> length r \<le> length s"
  by (induction s) (auto split: if_splits)

function scan :: "(string \<Rightarrow> string) \<Rightarrow> (string \<Rightarrow> string) \<Rightarrow> string \<Rightarrow> scanner \<Rightarrow> scanner" where
  "scan lower unescape src s =
     (case src of
        [] \<Rightarrow> s
      | c # r \<Rightarrow>
          if c \<noteq> CHR ''<'' then scan lower unescape r (if sc_skip s = [] then emit (string_of_byte c) s else s)
          else if has_prefix src ''<!--'' then
            (case after_str ''-->'' (drop 4 src) of
               None \<Rightarrow> s
             | Some r' \<Rightarrow> scan lower unescape r' s)
          else (case parse_tag src of
              None \<Rightarrow> scan lower unescape r (if sc_skip s = [] then emit ''<'' s else s)
            | Some (name, attrs, closing, r') \<Rightarrow>
                scan lower unescape r' (tag_step lower unescape name attrs closing s)))"
  by pat_completeness auto
termination
proof (relation "measure (\<lambda>(lower, unescape, src, s). length src)", rule wf_measure,
    unfold in_measure case_prod_conv, goal_cases)
  case (2 lower unescape src s c r r')
  then have "length r' \<le> length (drop 4 src)" by (intro after_str_length)
  with 2(1) show ?case by simp
next
  case (4 lower unescape src s c r a name b attrs d closing r')
  then have "parse_tag src = Some (name, attrs, closing, r')" by simp
  then show ?case by (rule parse_tag_length)
qed simp_all

declare scan.simps [simp del]

definition html_to_text :: "(string \<Rightarrow> string) \<Rightarrow> (string \<Rightarrow> string) \<Rightarrow> string \<Rightarrow> string" where
  "html_to_text lower unescape src =
     (let s = scan lower unescape src start_scan;
          s1 = (if sc_in s then close_anchor unescape s else s)
      in normalize_whitespace (unescape (sc_out s1)))"

section \<open>Lemmas\<close>

text \<open>A stretch without tags is emitted byte by byte, or dropped inside a skipped element.\<close>

lemma scan_plain:
  assumes "\<forall>c \<in> set t. c \<noteq> CHR ''<''"
  shows "scan lower unescape (t @ src) s =
    scan lower unescape src (if sc_skip s = [] then emit (concat (map string_of_byte t)) s else s)"
  using assms
proof (induction t arbitrary: s)
  case Nil
  have "emit [] s = s" by (simp add: emit_def)
  then show ?case by simp
next
  case (Cons c t)
  have "scan lower unescape ((c # t) @ src) s =
      scan lower unescape (t @ src) (if sc_skip s = [] then emit (string_of_byte c) s else s)"
    using Cons.prems by (subst scan.simps) simp
  also have "\<dots> = scan lower unescape src (if sc_skip s = [] then emit (concat (map string_of_byte (c # t))) s else s)"
    using Cons.prems by (subst Cons.IH) (auto simp: emit_def)
  finally show ?case .
qed

section \<open>Properties\<close>

text \<open>
  Text outside tags is re-encoded byte by byte. For input without a \<open><\<close> the result is the
  normal form of the unescaped text in which every byte from 128 on has become the two-byte
  encoding of the code point of that number, since \<open>string(c)\<close> converts a byte, not text:
  ASCII survives, and the two bytes of an e-acute come out as four bytes, the encodings of
  U+00C3 and U+00A9.
\<close>

theorem html_text_reencodes:
  "(CHR ''<'' \<notin> set src \<longrightarrow>
      html_to_text lower unescape src = normalize_whitespace (unescape (concat (map string_of_byte src)))) \<and>
   (list_all (\<lambda>c. byte c < 128) src \<longrightarrow> concat (map string_of_byte src) = src) \<and>
   map byte (html_to_text lower id (map char_of [195, 169 :: nat])) = [195, 131, 194, 169]"
proof (intro conjI impI)
  have run: "html_to_text lower unescape src = normalize_whitespace (unescape (concat (map string_of_byte src)))"
    if "CHR ''<'' \<notin> set src" for src unescape
  proof -
    have "\<forall>c \<in> set src. c \<noteq> CHR ''<''" using that by auto
    from scan_plain [OF this, of lower unescape "[]" start_scan] show ?thesis
      by (simp add: html_to_text_def scan.simps [of lower unescape "[]"] start_scan_def emit_def Let_def)
  qed
  show "CHR ''<'' \<notin> set src \<Longrightarrow>
      html_to_text lower unescape src = normalize_whitespace (unescape (concat (map string_of_byte src)))"
    by (rule run)
  show "concat (map string_of_byte src) = src" if "list_all (\<lambda>c. byte c < 128) src"
    using that by (induction src) (auto simp: string_of_byte_def)
  have "CHR ''<'' \<notin> set (map char_of [195, 169 :: nat])" by code_simp
  then have "map byte (html_to_text lower id (map char_of [195, 169 :: nat])) =
      map byte (normalize_whitespace (concat (map string_of_byte (map char_of [195, 169 :: nat]))))"
    by (simp add: run)
  also have "\<dots> = [195, 131, 194, 169]" by code_simp
  finally show "map byte (html_to_text lower id (map char_of [195, 169 :: nat])) = [195, 131, 194, 169]" .
qed

theorem html_text_reencodes_witness: "html_to_text id id ''a  b'' = ''a b''"
proof -
  have "normalize_whitespace ''a  b'' = ''a b''" by code_simp
  then show ?thesis using html_text_reencodes [of "''a  b''" id id] by (simp add: byte_def)
qed

end
