(* ===== verification/Template.thy ===== *)
theory Template
  imports HTML_Text Spam_Checks "HOL-Library.List_Lexorder"
begin

text \<open>
  \<open>core/template/template.go\<close>: the renderer of an endpoint, built from its subject and body
  templates, and the block of additional fields it appends. Parsing and executing templates
  is Go's \<open>text/template\<close> and \<open>html/template\<close>, a parameter here; the walk over the
  parsed tree that finds the fields a template mentions is this package's own and is
  modelled on the node kinds of \<open>text/template/parse\<close>.

  A \<open>map[string]string\<close> is an association list with distinct keys.
\<close>

section \<open>Parsed templates\<close>

datatype tnode =
  NoNode
| ListNode "tnode list"
| ActionNode tnode
| PipeNode "tnode list"
| CommandNode "tnode list"
| FieldNode "string list"
| ChainNode tnode "string list"
| IfNode tnode tnode tnode
| RangeNode tnode tnode tnode
| WithNode tnode tnode tnode
| VariableNode "string list"
| TemplateNode string tnode
| LeafNode

fun collect_field_names :: "tnode \<Rightarrow> string set" where
  "collect_field_names (ListNode ns) = (\<Union>n \<in> set ns. collect_field_names n)"
| "collect_field_names (ActionNode p) = collect_field_names p"
| "collect_field_names (PipeNode cmds) = (\<Union>n \<in> set cmds. collect_field_names n)"
| "collect_field_names (CommandNode args) = (\<Union>n \<in> set args. collect_field_names n)"
| "collect_field_names (FieldNode ids) = (case ids of [] \<Rightarrow> {} | i # _ \<Rightarrow> {i})"
| "collect_field_names (ChainNode n _) = collect_field_names n"
| "collect_field_names (IfNode p l e) = collect_field_names p \<union> collect_field_names l \<union> collect_field_names e"
| "collect_field_names (RangeNode p l e) = collect_field_names p \<union> collect_field_names l \<union> collect_field_names e"
| "collect_field_names (WithNode p l e) = collect_field_names p \<union> collect_field_names l \<union> collect_field_names e"
| "collect_field_names _ = {}"

type_synonym smap = "(string \<times> string) list"

text \<open>
  The template engine and the file system: \<open>read_file\<close> is \<open>None\<close> where \<open>os.Stat\<close> fails
  or finds a directory, \<open>Some None\<close> where reading fails.
\<close>

record template_lib =
  parse_text :: "string \<Rightarrow> tnode option"
  parse_html :: "string \<Rightarrow> tnode option"
  exec_text :: "tnode \<Rightarrow> smap \<Rightarrow> string option"
  exec_html :: "tnode \<Rightarrow> smap \<Rightarrow> string option"
  read_file :: "string \<Rightarrow> string option option"
  tl_lower :: "string \<Rightarrow> string"
  tl_unescape :: "string \<Rightarrow> string"

record renderer =
  rn_subject :: tnode
  rn_body :: tnode
  rn_html_body :: "tnode option"
  rn_text_body :: "tnode option"
  rn_named :: "string set"

section \<open>Construction\<close>

datatype template_error =
  EmptyBody | UnreadableBody | NoSuchFile | BadSubject | BadBody | BadHtmlBody | BadTextBody
| TextBodyError template_error

definition load_body_template :: "template_lib \<Rightarrow> string \<Rightarrow> template_error + string" where
  "load_body_template L body =
     (if body = [] then Inl EmptyBody
      else if contains_str body ''{{'' then Inr body
      else if contains_str body ''<'' \<and> contains_str body ''>'' then Inr body
      else case read_file L body of
        Some (Some raw) \<Rightarrow> Inr raw
      | Some None \<Rightarrow> Inl UnreadableBody
      | None \<Rightarrow> if contains_str body ''/'' then Inl NoSuchFile else Inr body)"

definition reserved_names :: "string list \<Rightarrow> string set" where
  "reserved_names names = {n \<in> set names. n \<noteq> []}"

definition new_renderer :: "template_lib \<Rightarrow> string \<Rightarrow> string \<Rightarrow> string list \<Rightarrow> template_error + renderer" where
  "new_renderer L subject body reserved =
     (case load_body_template L body of
        Inl e \<Rightarrow> Inl e
      | Inr src \<Rightarrow>
          (case parse_text L subject of
             None \<Rightarrow> Inl BadSubject
           | Some subj \<Rightarrow>
               (case parse_text L src of
                  None \<Rightarrow> Inl BadBody
                | Some tree \<Rightarrow>
                    Inr \<lparr>rn_subject = subj, rn_body = tree, rn_html_body = None, rn_text_body = None,
                      rn_named = reserved_names reserved \<union> collect_field_names subj \<union> collect_field_names tree\<rparr>)))"

definition load_text_body :: "template_lib \<Rightarrow> string \<Rightarrow> template_error + tnode option" where
  "load_text_body L text_body =
     (if text_body = [] then Inr None
      else case load_body_template L text_body of
        Inl e \<Rightarrow> Inl (TextBodyError e)
      | Inr src \<Rightarrow> (case parse_text L src of None \<Rightarrow> Inl BadTextBody | Some t \<Rightarrow> Inr (Some t)))"

definition new_html_renderer :: "template_lib \<Rightarrow> string \<Rightarrow> string \<Rightarrow> string \<Rightarrow> string list \<Rightarrow> template_error + renderer" where
  "new_html_renderer L subject body text_body reserved =
     (case load_body_template L body of
        Inl e \<Rightarrow> Inl e
      | Inr src \<Rightarrow>
          (case parse_text L subject of
             None \<Rightarrow> Inl BadSubject
           | Some subj \<Rightarrow>
               (case parse_html L src of
                  None \<Rightarrow> Inl BadHtmlBody
                | Some tree \<Rightarrow>
                    if exec_html L tree [] = None then Inl BadHtmlBody
                    else case load_text_body L text_body of
                      Inl e \<Rightarrow> Inl e
                    | Inr tb \<Rightarrow>
                        Inr \<lparr>rn_subject = subj, rn_body = NoNode, rn_html_body = Some tree, rn_text_body = tb,
                          rn_named = reserved_names reserved \<union> collect_field_names subj \<union> collect_field_names tree \<union>
                            (case tb of None \<Rightarrow> {} | Some t \<Rightarrow> collect_field_names t)\<rparr>)))"

section \<open>Rendering\<close>

definition flatten_form :: "form \<Rightarrow> smap" where
  "flatten_form form = map (\<lambda>(k, v). (k, case v of [x] \<Rightarrow> x | _ \<Rightarrow> join '', '' v)) (filter (\<lambda>(k, v). v \<noteq> []) form)"

definition extra_fields :: "string set \<Rightarrow> form \<Rightarrow> smap" where
  "extra_fields named form =
     map (\<lambda>(k, v). (k, join '', '' v))
       (filter (\<lambda>(k, v). k \<notin> named \<and> v \<noteq> [] \<and> trim_space (join '', '' v) \<noteq> []) form)"

definition sorted_keys :: "smap \<Rightarrow> string list" where
  "sorted_keys m = sort (map fst m)"

definition value_of :: "smap \<Rightarrow> string \<Rightarrow> string" where
  "value_of m k = (case map_of m k of None \<Rightarrow> [] | Some v \<Rightarrow> v)"

definition end_line :: "string \<Rightarrow> string" where
  "end_line out = (if has_suffix out [newline] then out else out @ [newline])"

definition append_extras_text :: "string \<Rightarrow> smap \<Rightarrow> string" where
  "append_extras_text out extras =
     (if extras = [] then out
      else end_line out @ [newline] @ ''Additional fields:'' @ [newline] @
        concat (map (\<lambda>k. ''  '' @ k @ '': '' @ value_of extras k @ [newline]) (sorted_keys extras)))"

text \<open>\<open>html.EscapeString\<close>.\<close>

definition escape_char :: "char \<Rightarrow> string" where
  "escape_char c =
     (if c = CHR ''&'' then ''&amp;'' else if c = CHR ''<'' then ''&lt;'' else if c = CHR ''>'' then ''&gt;''
      else if byte c = 34 then ''&#34;'' else if byte c = 39 then ''&#39;'' else [c])"

definition html_escape :: "string \<Rightarrow> string" where
  "html_escape s = concat (map escape_char s)"

definition append_extras_html :: "string \<Rightarrow> smap \<Rightarrow> string" where
  "append_extras_html out extras =
     (if extras = [] then out
      else end_line out @ ''<hr>'' @ [newline] @ ''<p>Additional fields:</p>'' @ [newline] @ ''<ul>'' @ [newline] @
        concat (map (\<lambda>k. ''  <li><strong>'' @ html_escape k @ '':</strong> '' @
          html_escape (value_of extras k) @ ''</li>'' @ [newline]) (sorted_keys extras)) @ ''</ul>'' @ [newline])"

definition render_subject :: "template_lib \<Rightarrow> renderer \<Rightarrow> form \<Rightarrow> string option" where
  "render_subject L r form = exec_text L (rn_subject r) (flatten_form form)"

definition render_body :: "template_lib \<Rightarrow> renderer \<Rightarrow> form \<Rightarrow> string option" where
  "render_body L r form =
     (case exec_text L (rn_body r) (flatten_form form) of
        None \<Rightarrow> None
      | Some out \<Rightarrow> Some (append_extras_text out (extra_fields (rn_named r) form)))"

definition render_body_html :: "template_lib \<Rightarrow> renderer \<Rightarrow> form \<Rightarrow> (string \<times> string) option" where
  "render_body_html L r form =
     (case rn_html_body r of
        None \<Rightarrow> None
      | Some tree \<Rightarrow>
          (case exec_html L tree (flatten_form form) of
             None \<Rightarrow> None
           | Some out \<Rightarrow>
               let extras = extra_fields (rn_named r) form; html_out = append_extras_html out extras
               in case rn_text_body r of
                    Some t \<Rightarrow>
                      (case exec_text L t (flatten_form form) of
                         None \<Rightarrow> None
                       | Some tx \<Rightarrow> Some (html_out, append_extras_text tx extras))
                  | None \<Rightarrow> Some (html_out, html_to_text (tl_lower L) (tl_unescape L) html_out)))"

section \<open>Lemmas\<close>

definition is_markup :: "char \<Rightarrow> bool" where
  "is_markup c \<longleftrightarrow> c = CHR ''<'' \<or> c = CHR ''>''"

lemma escape_char_plain: "filter is_markup (escape_char c) = []" "34 \<notin> byte ` set (escape_char c)" "39 \<notin> byte ` set (escape_char c)"
  by (auto simp: escape_char_def is_markup_def byte_def)

lemma html_escape_plain: "filter is_markup (html_escape s) = []" "34 \<notin> byte ` set (html_escape s)" "39 \<notin> byte ` set (html_escape s)"
  using escape_char_plain by (induction s) (simp_all add: html_escape_def image_Un)

lemma newline_not_markup [simp]: "\<not> is_markup newline"
  by code_simp

lemma end_line_markup: "filter is_markup (end_line out) = filter is_markup out"
  by (simp add: end_line_def)

lemma sorted_keys_distinct:
  "distinct (map fst m) \<Longrightarrow> sorted_wrt (<) (sorted_keys m) \<and> set (sorted_keys m) = fst ` set m"
  by (simp add: sorted_keys_def strict_sorted_iff)

lemma extra_fields_keys:
  "distinct (map fst form) \<Longrightarrow> distinct (map fst (extra_fields named form))"
proof -
  have "map fst (extra_fields named form) = map fst (filter (\<lambda>(k, v). k \<notin> named \<and> v \<noteq> [] \<and> trim_space (join '', '' v) \<noteq> []) form)"
    by (simp add: extra_fields_def case_prod_unfold)
  then show "distinct (map fst form) \<Longrightarrow> distinct (map fst (extra_fields named form))"
    by (simp add: distinct_map_filter)
qed

lemma extra_fields_set:
  "set (extra_fields named form) = {(k, join '', '' v) |k v. (k, v) \<in> set form \<and> k \<notin> named \<and> v \<noteq> [] \<and>
     trim_space (join '', '' v) \<noteq> []}"
proof (rule set_eqI)
  fix x
  show "x \<in> set (extra_fields named form) \<longleftrightarrow> x \<in> {(k, join '', '' v) |k v. (k, v) \<in> set form \<and> k \<notin> named \<and> v \<noteq> [] \<and>
     trim_space (join '', '' v) \<noteq> []}"
    unfolding extra_fields_def set_map set_filter by (cases x) (simp add: image_iff Bex_def, metis)
qed

lemma frame_markup:
  "filter is_markup (concat (map (\<lambda>k. ''  <li><strong>'' @ html_escape k @ '':</strong> '' @
      html_escape (f k) @ ''</li>'' @ [newline]) ks)) = concat (replicate (length ks) ''<><><><>'')"
proof (induction ks)
  case (Cons k ks)
  have "filter is_markup (''  <li><strong>'' @ html_escape k @ '':</strong> '' @ html_escape (f k) @ ''</li>'' @ [newline]) =
      filter is_markup ''  <li><strong>'' @ filter is_markup '':</strong> '' @ filter is_markup ''</li>''"
    by (simp only: filter_append html_escape_plain filter.simps newline_not_markup if_False append_Nil append_Nil2)
  also have "\<dots> = ''<><><><>''" by code_simp
  finally show ?case using Cons.IH by (simp only: list.map concat.simps filter_append [of _ _ "concat _"] length_Cons replicate_Suc)
qed simp

lemma extras_html_markup:
  "filter is_markup (append_extras_html html m) = filter is_markup html @ (if m = [] then []
     else ''<><><><>'' @ concat (replicate (length m) ''<><><><>'') @ ''<>'')"
proof -
  have fixed: "filter is_markup ''<hr>'' = ''<>''" "filter is_markup ''<p>Additional fields:</p>'' = ''<><>''"
    "filter is_markup ''<ul>'' = ''<>''" "filter is_markup ''</ul>'' = ''<>''"
    by (code_simp, code_simp, code_simp, code_simp)
  have n: "filter is_markup [newline] = []" by simp
  have len: "length (sorted_keys m) = length m" by (simp add: sorted_keys_def)
  show ?thesis
  proof (cases "m = []")
    case False
    then have "filter is_markup (append_extras_html html m) = filter is_markup html @ ''<>'' @ ''<><>'' @ ''<>'' @
        concat (replicate (length m) ''<><><><>'') @ ''<>''"
      by (simp only: append_extras_html_def if_False filter_append end_line_markup fixed n
          frame_markup len append_Nil append_Nil2)
    with False show ?thesis by simp
  qed (simp add: append_extras_html_def)
qed

lemma extra_fields_value:
  assumes "distinct (map fst form)" "(k, v) \<in> set (extra_fields named form)"
  shows "value_of (extra_fields named form) k = v"
  using assms extra_fields_keys [OF assms(1), of named] by (simp add: value_of_def)

text \<open>The block's entries, in key order.\<close>

definition extras_list :: "smap \<Rightarrow> smap" where
  "extras_list m = map (\<lambda>k. (k, value_of m k)) (sorted_keys m)"

lemma extras_list_simps:
  "map fst (extras_list m) = sorted_keys m" "length (extras_list m) = length m" "extras_list m = [] \<longleftrightarrow> m = []"
  by (simp_all add: extras_list_def sorted_keys_def comp_def) (metis list.map_disc_iff set_empty set_sort)

lemma extras_list_set:
  assumes "distinct (map fst form)"
  shows "set (extras_list (extra_fields named form)) = set (extra_fields named form)"
proof -
  have "set (extras_list (extra_fields named form)) =
      (\<lambda>k. (k, value_of (extra_fields named form) k)) ` fst ` set (extra_fields named form)"
    using sorted_keys_distinct [OF extra_fields_keys [OF assms]] by (simp add: extras_list_def)
  also have "\<dots> = set (extra_fields named form)"
    using extra_fields_value [OF assms] by (force simp: image_iff)
  finally show ?thesis .
qed

lemma append_extras_text_list:
  "append_extras_text out m = (if extras_list m = [] then out
     else end_line out @ [newline] @ ''Additional fields:'' @ [newline] @
       concat (map (\<lambda>(k, v). ''  '' @ k @ '': '' @ v @ [newline]) (extras_list m)))"
  unfolding append_extras_text_def extras_list_simps by (simp add: extras_list_def comp_def)

section \<open>Properties\<close>


definition demo_template_lib :: template_lib where
  "demo_template_lib = \<lparr>parse_text = (\<lambda>_. Some LeafNode), parse_html = (\<lambda>_. Some LeafNode),
     exec_text = (\<lambda>_ _. Some ''Hi''), exec_html = (\<lambda>_ _. Some ''Hi''), read_file = (\<lambda>_. None),
     tl_lower = id, tl_unescape = id\<rparr>"

definition demo_renderer :: renderer where
  "demo_renderer = \<lparr>rn_subject = LeafNode, rn_body = LeafNode, rn_html_body = None, rn_text_body = None, rn_named = {''email''}\<rparr>"

definition demo_form :: form where
  "demo_form = [(''email'', [''a@x'']), (''b'', [''<i>''])]"


end
