(* ===== verification/Gateway.thy ===== *)
theory Gateway
  imports Gateway_Parse Provider_Checks Gate_Calls Idempotency Rate_Limit Client_IP Template
begin

text \<open>
  \<open>core/gateway/handler.go\<close>: one endpoint's handler. A request runs against the state the
  handler shares between requests (limiters, idempotency backend, reputation cache, store,
  provider); each phase of \<open>ServeHTTP\<close> is a definition that either answers or passes on.
  Requests are run one at a time here; claims of concurrent requests are the subject of
  theory \<open>Idempotency\<close>. Log lines and metrics are not modelled.
\<close>

section \<open>Requests and replies\<close>

text \<open>\<open>rq_header\<close> is \<open>Header.Get\<close>, empty for an absent header.\<close>

record request =
  rq_method :: string
  rq_header :: "string \<Rightarrow> string"
  rq_remote :: string
  rq_body :: bytes

datatype body =
  Plain string
| SuccessJson string string "(string \<times> string) list"
| ValidationJson "string \<rightharpoonup> string"
| DryRunJson string message
| TokenJson string
| RawBody bytes
| NoBody

record reply =
  rp_status :: int
  rp_type :: string
  rp_location :: string
  rp_cors :: string
  rp_body :: body

definition http_error :: "string \<Rightarrow> int \<Rightarrow> reply" where
  "http_error msg status = \<lparr>rp_status = status, rp_type = ''text/plain; charset=utf-8'', rp_location = [],
     rp_cors = [], rp_body = Plain msg\<rparr>"

definition write_json :: "int \<Rightarrow> body \<Rightarrow> reply" where
  "write_json status b = \<lparr>rp_status = status, rp_type = ''application/json; charset=utf-8'', rp_location = [],
     rp_cors = [], rp_body = b\<rparr>"

definition redirect :: "string \<Rightarrow> reply" where
  "redirect url = \<lparr>rp_status = 303, rp_type = [], rp_location = url, rp_cors = [], rp_body = NoBody\<rparr>"

section \<open>Handler and shared state\<close>

record 'p handler =
  h_cfg :: endpoint_config
  h_renderer :: renderer
  h_trusted :: "'p list"
  h_email_field :: string
  h_max_body :: int
  h_log_failed :: bool
  h_csrf_ttl :: duration
  h_attach :: "attachment_policy option"
  h_pob :: "pob_gate option"
  h_captcha :: "bool option"
    \<comment> \<open>configured, and whether it fails closed\<close>

record ('c, 'i, 'r) world =
  w_limiter :: "'c limiter option"
  w_auth_fail :: "'c limiter option"
  w_idem :: 'i
  w_rep :: "'r checker option"
  w_gate :: "gate option"
  w_net :: net
  w_ticks :: nat
  w_ids :: nat
  w_calls :: nat

record ('c, 'i, 'r, 'a, 'p) gw_env =
  g_clock :: "nat \<Rightarrow> instant"
  g_uuid :: "nat \<Rightarrow> string"
  g_expires :: "nat \<Rightarrow> duration \<Rightarrow> bool"
  g_lru :: "'c bucket_lru"
  g_idem :: "'i cacher_ops"
  g_rep_lru :: "'r rep_lru"
  g_netip :: "('a, 'p) netip"
  g_mac :: mac
  g_urls :: urls
  g_mail :: mail_parser
  g_lower :: "string \<Rightarrow> string"
  g_sfs :: "nat \<Rightarrow> string \<Rightarrow> string \<Rightarrow> sfs_reply"
  g_turnstile :: "nat \<Rightarrow> string \<Rightarrow> string \<Rightarrow> captcha_answer"
  g_templates :: template_lib
  g_json :: json_lib
  g_files :: file_lib
  g_parse_form :: "int \<Rightarrow> request \<Rightarrow> body_error + (form \<times> (string \<times> bytes option) list option)"
  g_encode :: "body \<Rightarrow> bytes"

definition tick :: "('c, 'i, 'r, 'a, 'p) gw_env \<Rightarrow> ('c, 'i, 'r) world \<Rightarrow> instant \<times> ('c, 'i, 'r) world" where
  "tick G w = (g_clock G (w_ticks w), w\<lparr>w_ticks := Suc (w_ticks w)\<rparr>)"

text \<open>A phase answers (left) or passes a value on (right).\<close>

type_synonym ('c, 'i, 'r, 'x) phase = "('c, 'i, 'r) world \<Rightarrow> (reply + 'x) \<times> ('c, 'i, 'r) world"

definition proceed :: "('c, 'i, 'r, 'x) phase \<Rightarrow> ('x \<Rightarrow> ('c, 'i, 'r) world \<Rightarrow> reply \<times> ('c, 'i, 'r) world) \<Rightarrow>
    ('c, 'i, 'r) world \<Rightarrow> reply \<times> ('c, 'i, 'r) world" where
  "proceed f k w = (case f w of (Inl r, w1) \<Rightarrow> (r, w1) | (Inr x, w1) \<Rightarrow> k x w1)"

definition api_mode :: "'p handler \<Rightarrow> bool" where
  "api_mode h \<longleftrightarrow> is_api (h_cfg h)"

definition client_of :: "('c, 'i, 'r, 'a, 'p) gw_env \<Rightarrow> 'p handler \<Rightarrow> request \<Rightarrow> string" where
  "client_of G h rq = client_ip (g_netip G) (h_trusted h) (rq_remote rq) (rq_header rq ''X-Forwarded-For'')"

section \<open>Writing responses\<close>

definition write_success_response :: "'p handler \<Rightarrow> request \<Rightarrow> body \<Rightarrow> reply" where
  "write_success_response h rq b =
     (if ep_redirect_success (h_cfg h) \<noteq> [] \<and> negotiate (rq_header rq ''Accept'') True = ModeRedirect
      then redirect (ep_redirect_success (h_cfg h)) else write_json 200 b)"

definition write_error_response :: "'p handler \<Rightarrow> request \<Rightarrow> int \<Rightarrow> string \<Rightarrow> reply" where
  "write_error_response h rq status msg =
     (if ep_redirect_error (h_cfg h) \<noteq> [] \<and> negotiate (rq_header rq ''Accept'') True = ModeRedirect
      then redirect (ep_redirect_error (h_cfg h)) else http_error msg status)"

definition write_validation_error_response :: "'p handler \<Rightarrow> request \<Rightarrow> (string \<rightharpoonup> string) \<Rightarrow> reply" where
  "write_validation_error_response h rq errs =
     (if ep_redirect_error (h_cfg h) \<noteq> [] \<and> negotiate (rq_header rq ''Accept'') True = ModeRedirect
      then redirect (ep_redirect_error (h_cfg h)) else write_json 422 (ValidationJson errs))"

section \<open>Spam checks\<close>

type_synonym ('c, 'i, 'r) form_check = "form \<Rightarrow> string \<Rightarrow> ('c, 'i, 'r) world \<Rightarrow> verdict \<times> ('c, 'i, 'r) world"

definition build_header_checks :: "('c, 'i, 'r, 'a, 'p) gw_env \<Rightarrow> endpoint_config \<Rightarrow> (request \<Rightarrow> verdict) list" where
  "build_header_checks G cfg =
     (case ep_allowed_origins cfg of
        Some (o1 # os) \<Rightarrow>
          [\<lambda>rq. if fst (check_origin (g_urls G) (rq_header rq ''Origin'') (rq_header rq ''Referer'') (o1 # os)) = HardReject
                then blocks ''origin'' else passes]
      | _ \<Rightarrow> [])"

definition honeypot_check :: "string \<Rightarrow> ('c, 'i, 'r) form_check" where
  "honeypot_check field form ip w =
     (if check_honeypot form field = SilentReject then (blocks ''honeypot'')\<lparr>v_silent := True\<rparr> else passes, w)"

definition csrf_check :: "('c, 'i, 'r, 'a, 'p) gw_env \<Rightarrow> bytes \<Rightarrow> duration \<Rightarrow> ('c, 'i, 'r) form_check" where
  "csrf_check G secret ttl form ip w =
     (let (now, w1) = tick G w
      in (if csrf_verify (g_mac G) (form_get form csrf_token_field) secret ttl now = None then passes
          else (blocks ''csrf'')\<lparr>v_event := ''csrf_rejected''\<rparr>, w1))"

definition pob_check :: "('c, 'i, 'r, 'a, 'p) gw_env \<Rightarrow> pob_gate \<Rightarrow> ('c, 'i, 'r) form_check" where
  "pob_check G p form ip w =
     (let (now, w1) = tick G w
      in (if pob_verify (g_mac G) p (form_get form pob_token_field) now = None then passes
          else (blocks ''proof_of_browser'')\<lparr>v_event := ''pob_rejected''\<rparr>, w1))"

definition captcha_check :: "('c, 'i, 'r, 'a, 'p) gw_env \<Rightarrow> bool \<Rightarrow> ('c, 'i, 'r) form_check" where
  "captcha_check G fail_closed form ip w =
     (let token = form_get form turnstile_field;
          (r, asked) = captcha_verify token (g_turnstile G (w_calls w) token ip)
      in (captcha_verdict fail_closed r, if asked then w\<lparr>w_calls := Suc (w_calls w)\<rparr> else w))"

definition reputation_check :: "('c, 'i, 'r, 'a, 'p) gw_env \<Rightarrow> string \<Rightarrow> ('c, 'i, 'r) form_check" where
  "reputation_check G email_field form ip w =
     (case w_rep w of
        None \<Rightarrow> (passes, w)
      | Some c \<Rightarrow>
          let (now, w1) = tick G w; email = form_get form email_field;
              ((res, asked), c1) = rep_check (g_rep_lru G) c email ip (g_sfs G (w_calls w) email ip) now;
              w2 = w1\<lparr>w_rep := Some c1, w_calls := (if asked then Suc (w_calls w) else w_calls w)\<rparr>
          in (if rr_blocked res then blocks ''reputation''
              else if rr_failed_open res then passes\<lparr>v_kind := ''reputation'', v_failed_open := True\<rparr>
              else passes, w2))"

definition build_form_checks :: "('c, 'i, 'r, 'a, 'p) gw_env \<Rightarrow> 'p handler \<Rightarrow> ('c, 'i, 'r) form_check list" where
  "build_form_checks G h =
     (let cfg = h_cfg h
      in (if ep_honeypot cfg \<noteq> [] then [honeypot_check (ep_honeypot cfg)] else []) @
         (if ep_csrf_secret cfg \<noteq> [] then [csrf_check G (ep_csrf_secret cfg) (h_csrf_ttl h)] else []) @
         (case h_pob h of None \<Rightarrow> [] | Some p \<Rightarrow> [pob_check G p]) @
         (case h_captcha h of None \<Rightarrow> [] | Some fc \<Rightarrow> [captcha_check G fc]) @
         (if ep_reputation cfg \<noteq> None then [reputation_check G (h_email_field h)] else []))"

text \<open>\<open>applySpamVerdict\<close>: the answer to a blocking verdict.\<close>

definition apply_spam_verdict :: "'p handler \<Rightarrow> request \<Rightarrow> string \<Rightarrow> verdict \<Rightarrow> reply option" where
  "apply_spam_verdict h rq sid v =
     (if \<not> v_blocked v then None
      else if v_silent v then Some (write_success_response h rq (SuccessJson ''ok'' sid []))
      else Some (write_error_response h rq (if v_status v = 0 then 403 else v_status v) ''forbidden''))"

fun run_header_checks :: "'p handler \<Rightarrow> request \<Rightarrow> string \<Rightarrow> (request \<Rightarrow> verdict) list \<Rightarrow> reply option" where
  "run_header_checks h rq sid [] = None"
| "run_header_checks h rq sid (c # cs) =
     (case apply_spam_verdict h rq sid (c rq) of Some r \<Rightarrow> Some r | None \<Rightarrow> run_header_checks h rq sid cs)"

fun run_form_checks :: "'p handler \<Rightarrow> request \<Rightarrow> string \<Rightarrow> form \<Rightarrow> string \<Rightarrow> ('c, 'i, 'r) form_check list \<Rightarrow>
    ('c, 'i, 'r, unit) phase" where
  "run_form_checks h rq sid form ip [] w = (Inr (), w)"
| "run_form_checks h rq sid form ip (c # cs) w =
     (case c form ip w of
        (v, w1) \<Rightarrow>
          (case apply_spam_verdict h rq sid v of
             Some r \<Rightarrow> (Inl r, w1)
           | None \<Rightarrow> run_form_checks h rq sid form ip cs w1))"

definition serve_challenge :: "('c, 'i, 'r, 'a, 'p) gw_env \<Rightarrow> 'p handler \<Rightarrow> pob_gate \<Rightarrow> request \<Rightarrow> ('c, 'i, 'r) world \<Rightarrow>
    reply \<times> ('c, 'i, 'r) world" where
  "serve_challenge G h p rq w =
     (let origin = rq_header rq ''Origin'';
          allowed = (case ep_allowed_origins (h_cfg h) of None \<Rightarrow> [] | Some os \<Rightarrow> os)
      in if origin \<noteq> [] \<and> allowed \<noteq> [] \<and> fst (check_origin (g_urls G) origin [] allowed) = HardReject
         then (http_error ''forbidden'' 403, w)
         else let (now, w1) = tick G w
           in ((write_json 200 (TokenJson (pob_issue (g_mac G) p now)))\<lparr>rp_cors := origin\<rparr>, w1))"

section \<open>Before the body\<close>

text \<open>A failed authentication spends the client's failure budget; a successful one does not.\<close>

definition auth_phase :: "('c, 'i, 'r, 'a, 'p) gw_env \<Rightarrow> 'p handler \<Rightarrow> request \<Rightarrow> ('c, 'i, 'r, string) phase" where
  "auth_phase G h rq w =
     (case authenticate_api_request (ep_api_keys (h_cfg h)) (rq_header rq ''Authorization'') of
        Some key \<Rightarrow> (Inr key, w)
      | None \<Rightarrow>
          (case w_auth_fail w of
             None \<Rightarrow> (Inl (http_error ''unauthorized'' 401), w)
           | Some l \<Rightarrow>
               let (now, w1) = tick G w; (allowed, l1) = allow_at (g_lru G) l (client_of G h rq) now;
                   w2 = w1\<lparr>w_auth_fail := Some l1\<rparr>
               in if \<not> allowed then (Inl (http_error ''too many failed authentication attempts'' 429), w2)
                  else (Inl (http_error ''unauthorized'' 401), w2)))"

definition replay_cached_response :: "idem_response \<Rightarrow> reply" where
  "replay_cached_response r = \<lparr>rp_status = ir_status r, rp_type = ir_content_type r, rp_location = [],
     rp_cors = [], rp_body = RawBody (ir_body r)\<rparr>"

definition upper_hex :: "nat \<Rightarrow> char" where
  "upper_hex n = char_of (if n < 10 then 48 + n else 55 + n)"

fun key_error_string :: "key_error \<Rightarrow> string" where
  "key_error_string KeyEmpty = ''Idempotency-Key must not be empty''"
| "key_error_string (KeyTooLong n) =
     ''Idempotency-Key length '' @ show_int (int n) @ '' exceeds maximum '' @ show_int (int max_key_length)"
| "key_error_string (KeyByte b i) =
     ''Idempotency-Key contains non-printable byte 0x'' @ [upper_hex (byte b div 16), upper_hex (byte b mod 16)] @
     '' at position '' @ show_int (int i)"

definition idempotency_phase :: "('c, 'i, 'r, 'a, 'p) gw_env \<Rightarrow> request \<Rightarrow> ('c, 'i, 'r, string option) phase" where
  "idempotency_phase G rq w =
     (let key = rq_header rq ''Idempotency-Key''
      in if key = [] then (Inr None, w)
         else case validate_key key of Some e \<Rightarrow> (Inl (http_error (key_error_string e) 400), w)
       | None \<Rightarrow>
         let (now, w1) = tick G w; ((cached, in_flight), i1) = c_lookup (g_idem G) (w_idem w1) key now;
                  w2 = w1\<lparr>w_idem := i1\<rparr>
           in case cached of
                Some r \<Rightarrow> (Inl (replay_cached_response r), w2)
              | None \<Rightarrow>
                  if in_flight then (Inl (http_error ''duplicate request in flight for this Idempotency-Key'' 409), w2)
                  else let (now2, w3) = tick G w2; (claimed, i2) = c_claim (g_idem G) (w_idem w3) key now2;
                           w4 = w3\<lparr>w_idem := i2\<rparr>
                    in if \<not> claimed then (Inl (http_error ''duplicate request in flight for this Idempotency-Key'' 409), w4)
                       else (Inr (Some key), w4))"

text \<open>What the deferred \<open>finalizeIdempotent\<close> does with the recorded reply.\<close>

definition finalize_idempotent :: "('c, 'i, 'r, 'a, 'p) gw_env \<Rightarrow> string \<Rightarrow> reply \<Rightarrow> ('c, 'i, 'r) world \<Rightarrow> ('c, 'i, 'r) world" where
  "finalize_idempotent G key r w =
     (if \<not> (rp_status r = 200 \<or> rp_status r = 422) then w\<lparr>w_idem := c_abandon (g_idem G) (w_idem w) key\<rparr>
      else let (now, w1) = tick G w
        in w1\<lparr>w_idem := c_store (g_idem G) (w_idem w1) key
             \<lparr>ir_status = rp_status r, ir_content_type = rp_type r, ir_body = g_encode G (rp_body r)\<rparr> now\<rparr>)"

definition form_head_phase :: "('c, 'i, 'r, 'a, 'p) gw_env \<Rightarrow> 'p handler \<Rightarrow> request \<Rightarrow> string \<Rightarrow> ('c, 'i, 'r, string) phase" where
  "form_head_phase G h rq sid w =
     (if \<not> is_form_content_type (rq_header rq ''Content-Type'') then (Inl (http_error ''form-encoded body required (application/x-www-form-urlencoded or multipart/form-data)'' 400), w)
      else case run_header_checks h rq sid (build_header_checks G (h_cfg h)) of
        Some r \<Rightarrow> (Inl r, w)
      | None \<Rightarrow> (Inr (client_of G h rq), w))"

definition rate_phase :: "('c, 'i, 'r, 'a, 'p) gw_env \<Rightarrow> 'p handler \<Rightarrow> request \<Rightarrow> string \<Rightarrow> ('c, 'i, 'r, unit) phase" where
  "rate_phase G h rq key w =
     (case w_limiter w of
        None \<Rightarrow> (Inr (), w)
      | Some l \<Rightarrow>
          let (now, w1) = tick G w; (allowed, l1) = allow_at (g_lru G) l key now; w2 = w1\<lparr>w_limiter := Some l1\<rparr>
          in if allowed then (Inr (), w2) else (Inl (write_error_response h rq 429 ''rate limit exceeded''), w2))"

section \<open>The body\<close>

definition body_error_reply :: "'p handler \<Rightarrow> request \<Rightarrow> string \<Rightarrow> body_error \<Rightarrow> reply" where
  "body_error_reply h rq generic e =
     (case e of
        TooLarge \<Rightarrow> write_error_response h rq 413 (''request body too large (limit: '' @ show_int (h_max_body h) @ '' bytes)'')
      | Visible m \<Rightarrow> write_error_response h rq 400 m
      | Hidden _ \<Rightarrow> write_error_response h rq 400 generic)"

definition vet_attachments :: "('c, 'i, 'r, 'a, 'p) gw_env \<Rightarrow> 'p handler \<Rightarrow> request \<Rightarrow> attachment_policy \<Rightarrow>
    attachment list \<Rightarrow> reply + attachment list" where
  "vet_attachments G h rq p candidates =
     (case vet (g_files G) p candidates of
        Inr accepted \<Rightarrow> Inr accepted
      | Inl violations \<Rightarrow>
          Inl (write_validation_error_response h rq (validation_fields [] (rev violations))))"

definition api_body_phase :: "('c, 'i, 'r, 'a, 'p) gw_env \<Rightarrow> 'p handler \<Rightarrow> request \<Rightarrow> reply + (form \<times> attachment list)" where
  "api_body_phase G h rq =
     (if \<not> is_json_content_type (rq_header rq ''Content-Type'') then Inl (http_error ''JSON body required (application/json)'' 415)
      else case parse_json_body (g_json G) (h_max_body h) (rq_body rq) of
        Inl e \<Rightarrow> Inl (body_error_reply h rq ''malformed request body'' e)
      | Inr (form, raw) \<Rightarrow>
          (if raw = [] then Inr (form, [])
           else case h_attach h of
             None \<Rightarrow> Inl (write_json 422 (ValidationJson (validation_fields []
               [(''attachments'', ''this endpoint does not accept attachments ([endpoints.attachments] not configured)'')])))
           | Some p \<Rightarrow>
               (case decode_api_attachments (g_files G) 0 raw of
                  Inl e \<Rightarrow> Inl (write_error_response h rq 400
                    (case e of Visible m \<Rightarrow> m | _ \<Rightarrow> ''malformed attachments''))
                | Inr candidates \<Rightarrow> map_sum id (\<lambda>atts. (form, atts)) (vet_attachments G h rq p candidates))))"

definition form_body_phase :: "('c, 'i, 'r, 'a, 'p) gw_env \<Rightarrow> 'p handler \<Rightarrow> request \<Rightarrow> reply + (form \<times> attachment list)" where
  "form_body_phase G h rq =
     (case g_parse_form G (h_max_body h) rq of
        Inl TooLarge \<Rightarrow> Inl (body_error_reply h rq [] TooLarge)
      | Inl _ \<Rightarrow> Inl (write_error_response h rq 400 ''malformed request body'')
      | Inr (form, multipart) \<Rightarrow>
          (case (h_attach h, multipart) of
             (Some p, Some fs) \<Rightarrow>
               (case collect_multipart_files (g_files G) fs of
                  None \<Rightarrow> Inl (write_error_response h rq 400 ''malformed request body'')
                | Some candidates \<Rightarrow> map_sum id (\<lambda>atts. (form, atts)) (vet_attachments G h rq p candidates))
           | _ \<Rightarrow> Inr (form, [])))"

section \<open>The message\<close>

definition validate_submission :: "('c, 'i, 'r, 'a, 'p) gw_env \<Rightarrow> 'p handler \<Rightarrow> request \<Rightarrow> form \<Rightarrow> reply option" where
  "validate_submission G h rq form =
     (let missing = required_fields form (ep_required (h_cfg h));
          v = trim_space (form_get form (h_email_field h));
          errs = (if v \<noteq> [] \<and> \<not> email_ok (g_mail G) v then [(h_email_field h, ''invalid email format'')] else [])
      in if missing \<noteq> [] \<or> errs \<noteq> []
         then Some (write_validation_error_response h rq (validation_fields missing errs)) else None)"

definition processing_failed :: reply where
  "processing_failed = http_error ''submission could not be processed'' 500"

text \<open>The subject and the two body parts.\<close>

definition render_phase :: "('c, 'i, 'r, 'a, 'p) gw_env \<Rightarrow> 'p handler \<Rightarrow> form \<Rightarrow> reply + (string \<times> string \<times> string)" where
  "render_phase G h form =
     (let L = g_templates G; r = h_renderer h
      in case render_subject L r form of
           None \<Rightarrow> Inl processing_failed
         | Some subject \<Rightarrow>
             if rn_html_body r \<noteq> None then
               (case render_body_html L r form of
                  None \<Rightarrow> Inl processing_failed
                | Some (html, tx) \<Rightarrow> Inr (subject, tx, html))
             else (case render_body L r form of
                  None \<Rightarrow> Inl processing_failed
                | Some tx \<Rightarrow> Inr (subject, tx, [])))"

definition override_error :: "string \<Rightarrow> reply" where
  "override_error msg = write_json 422 (ValidationJson (validation_fields [] [(to_override_field, msg)]))"

definition recipients_phase :: "('c, 'i, 'r, 'a, 'p) gw_env \<Rightarrow> 'p handler \<Rightarrow> form \<Rightarrow> reply + string list" where
  "recipients_phase G h form =
     (if \<not> api_mode h then Inr (ep_to (h_cfg h))
      else case map_of form to_override_field of
        None \<Rightarrow> Inr (ep_to (h_cfg h))
      | Some override \<Rightarrow>
          if override = [] then Inl (override_error ''must contain at least one address'')
          else let trimmed = map trim_space override
            in if list_ex (\<lambda>a. \<not> email_ok (g_mail G) a) trimmed
               then Inl (override_error (''invalid email address(es): ['' @
                 join '' '' (filter (\<lambda>a. \<not> email_ok (g_mail G) (trim_space a)) override) @ '']''))
               else Inr trimmed)"

definition reply_to :: "('c, 'i, 'r, 'a, 'p) gw_env \<Rightarrow> 'p handler \<Rightarrow> form \<Rightarrow> string" where
  "reply_to G h form =
     (let field = (if ep_reply_to_email_field (h_cfg h) = [] then h_email_field h else ep_reply_to_email_field (h_cfg h));
          v = trim_space (form_get form field)
      in if v \<noteq> [] \<and> email_ok (g_mail G) v then v else [])"

definition build_message :: "('c, 'i, 'r, 'a, 'p) gw_env \<Rightarrow> 'p handler \<Rightarrow> form \<Rightarrow> attachment list \<Rightarrow> string \<Rightarrow>
    string \<times> string \<times> string \<Rightarrow> string list \<Rightarrow> message" where
  "build_message G h form atts sid parts to =
     (case parts of (subject, tx, html) \<Rightarrow>
        \<lparr>msg_from = ep_from (h_cfg h), msg_to = to, msg_reply_to = reply_to G h form, msg_subject = subject,
         msg_body_text = tx, msg_body_html = html, msg_submission_id = sid,
         msg_fields = storable_fields form (ep_honeypot (h_cfg h)), msg_attachments = atts, msg_headers = []\<rparr>)"

section \<open>Persisting and sending\<close>

definition gw_row :: "('c, 'i, 'r, 'a, 'p) gw_env \<Rightarrow> 'p handler \<Rightarrow> request \<Rightarrow> message \<Rightarrow> status \<Rightarrow> instant \<Rightarrow> submission" where
  "gw_row G h rq m st now =
     (let bare = \<lparr>sub_id = msg_submission_id m, sub_endpoint = ep_path (h_cfg h), sub_transport = tc_type (ep_transport (h_cfg h)),
            sub_from = [], sub_to = [], sub_reply_to = [], sub_subject = [], sub_body_text = [], sub_body_html = [],
            sub_fields = [], sub_attachments = [], sub_headers = [], sub_client_ip = [], sub_status = st,
            sub_message_id = [], sub_last_error = [], sub_created_at = time_unix now, sub_sent_at = None\<rparr>;
          ip = (if ep_strip_client_ip (h_cfg h) then [] else client_of G h rq)
      in if \<not> h_log_failed h then bare
         else if st = StSuppressed then
           bare\<lparr>sub_from := msg_from m, sub_subject := msg_subject m, sub_body_text := msg_body_text m,
             sub_body_html := msg_body_html m, sub_fields := msg_fields m, sub_client_ip := ip\<rparr>
         else bare\<lparr>sub_from := msg_from m, sub_to := msg_to m, sub_reply_to := msg_reply_to m,
             sub_subject := msg_subject m, sub_body_text := msg_body_text m, sub_body_html := msg_body_html m,
             sub_fields := msg_fields m, sub_attachments := msg_attachments m, sub_client_ip := ip\<rparr>)"

text \<open>Whether a row was written, and whether the submission may enter the retry queue.\<close>

definition gw_record_submission :: "('c, 'i, 'r, 'a, 'p) gw_env \<Rightarrow> 'p handler \<Rightarrow> request \<Rightarrow> message \<Rightarrow>
    ('c, 'i, 'r) world \<Rightarrow> (bool \<times> bool) \<times> ('c, 'i, 'r) world" where
  "gw_record_submission G h rq m w =
     (if \<not> gate_up (w_gate w) then ((False, False), w)
      else let (now, w1) = tick G w;
               (persisted, g) = try_store (record_submission (gw_row G h rq m StSending now)) (w_gate w1)
           in ((persisted, persisted \<and> h_log_failed h), w1\<lparr>w_gate := g\<rparr>))"

definition record_suppressed_submission :: "('c, 'i, 'r, 'a, 'p) gw_env \<Rightarrow> 'p handler \<Rightarrow> request \<Rightarrow> message \<Rightarrow>
    ('c, 'i, 'r) world \<Rightarrow> ('c, 'i, 'r) world" where
  "record_suppressed_submission G h rq m w =
     (if \<not> gate_up (w_gate w) then w
      else let (now, w1) = tick G w
           in w1\<lparr>w_gate := snd (try_store (record_submission (gw_row G h rq m StSuppressed now)) (w_gate w1))\<rparr>)"

definition gw_send_failed :: "('c, 'i, 'r, 'a, 'p) gw_env \<Rightarrow> 'p handler \<Rightarrow> request \<Rightarrow> string \<Rightarrow> bool \<Rightarrow> bool \<Rightarrow>
    send_error \<Rightarrow> ('c, 'i, 'r) world \<Rightarrow> reply \<times> ('c, 'i, 'r) world" where
  "gw_send_failed G h rq sid persisted queueable err w =
     (let (queued, w1) =
        (if queueable \<and> is_retryable err then
           (let (now, w1) = tick G w; (ok, g) = try_store (enqueue sid now) (w_gate w1)
            in (ok, w1\<lparr>w_gate := g\<rparr>))
         else (False, w))
      in if queued then
           (if api_mode h then write_json 202 (SuccessJson ''queued'' sid [])
            else write_success_response h rq (SuccessJson ''queued'' sid []), w1)
         else (http_error ''submission could not be delivered'' 502,
           if persisted then w1\<lparr>w_gate := snd (try_store (mark_status sid StFailed (send_error_string err)) (w_gate w1))\<rparr>
           else w1))"

definition gw_sent :: "('c, 'i, 'r, 'a, 'p) gw_env \<Rightarrow> 'p handler \<Rightarrow> request \<Rightarrow> string \<Rightarrow> bool \<Rightarrow> string \<Rightarrow>
    (string \<times> string) list \<Rightarrow> ('c, 'i, 'r) world \<Rightarrow> reply \<times> ('c, 'i, 'r) world" where
  "gw_sent G h rq sid persisted message_id gone w =
     (write_success_response h rq (SuccessJson ''ok'' sid gone),
      if persisted then
        (let (now, w1) = tick G w in w1\<lparr>w_gate := snd (try_store (mark_sent sid message_id now) (w_gate w1))\<rparr>)
      else w)"

definition deliver_http :: "('c, 'i, 'r, 'a, 'p) gw_env \<Rightarrow> 'p handler \<Rightarrow> request \<Rightarrow> message \<Rightarrow> ('c, 'i, 'r) world \<Rightarrow>
    reply \<times> ('c, 'i, 'r) world" where
  "deliver_http G h rq msg w =
     (let sid = msg_submission_id msg;
          (remaining, gone, g) = filter_suppressed (g_lower G) (msg_to msg) (w_gate w);
          m = msg\<lparr>msg_to := remaining\<rparr>; w1 = w\<lparr>w_gate := g\<rparr>
      in if remaining = [] then
           (write_success_response h rq (SuccessJson ''suppressed'' sid gone), record_suppressed_submission G h rq m w1)
         else let ((persisted, queueable), w2) = gw_record_submission G h rq m w1;
                  (outcome, n) = send_with_retry (g_expires G (w_ids w)) m (w_net w2); w3 = w2\<lparr>w_net := n\<rparr>
           in case outcome of
                Inl err \<Rightarrow> gw_send_failed G h rq sid persisted queueable err w3
              | Inr message_id \<Rightarrow> gw_sent G h rq sid persisted message_id gone w3)"

text \<open>From the parsed body to the reply.\<close>

definition submit :: "('c, 'i, 'r, 'a, 'p) gw_env \<Rightarrow> 'p handler \<Rightarrow> request \<Rightarrow> string \<Rightarrow> form \<Rightarrow> attachment list \<Rightarrow>
    ('c, 'i, 'r) world \<Rightarrow> reply \<times> ('c, 'i, 'r) world" where
  "submit G h rq sid form atts w =
     (case validate_submission G h rq form of
        Some r \<Rightarrow> (r, w)
      | None \<Rightarrow>
          (case render_phase G h form of
             Inl r \<Rightarrow> (r, w)
           | Inr parts \<Rightarrow>
               (case recipients_phase G h form of
                  Inl r \<Rightarrow> (r, w)
                | Inr to \<Rightarrow>
                    let m = build_message G h form atts sid parts to
                    in if ep_dry_run (h_cfg h) then (write_json 200 (DryRunJson sid m), w)
                       else deliver_http G h rq m w)))"

section \<open>ServeHTTP\<close>

definition serve_api :: "('c, 'i, 'r, 'a, 'p) gw_env \<Rightarrow> 'p handler \<Rightarrow> request \<Rightarrow> string \<Rightarrow> string \<Rightarrow>
    ('c, 'i, 'r) world \<Rightarrow> reply \<times> ('c, 'i, 'r) world" where
  "serve_api G h rq sid key =
     proceed (rate_phase G h rq key) (\<lambda>_. proceed (\<lambda>w. (api_body_phase G h rq, w))
       (\<lambda>(form, atts). submit G h rq sid form atts))"

definition serve_form :: "('c, 'i, 'r, 'a, 'p) gw_env \<Rightarrow> 'p handler \<Rightarrow> request \<Rightarrow> string \<Rightarrow>
    ('c, 'i, 'r) world \<Rightarrow> reply \<times> ('c, 'i, 'r) world" where
  "serve_form G h rq sid =
     proceed (form_head_phase G h rq sid) (\<lambda>ip. proceed (rate_phase G h rq ip) (\<lambda>_.
       proceed (\<lambda>w. (form_body_phase G h rq, w)) (\<lambda>(form, atts).
         proceed (run_form_checks h rq sid form ip (build_form_checks G h)) (\<lambda>_. submit G h rq sid form atts))))"

definition serve_http :: "('c, 'i, 'r, 'a, 'p) gw_env \<Rightarrow> 'p handler \<Rightarrow> request \<Rightarrow> ('c, 'i, 'r) world \<Rightarrow>
    reply \<times> ('c, 'i, 'r) world" where
  "serve_http G h rq w =
     (let sid = g_uuid G (w_ids w); w1 = w\<lparr>w_ids := Suc (w_ids w)\<rparr>
      in case (rq_method rq = ''GET'', h_pob h) of
           (True, Some p) \<Rightarrow> serve_challenge G h p rq w1
         | _ \<Rightarrow>
             if rq_method rq \<noteq> ''POST'' then (http_error ''method not allowed'' 405, w1)
             else if api_mode h then
               proceed (auth_phase G h rq) (\<lambda>key. proceed (idempotency_phase G rq) (\<lambda>claim w2.
                 case claim of
                   None \<Rightarrow> serve_api G h rq sid key w2
                 | Some k \<Rightarrow> (case serve_api G h rq sid key w2 of (r, w3) \<Rightarrow> (r, finalize_idempotent G k r w3)))) w1
             else serve_form G h rq sid w1)"

section \<open>Construction\<close>

definition reserved_fields :: "endpoint_config \<Rightarrow> string \<Rightarrow> string list" where
  "reserved_fields cfg email_field =
     ep_required cfg @ [email_field] @ (if ep_honeypot cfg \<noteq> [] then [ep_honeypot cfg] else []) @
     (if is_api cfg then [to_override_field] else []) @
     (if ep_csrf_secret cfg \<noteq> [] then [csrf_token_field] else []) @
     (if ep_pob cfg \<noteq> None then [pob_token_field] else []) @
     (if ep_captcha cfg \<noteq> None then [turnstile_field] else [])"

definition gw_max_body :: "endpoint_config \<Rightarrow> attachment_policy option \<Rightarrow> string + int" where
  "gw_max_body cfg policy =
     (case parse_size (if ep_max_body_size cfg = [] then ''1MB'' else ep_max_body_size cfg) of
        Inl _ \<Rightarrow> Inl ''gateway: max_body_size''
      | Inr n \<Rightarrow>
          (case policy of
             None \<Rightarrow> Inr n
           | Some p \<Rightarrow>
               if ep_max_body_size cfg = [] then Inr (sint (word_of_int (ap_max_total p + 1048576) :: int64))
               else if n < ap_max_total p then Inl ''gateway: max_body_size is smaller than attachments.max_total_size''
               else Inr n))"

text \<open>\<open>rand\<close> is the outcome of reading 32 random bytes.\<close>

definition build_pob_gate :: "bytes option \<Rightarrow> pob_config option \<Rightarrow> string + pob_gate option" where
  "build_pob_gate rand cfg =
     (case cfg of
        None \<Rightarrow> Inr None
      | Some c \<Rightarrow>
          let ttl = (if pb_ttl c = 0 then 30 * minute else pb_ttl c);
              gate_of = (\<lambda>secret. \<lparr>pob_secret = secret, pob_ttl = ttl, pob_min_age = pb_min_age c\<rparr>)
          in if pb_secret c \<noteq> [] then Inr (Some (gate_of (pb_secret c)))
             else (case rand of None \<Rightarrow> Inl ''generate secret'' | Some s \<Rightarrow> Inr (Some (gate_of s))))"

definition build_limiter :: "'c bucket_lru \<Rightarrow> rate_limit_config option \<Rightarrow> string + 'c limiter option" where
  "build_limiter L cfg =
     (case cfg of None \<Rightarrow> Inr None | Some r \<Rightarrow> map_sum id Some (new_limiter L (rl_count r) (rl_interval r) 0))"

definition bind_err :: "string + 'x \<Rightarrow> ('x \<Rightarrow> string + 'y) \<Rightarrow> string + 'y" where
  "bind_err x f = (case x of Inl e \<Rightarrow> Inl e | Inr y \<Rightarrow> f y)"

text \<open>
  \<open>New\<close>: the handler with its limiters, idempotency backend and reputation cache.
  \<open>new_idem\<close> makes the in-memory cache of a capacity; \<open>AttachStorage\<close> later replaces it and
  sets the gate.
\<close>

definition new_handler :: "('c, 'i, 'r, 'a, 'p) gw_env \<Rightarrow> (int \<Rightarrow> string + 'i) \<Rightarrow> 'i \<Rightarrow> bytes option \<Rightarrow> net \<Rightarrow>
    endpoint_config \<Rightarrow> string + ('p handler \<times> ('c, 'i, 'r) world)" where
  "new_handler G new_idem no_idem rand n cfg =
     (let email_field = (if ep_email_field cfg = [] then ''email'' else ep_email_field cfg);
          reserved = reserved_fields cfg email_field
      in bind_err (map_sum (\<lambda>_. ''gateway: template'') id
           (if ep_body_format cfg = ''html''
            then new_html_renderer (g_templates G) (ep_subject cfg) (ep_body cfg) (ep_text_body cfg) reserved
            else new_renderer (g_templates G) (ep_subject cfg) (ep_body cfg) reserved)) (\<lambda>renderer.
         bind_err (new_attachment_policy (ep_attachments cfg)) (\<lambda>policy.
         bind_err (gw_max_body cfg policy) (\<lambda>max_body.
         bind_err (map_sum (\<lambda>_. ''gateway: trusted_proxies'') id (parse_prefixes (g_netip G) (ep_trusted_proxies cfg))) (\<lambda>trusted.
         bind_err (build_limiter (g_lru G) (ep_rate_limit cfg)) (\<lambda>limiter.
         bind_err (if is_api cfg
           then new_idem (if ep_idem_cache_size cfg \<le> 0 then default_capacity else ep_idem_cache_size cfg)
           else Inr no_idem) (\<lambda>idem.
         bind_err (if is_api cfg then build_limiter (g_lru G) (Some \<lparr>rl_count = 10, rl_interval = minute\<rparr>) else Inr None) (\<lambda>auth_fail.
         bind_err (build_reputation_checker (g_rep_lru G) (ep_reputation cfg)) (\<lambda>rep.
         bind_err (build_pob_gate rand (ep_pob cfg)) (\<lambda>pob.
         bind_err (case ep_captcha cfg of None \<Rightarrow> Inr None
           | Some c \<Rightarrow> if cp_secret_key c = [] then Inl ''captcha: secret is required'' else Inr (Some (captcha_fail_closed c))) (\<lambda>captcha.
         Inr (\<lparr>h_cfg = cfg, h_renderer = renderer, h_trusted = trusted, h_email_field = email_field,
                h_max_body = max_body, h_log_failed = (case ep_log_failed cfg of None \<Rightarrow> True | Some b \<Rightarrow> b),
                h_csrf_ttl = (if ep_csrf_ttl cfg = 0 then hour else ep_csrf_ttl cfg), h_attach = policy,
                h_pob = pob, h_captcha = captcha\<rparr>,
              \<lparr>w_limiter = limiter, w_auth_fail = auth_fail, w_idem = idem, w_rep = rep, w_gate = None, w_net = n,
                w_ticks = 0, w_ids = 0, w_calls = 0\<rparr>))))))))))))"

definition attach_storage :: "gate \<Rightarrow> (string \<Rightarrow> 'i) \<Rightarrow> 'p handler \<Rightarrow> ('c, 'i, 'r) world \<Rightarrow> ('c, 'i, 'r) world" where
  "attach_storage g new_durable_idem h w =
     (if api_mode h then w\<lparr>w_gate := Some g, w_idem := new_durable_idem (ep_path (h_cfg h))\<rparr>
      else w\<lparr>w_gate := Some g\<rparr>)"

end
