(* ===== verification/Mail_Parse.thy ===== *)
theory Mail_Parse
  imports Transport_Core HTML_Text
begin

text \<open>
  \<open>core/smtp/parse.go\<close>: from the DATA of a session to the message handed to the transport.
  The standard library's mail, MIME and multipart readers are the parameter \<open>mime_lib\<close>; a
  reader's content is its bytes with a flag that says whether reading it to the end succeeds.
\<close>

section \<open>The library\<close>

type_synonym mime_header = form
  \<comment> \<open>canonical header names and their values, in order\<close>

type_synonym stream = "bytes \<times> bool"

record mime_lib =
  read_message :: "bytes \<Rightarrow> (mime_header \<times> bytes) option"
  decode_header :: "string \<Rightarrow> string option"
  parse_media_type :: "string \<Rightarrow> (string \<times> (string \<times> string) list) option"
  decode_qp :: "stream \<Rightarrow> stream"
  decode_base64 :: "stream \<Rightarrow> stream"
  multipart_parts :: "bytes \<Rightarrow> string \<Rightarrow> (mime_header \<times> stream) list \<times> bool"
    \<comment> \<open>the parts \<open>NextPart\<close> returns, and whether the last call was a clean end\<close>
  text_lower :: "string \<Rightarrow> string"
  html_unescape :: "string \<Rightarrow> string"

definition header_get :: "mime_header \<Rightarrow> string \<Rightarrow> string" where
  "header_get h name = (case map_of h name of Some (v # _) \<Rightarrow> v | _ \<Rightarrow> [])"

section \<open>The body\<close>

datatype parse_error =
  BadMimeHeaders
| ReadBody
| NoBoundary
| UnsupportedType string
| MultipartRead
| NoTextPart
| PassthroughValue header_error

definition decode_transfer_encoding :: "mime_lib \<Rightarrow> string \<Rightarrow> stream \<Rightarrow> stream" where
  "decode_transfer_encoding M cte r =
     (let c = to_lower (trim_space cte)
      in if c = ''quoted-printable'' then decode_qp M r
         else if c = ''base64'' then decode_base64 M r
         else r)"

definition read_all :: "stream \<Rightarrow> parse_error + bytes" where
  "read_all r = (if snd r then Inr (fst r) else Inl ReadBody)"

fun read_parts :: "mime_lib \<Rightarrow> (mime_header \<times> stream) list \<Rightarrow> bool \<Rightarrow> string \<Rightarrow> string \<Rightarrow>
    parse_error + (string \<times> string)" where
  "read_parts M [] clean txt html =
     (if \<not> clean then Inl MultipartRead
      else if txt = [] \<and> html = [] then Inl NoTextPart
      else Inr (txt, html))"
| "read_parts M ((h, body) # parts) clean txt html =
     (let media = (case parse_media_type M (header_get h ''Content-Type'') of None \<Rightarrow> [] | Some (m, _) \<Rightarrow> m);
          content = read_all (decode_transfer_encoding M (header_get h ''Content-Transfer-Encoding'') body)
      in if (media = [] \<or> has_prefix media ''text/plain'') \<and> txt = [] then
           (case content of Inl e \<Rightarrow> Inl e | Inr b \<Rightarrow> read_parts M parts clean b html)
         else if has_prefix media ''text/html'' \<and> html = [] then
           (case content of Inl e \<Rightarrow> Inl e | Inr b \<Rightarrow> read_parts M parts clean txt b)
         else read_parts M parts clean txt html)"

definition extract_body :: "mime_lib \<Rightarrow> mime_header \<Rightarrow> bytes \<Rightarrow> parse_error + (string \<times> string)" where
  "extract_body M h body =
     (let decoded = decode_transfer_encoding M (header_get h ''Content-Transfer-Encoding'') (body, True)
      in case parse_media_type M (header_get h ''Content-Type'') of
           None \<Rightarrow> Inr (body, [])
         | Some (media, params) \<Rightarrow>
             if media = [] \<or> has_prefix media ''text/plain'' then
               map_sum id (\<lambda>b. (b, [])) (read_all decoded)
             else if has_prefix media ''text/html'' then
               map_sum id (\<lambda>b. ([], b)) (read_all decoded)
             else if has_prefix media ''multipart/'' then
               (case map_of params ''boundary'' of
                  None \<Rightarrow> Inl NoBoundary
                | Some boundary \<Rightarrow>
                    if boundary = [] then Inl NoBoundary
                    else (case multipart_parts M body boundary of (parts, clean) \<Rightarrow> read_parts M parts clean [] []))
             else Inl (UnsupportedType media))"

section \<open>Headers and the message\<close>

fun copy_headers :: "mime_header \<Rightarrow> string list \<Rightarrow> parse_error + header list" where
  "copy_headers h [] = Inr []"
| "copy_headers h (name # names) =
     (case map_of h name of
        Some (v # _) \<Rightarrow>
          if v = [] then copy_headers h names
          else (case check_header_value name v of
              Some e \<Rightarrow> Inl (PassthroughValue e)
            | None \<Rightarrow> map_sum id ((#) \<lparr>hdr_name = name, hdr_value = v\<rparr>) (copy_headers h names))
      | _ \<Rightarrow> copy_headers h names)"

definition decoded_or_raw :: "mime_lib \<Rightarrow> string \<Rightarrow> string" where
  "decoded_or_raw M v = (case decode_header M v of None \<Rightarrow> v | Some d \<Rightarrow> d)"

definition parse_mime_to_message :: "mime_lib \<Rightarrow> bytes \<Rightarrow> string \<Rightarrow> string list \<Rightarrow> string list \<Rightarrow>
    parse_error + message" where
  "parse_mime_to_message M data envelope_from envelope_rcpts passthrough =
     (case read_message M data of
        None \<Rightarrow> Inl BadMimeHeaders
      | Some (h, body) \<Rightarrow>
          let from_hdr = decoded_or_raw M (header_get h ''From'');
              sender = (if from_hdr = [] then envelope_from else from_hdr)
          in case extract_body M h body of
               Inl e \<Rightarrow> Inl e
             | Inr (body_text, body_html) \<Rightarrow>
                 let txt = (if body_text = [] \<and> body_html \<noteq> []
                            then html_to_text (text_lower M) (html_unescape M) body_html else body_text)
                 in case copy_headers h passthrough of
                      Inl e \<Rightarrow> Inl e
                    | Inr headers \<Rightarrow>
                        Inr (empty_message\<lparr>msg_from := sender, msg_to := envelope_rcpts,
                          msg_reply_to := decoded_or_raw M (header_get h ''Reply-To''),
                          msg_subject := decoded_or_raw M (header_get h ''Subject''),
                          msg_body_text := txt, msg_body_html := body_html, msg_headers := headers\<rparr>))"

section \<open>Lemmas\<close>

lemma copy_headers_valid:
  "copy_headers h names = Inr hs \<Longrightarrow> distinct names \<Longrightarrow> set names \<subseteq> set passthrough_header_allowlist \<Longrightarrow>
   validate_headers hs = None \<and> set (map hdr_name hs) \<subseteq> set names \<and>
   (\<forall>x \<in> set hs. \<exists>vs. map_of h (hdr_name x) = Some (hdr_value x # vs))"
proof (induction names arbitrary: hs)
  case (Cons name names)
  show ?case
  proof (cases "\<exists>v vs. map_of h name = Some (v # vs) \<and> v \<noteq> []")
    case False
    then have "copy_headers h names = Inr hs" using Cons.prems(1) by (auto split: option.splits list.splits)
    with Cons.IH [of hs] Cons.prems(2,3) show ?thesis by auto
  next
    case True
    then obtain v vs where v: "map_of h name = Some (v # vs)" "v \<noteq> []" by blast
    with Cons.prems(1) obtain hs' where hs: "check_header_value name v = None" "copy_headers h names = Inr hs'"
      "hs = \<lparr>hdr_name = name, hdr_value = v\<rparr> # hs'"
      by (cases "copy_headers h names") (auto split: option.splits)
    have IH: "validate_headers hs' = None" "set (map hdr_name hs') \<subseteq> set names"
      "\<forall>x \<in> set hs'. \<exists>vs. map_of h (hdr_name x) = Some (hdr_value x # vs)"
      using Cons.IH [OF hs(2)] Cons.prems(2,3) by auto
    have "name \<notin> set (map hdr_name hs')" using IH(2) Cons.prems(2) by auto
    moreover have "passthrough_header name = (name, True)"
      using Cons.prems(3) passthrough_header_fixed by auto
    ultimately have "validate_headers hs = None"
      using IH(1) hs(1,3) by (auto simp: validate_headers_def validate_headers_from_None)
    with IH(2,3) hs(3) v(1) show ?thesis by auto
  qed
qed (simp add: validate_headers_def)

lemma parse_envelope:
  assumes "parse_mime_to_message M data from rcpts names = Inr m"
  obtains h body hs where "read_message M data = Some (h, body)" "copy_headers h names = Inr hs"
    "msg_headers m = hs" "msg_to m = rcpts" "msg_fields m = []" "msg_attachments m = []"
proof -
  obtain h body where rd: "read_message M data = Some (h, body)"
    using assms by (auto simp: parse_mime_to_message_def split: option.splits)
  obtain hs where "copy_headers h names = Inr hs" "msg_headers m = hs" "msg_to m = rcpts"
    "msg_fields m = []" "msg_attachments m = []"
    using assms rd by (auto simp: parse_mime_to_message_def Let_def empty_message_def split: sum.splits)
  with rd show ?thesis by (rule that)
qed

section \<open>Properties\<close>

text \<open>
  The recipients come from the envelope only. Whatever the DATA says, a message the
  parser accepts is addressed to exactly the RCPT TO addresses; it carries no form fields
  and no attachments, and its passthrough headers are valid, at most one per configured
  name and each the first value of that name in the message.
\<close>

theorem parse_uses_envelope:
  assumes "parse_mime_to_message M data from rcpts names = Inr m"
    and "distinct names" "set names \<subseteq> set passthrough_header_allowlist"
  shows "msg_to m = rcpts \<and> msg_fields m = [] \<and> msg_attachments m = [] \<and>
    validate_headers (msg_headers m) = None \<and> set (map hdr_name (msg_headers m)) \<subseteq> set names \<and>
    (\<exists>h body. read_message M data = Some (h, body) \<and>
       (\<forall>x \<in> set (msg_headers m). \<exists>vs. map_of h (hdr_name x) = Some (hdr_value x # vs)))"
proof -
  obtain h body hs where rd: "read_message M data = Some (h, body)"
    and hs: "copy_headers h names = Inr hs" "msg_headers m = hs" "msg_to m = rcpts"
      "msg_fields m = []" "msg_attachments m = []"
    using assms(1) by (rule parse_envelope)
  from copy_headers_valid [OF hs(1) assms(2,3)] hs rd show ?thesis by auto
qed

definition demo_mime :: mime_lib where
  "demo_mime = \<lparr>read_message = (\<lambda>d. Some ([(''To'', [''victim@x'']), (''List-Id'', [''<l>''])], d)),
     decode_header = Some, parse_media_type = (\<lambda>_. None), decode_qp = id, decode_base64 = id,
     multipart_parts = (\<lambda>_ _. ([], True)), text_lower = id, html_unescape = id\<rparr>"

theorem parse_uses_envelope_witness:
  "\<exists>m. parse_mime_to_message demo_mime ''hi'' ''a@x'' [''b@x''] [''List-Id''] = Inr m \<and> msg_to m = [''b@x'']"
proof -
  obtain m where m: "parse_mime_to_message demo_mime ''hi'' ''a@x'' [''b@x''] [''List-Id''] = Inr m"
    by (simp add: parse_mime_to_message_def demo_mime_def extract_body_def header_get_def decoded_or_raw_def
        check_header_value_def max_header_line_def byte_def)
  have "set [''List-Id''] \<subseteq> set passthrough_header_allowlist" by (simp add: passthrough_header_allowlist_def)
  from parse_uses_envelope [OF m _ this] m show ?thesis by auto
qed

end
