(* ===== verification/SMTP_Session.thy ===== *)
theory SMTP_Session
  imports Mail_Parse Gate_Calls Rate_Limit
begin

text \<open>
  \<open>core/smtp\<close>: the listener's limits and the per-connection state machine of \<open>session.go\<close>,
  one definition per command handler, with the delivery at the end of DATA.

  The connection is the list of lines the client sends (\<open>textproto\<close> splits both commands and
  dot-encoded data at the same line ends), followed after a STARTTLS by what it sends over
  TLS; the end of the list is the end of input or the idle timeout. Writes fail as the script
  \<open>wr_faults\<close> says. The clock and the id generator are sequences; reads of them are counted.
\<close>

section \<open>Configuration\<close>

datatype auth_mode = AuthUnset | AuthSMTP | AuthClientCert | AuthEither | AuthNone | AuthUnknown string

record smtp_user =
  su_username :: string
  su_password :: string

record listener_config =
  lc_name :: string
  lc_listen :: string
  lc_require_tls :: bool
  lc_tls_cert :: string
  lc_tls_key :: string
  lc_client_cert_ca :: string
  lc_auth_required :: auth_mode
  lc_smtp_users :: "smtp_user list"
  lc_allowed_senders :: "string list"
  lc_allowed_recipients :: "string list"
  lc_passthrough_headers :: "string list"
  lc_max_recipients :: int
  lc_idle_timeout :: duration
  lc_max_connections :: int
  lc_max_connections_per_ip :: int
  lc_transport_type :: string

definition effective_max_connections :: "listener_config \<Rightarrow> int" where
  "effective_max_connections c = (if lc_max_connections c \<le> 0 then 100 else lc_max_connections c)"

definition effective_max_connections_per_ip :: "listener_config \<Rightarrow> int" where
  "effective_max_connections_per_ip c =
     (if lc_max_connections_per_ip c \<le> 0 then 16 else lc_max_connections_per_ip c)"

definition effective_auth_mode :: "listener_config \<Rightarrow> auth_mode" where
  "effective_auth_mode c = (if lc_auth_required c = AuthUnset then AuthSMTP else lc_auth_required c)"

definition effective_max_recipients :: "listener_config \<Rightarrow> int" where
  "effective_max_recipients c =
     (if lc_max_recipients c > 0 then lc_max_recipients c
      else if lc_allowed_recipients c = [] then 10 else 0)"

definition effective_idle_timeout :: "listener_config \<Rightarrow> duration" where
  "effective_idle_timeout c = (if lc_idle_timeout c = 0 then 60 * second else lc_idle_timeout c)"

datatype listener_error =
  ListenRequired | SendersRequired | BadAuthMode string | UsersRequired | UsernameRequired nat
| PasswordRequired nat | CaRequired | CertRequired | KeyRequired | NegativeMaxRecipients int
| NegativeIdleTimeout duration | BadPassthrough header_error

fun check_users :: "nat \<Rightarrow> smtp_user list \<Rightarrow> listener_error option" where
  "check_users i [] = None"
| "check_users i (u # us) =
     (if trim_space (su_username u) = [] then Some (UsernameRequired i)
      else if su_password u = [] then Some (PasswordRequired i)
      else check_users (Suc i) us)"

definition validate_auth :: "listener_config \<Rightarrow> listener_error option" where
  "validate_auth c =
     (let mode = effective_auth_mode c
      in case mode of
           AuthUnknown m \<Rightarrow> Some (BadAuthMode m)
         | _ \<Rightarrow>
             let users = (if mode = AuthSMTP \<or> mode = AuthEither then
                   (if lc_smtp_users c = [] then Some UsersRequired else check_users 0 (lc_smtp_users c))
                 else None)
             in if users \<noteq> None then users
                else if (mode = AuthClientCert \<or> mode = AuthEither) \<and> lc_client_cert_ca c = [] then Some CaRequired
                else if lc_require_tls c \<or> mode = AuthClientCert \<or> mode = AuthEither then
                  (if lc_tls_cert c = [] then Some CertRequired
                   else if lc_tls_key c = [] then Some KeyRequired else None)
                else None)"

definition validate_listener :: "listener_config \<Rightarrow> listener_error option" where
  "validate_listener c =
     (if lc_listen c = [] then Some ListenRequired
      else if lc_allowed_senders c = [] then Some SendersRequired
      else case validate_auth c of
        Some e \<Rightarrow> Some e
      | None \<Rightarrow>
          if \<not> (lc_allowed_recipients c = [] \<and> lc_max_recipients c = 0) \<and> lc_max_recipients c < 0
          then Some (NegativeMaxRecipients (lc_max_recipients c))
          else if lc_idle_timeout c < 0 then Some (NegativeIdleTimeout (lc_idle_timeout c))
          else (case passthrough_names (lc_passthrough_headers c) of
              Inl e \<Rightarrow> Some (BadPassthrough e)
            | Inr _ \<Rightarrow> None))"

text \<open>Whether \<open>buildTLSConfig\<close> yields a configuration (loading the files is not modelled).\<close>

definition needs_tls :: "listener_config \<Rightarrow> bool" where
  "needs_tls c \<longleftrightarrow> lc_require_tls c \<or> effective_auth_mode c = AuthClientCert \<or> effective_auth_mode c = AuthEither"

section \<open>Connection slots\<close>

record slots =
  active_conns :: int
  per_ip_conns :: "string \<rightharpoonup> int"

definition ip_count :: "slots \<Rightarrow> string \<Rightarrow> int" where
  "ip_count s ip = (case per_ip_conns s ip of None \<Rightarrow> 0 | Some n \<Rightarrow> n)"

definition acquire_conn_slot :: "listener_config \<Rightarrow> string \<Rightarrow> slots \<Rightarrow> bool \<times> slots" where
  "acquire_conn_slot c ip s =
     (if active_conns s \<ge> effective_max_connections c then (False, s)
      else if ip_count s ip \<ge> effective_max_connections_per_ip c then (False, s)
      else (True, s\<lparr>active_conns := active_conns s + 1,
        per_ip_conns := (per_ip_conns s)(ip \<mapsto> ip_count s ip + 1)\<rparr>))"

definition release_conn_slot :: "string \<Rightarrow> slots \<Rightarrow> slots" where
  "release_conn_slot ip s =
     (let n = ip_count s ip - 1
      in s\<lparr>active_conns := active_conns s - 1,
           per_ip_conns := (if n > 0 then (per_ip_conns s)(ip \<mapsto> n) else (per_ip_conns s)(ip := None))\<rparr>)"

section \<open>Command lines\<close>

definition split_command :: "string \<Rightarrow> string \<times> string" where
  "split_command line =
     (case index_byte line (CHR '' '') of None \<Rightarrow> (line, []) | Some i \<Rightarrow> (take i line, drop (Suc i) line))"

definition extract_envelope_address :: "string \<Rightarrow> string \<Rightarrow> string" where
  "extract_envelope_address arg prefix =
     (if length arg < length prefix \<or> \<not> equal_fold (take (length prefix) arg) prefix then []
      else let rest = trim_space (drop (length prefix) arg)
        in if \<not> has_prefix rest ''<'' then []
           else case index_byte rest (CHR ''>'') of None \<Rightarrow> [] | Some e \<Rightarrow> drop 1 (take e rest))"

definition matches_entry :: "string \<Rightarrow> string \<Rightarrow> bool" where
  "matches_entry addr entry \<longleftrightarrow>
     entry = ''*'' \<or> entry = addr \<or>
     has_prefix entry ''*@'' \<and>
       (case index_byte addr (CHR ''@'') of None \<Rightarrow> False | Some i \<Rightarrow> drop (Suc i) addr = drop 2 entry)"

definition matches_allowlist :: "string \<Rightarrow> string list \<Rightarrow> bool" where
  "matches_allowlist addr allowlist \<longleftrightarrow> list_ex (matches_entry addr) allowlist"

section \<open>Sessions\<close>

text \<open>What the client does after a STARTTLS: fail the handshake or complete it (with a verified
certificate or not), and the lines that follow.\<close>

datatype handshake = HandshakeFailed "string list" | HandshakeOk bool "string list"

type_synonym smtp_reply = "nat \<times> string \<times> string"
  \<comment> \<open>code, separator, text\<close>

record 'c smtp_env =
  e_cfg :: listener_config
  e_name :: string
  e_passthrough :: "string list"
  e_max_body :: int
  e_tls :: bool
  e_mime :: mime_lib
  e_base64 :: "string \<Rightarrow> bytes option"
  e_lru :: "'c bucket_lru"
  e_expires :: "nat \<Rightarrow> duration \<Rightarrow> bool"
  e_clock :: "nat \<Rightarrow> instant"
  e_uuid :: "nat \<Rightarrow> string"
  e_remote_host :: string

record 'c session =
  tls_active :: bool
  authed_user :: string
  authed_via_cert :: bool
  mail_from :: string
  rcpt_to :: "string list"
  txn :: bool
  input :: "string list"
  handshakes :: "handshake list"
  wr_faults :: "bool list"
  replies :: "smtp_reply list"
  ticks :: nat
  ids :: nat
  s_gate :: "gate option"
  s_net :: net
  s_auth_fail :: "'c limiter"

definition write_line :: "smtp_reply \<Rightarrow> 'c session \<Rightarrow> bool \<times> 'c session" where
  "write_line r s =
     (case wr_faults s of
        True # fs \<Rightarrow> (False, s\<lparr>wr_faults := fs\<rparr>)
      | False # fs \<Rightarrow> (True, s\<lparr>wr_faults := fs, replies := replies s @ [r]\<rparr>)
      | [] \<Rightarrow> (True, s\<lparr>replies := replies s @ [r]\<rparr>))"

definition write_reply :: "nat \<Rightarrow> string \<Rightarrow> 'c session \<Rightarrow> 'c session" where
  "write_reply code msg s = snd (write_line (code, '' '', msg) s)"

fun write_multiline :: "nat \<Rightarrow> string list \<Rightarrow> 'c session \<Rightarrow> 'c session" where
  "write_multiline code [] s = s"
| "write_multiline code [l] s = snd (write_line (code, '' '', l) s)"
| "write_multiline code (l # l' # ls) s =
     (case write_line (code, ''-'', l) s of
        (True, s1) \<Rightarrow> write_multiline code (l' # ls) s1
      | (False, s1) \<Rightarrow> s1)"

definition reset_transaction :: "'c session \<Rightarrow> 'c session" where
  "reset_transaction s = s\<lparr>mail_from := [], rcpt_to := [], txn := False\<rparr>"

definition read_clock :: "'c smtp_env \<Rightarrow> 'c session \<Rightarrow> instant \<times> 'c session" where
  "read_clock E s = (e_clock E (ticks s), s\<lparr>ticks := Suc (ticks s)\<rparr>)"

definition can_advertise_auth :: "'c smtp_env \<Rightarrow> bool" where
  "can_advertise_auth E \<longleftrightarrow> effective_auth_mode (e_cfg E) \<in> {AuthSMTP, AuthEither}"

definition auth_required_and_missing :: "'c smtp_env \<Rightarrow> 'c session \<Rightarrow> bool" where
  "auth_required_and_missing E s =
     (case effective_auth_mode (e_cfg E) of
        AuthNone \<Rightarrow> False
      | AuthSMTP \<Rightarrow> authed_user s = []
      | AuthClientCert \<Rightarrow> \<not> authed_via_cert s
      | _ \<Rightarrow> authed_user s = [] \<and> \<not> authed_via_cert s)"

definition tls_missing :: "'c smtp_env \<Rightarrow> 'c session \<Rightarrow> bool" where
  "tls_missing E s \<longleftrightarrow> lc_require_tls (e_cfg E) \<and> \<not> tls_active s"

definition handle_ehlo :: "'c smtp_env \<Rightarrow> 'c session \<Rightarrow> 'c session" where
  "handle_ehlo E s = write_multiline 250
     ([''posthorn''] @ (if e_tls E \<and> \<not> tls_active s then [''STARTTLS''] else []) @
      (if can_advertise_auth E then [''AUTH PLAIN''] else []) @
      (if e_max_body E > 0 then [''SIZE '' @ show_int (e_max_body E)] else [])) s"

definition handle_helo :: "'c session \<Rightarrow> 'c session" where
  "handle_helo s = write_reply 250 ''posthorn'' s"

definition handle_starttls :: "'c smtp_env \<Rightarrow> 'c session \<Rightarrow> 'c session" where
  "handle_starttls E s =
     (if \<not> e_tls E then write_reply 502 ''5.5.1 STARTTLS not supported'' s
      else if tls_active s then write_reply 503 ''5.5.1 TLS already active'' s
      else case write_line (220, '' '', ''2.0.0 Ready to start TLS'') s of
        (False, s1) \<Rightarrow> s1
      | (True, s1) \<Rightarrow>
          (case handshakes s1 of
             [] \<Rightarrow> s1\<lparr>input := []\<rparr>
           | HandshakeFailed rest # hs \<Rightarrow> s1\<lparr>input := rest, handshakes := hs\<rparr>
           | HandshakeOk cert rest # hs \<Rightarrow>
               (reset_transaction (s1\<lparr>input := rest, handshakes := hs, tls_active := True\<rparr>))
                 \<lparr>authed_user := [], authed_via_cert := authed_via_cert s1 \<or> cert\<rparr>))"

definition auth_failure_exceeded :: "'c smtp_env \<Rightarrow> 'c session \<Rightarrow> bool \<times> 'c session" where
  "auth_failure_exceeded E s =
     (let (now, s1) = read_clock E s;
          (allowed, l) = allow_at (e_lru E) (s_auth_fail s1) (e_remote_host E) now
      in (\<not> allowed, s1\<lparr>s_auth_fail := l\<rparr>))"

definition auth_failed :: "'c smtp_env \<Rightarrow> string \<Rightarrow> 'c session \<Rightarrow> bool \<times> 'c session" where
  "auth_failed E msg535 s =
     (case auth_failure_exceeded E s of
        (True, s1) \<Rightarrow> (True, write_reply 421 ''4.7.0 Too many failed AUTH attempts, closing connection'' s1)
      | (False, s1) \<Rightarrow> (False, write_reply 535 msg535 s1))"

definition verify_user :: "listener_config \<Rightarrow> string \<Rightarrow> string \<Rightarrow> bool" where
  "verify_user c user pass \<longleftrightarrow> list_ex (\<lambda>u. su_username u = user \<and> su_password u = pass) (lc_smtp_users c)"

text \<open>\<open>bytes.SplitN raw {0} 3\<close>, when it has three parts.\<close>

definition split_plain :: "bytes \<Rightarrow> (string \<times> string) option" where
  "split_plain raw =
     (case cut_byte (char_of (0 :: nat)) raw of
        None \<Rightarrow> None
      | Some (_, rest) \<Rightarrow> cut_byte (char_of (0 :: nat)) rest)"

definition check_credentials :: "'c smtp_env \<Rightarrow> string \<Rightarrow> 'c session \<Rightarrow> bool \<times> 'c session" where
  "check_credentials E creds s =
     (case e_base64 E creds of
        None \<Rightarrow> auth_failed E ''5.7.8 Malformed AUTH credentials'' s
      | Some raw \<Rightarrow>
          (case split_plain raw of
             None \<Rightarrow> auth_failed E ''5.7.8 Malformed AUTH credentials'' s
           | Some (user, pass) \<Rightarrow>
               if \<not> verify_user (e_cfg E) user pass then auth_failed E ''5.7.8 Authentication failed'' s
               else (False, write_reply 235 ''2.7.0 Authentication successful'' (s\<lparr>authed_user := user\<rparr>))))"

definition handle_auth :: "'c smtp_env \<Rightarrow> string \<Rightarrow> 'c session \<Rightarrow> bool \<times> 'c session" where
  "handle_auth E arg s =
     (if tls_missing E s then (False, write_reply 530 ''5.7.0 Must issue STARTTLS first'' s)
      else if \<not> can_advertise_auth E then (False, write_reply 502 ''5.5.1 AUTH not supported'' s)
      else if length arg < 5 \<or> \<not> equal_fold (take 5 arg) ''PLAIN'' then
        (False, write_reply 504 ''5.5.4 Auth mechanism not supported (PLAIN only)'' s)
      else let creds = trim_space (drop 5 arg)
        in if creds = [] then
             (let s1 = write_reply 334 [] s
              in case input s1 of
                   [] \<Rightarrow> (False, s1)
                 | line # rest \<Rightarrow> check_credentials E line (s1\<lparr>input := rest\<rparr>))
           else check_credentials E creds s)"

definition handle_mail :: "'c smtp_env \<Rightarrow> string \<Rightarrow> 'c session \<Rightarrow> 'c session" where
  "handle_mail E arg s =
     (if tls_missing E s then write_reply 530 ''5.7.0 Must issue STARTTLS first'' s
      else if auth_required_and_missing E s then write_reply 530 ''5.7.0 Authentication required'' s
      else let addr = extract_envelope_address arg ''FROM:''
        in if addr = [] then write_reply 501 ''5.5.4 Syntax: MAIL FROM:<address>'' s
           else if \<not> matches_allowlist addr (lc_allowed_senders (e_cfg E)) then
             write_reply 550 ''5.7.1 Sender not authorized'' s
           else write_reply 250 ''2.1.0 OK'' ((reset_transaction s)\<lparr>mail_from := addr, txn := True\<rparr>))"

definition handle_rcpt :: "'c smtp_env \<Rightarrow> string \<Rightarrow> 'c session \<Rightarrow> 'c session" where
  "handle_rcpt E arg s =
     (if \<not> txn s then write_reply 503 ''5.5.1 MAIL FROM required first'' s
      else let addr = extract_envelope_address arg ''TO:'';
               cap = effective_max_recipients (e_cfg E)
        in if addr = [] then write_reply 501 ''5.5.4 Syntax: RCPT TO:<address>'' s
           else if cap > 0 \<and> int (length (rcpt_to s)) \<ge> cap then write_reply 452 ''4.5.3 Too many recipients'' s
           else if lc_allowed_recipients (e_cfg E) \<noteq> [] \<and>
             \<not> matches_allowlist addr (lc_allowed_recipients (e_cfg E)) then
             write_reply 550 ''5.7.1 Recipient not authorized'' s
           else write_reply 250 ''2.1.5 OK'' (s\<lparr>rcpt_to := rcpt_to s @ [addr]\<rparr>))"

section \<open>Reading DATA\<close>

text \<open>
  \<open>DotReader\<close> on lines: the lines up to the one that is a single dot, a leading dot removed
  from each, with whether that line was there and what follows it.
\<close>

fun dot_lines :: "string list \<Rightarrow> string list \<times> bool \<times> string list" where
  "dot_lines [] = ([], False, [])"
| "dot_lines (l # ls) =
     (if l = ''.'' then ([], True, ls)
      else case dot_lines ls of
        (c, ended, rest) \<Rightarrow> ((if has_prefix l ''.'' then drop 1 l else l) # c, ended, rest))"

definition int64_wrap :: "int \<Rightarrow> int" where
  "int64_wrap n = sint (word_of_int n :: int64)"

datatype data_read = DataError | DataTooBig | DataOk bytes

text \<open>The bounded copy through \<open>io.LimitReader(r, maxBody+1)\<close>; an early end of input shows only
when the reader gets there.\<close>

definition read_data :: "int \<Rightarrow> string list \<Rightarrow> data_read \<times> string list" where
  "read_data max_body lines =
     (case dot_lines lines of
        (cs, ended, rest) \<Rightarrow>
          let body = concat (map (\<lambda>l. l @ [newline]) cs);
              limit = nat (int64_wrap (max_body + 1));
              got = take limit body
          in if length body < limit \<and> \<not> ended then (DataError, rest)
             else if max_body > 0 \<and> int (length got) > max_body then (DataTooBig, rest)
             else (DataOk got, rest))"

section \<open>Delivery\<close>

definition smtp_row :: "'c smtp_env \<Rightarrow> message \<Rightarrow> instant \<Rightarrow> submission" where
  "smtp_row E m now =
     \<lparr>sub_id = msg_submission_id m, sub_endpoint = e_name E, sub_transport = lc_transport_type (e_cfg E),
      sub_from = msg_from m, sub_to = msg_to m, sub_reply_to = msg_reply_to m, sub_subject = msg_subject m,
      sub_body_text = msg_body_text m, sub_body_html = msg_body_html m, sub_fields = [], sub_attachments = [],
      sub_headers = msg_headers m, sub_client_ip = e_remote_host E, sub_status = StSending,
      sub_message_id = [], sub_last_error = [], sub_created_at = time_unix now, sub_sent_at = None\<rparr>"

definition suppressed_row :: "'c smtp_env \<Rightarrow> message \<Rightarrow> instant \<Rightarrow> submission" where
  "suppressed_row E m now = (smtp_row E m now)\<lparr>sub_to := [], sub_reply_to := [], sub_body_text := [],
     sub_body_html := [], sub_headers := [], sub_client_ip := [], sub_status := StSuppressed\<rparr>"

definition smtp_record_submission :: "'c smtp_env \<Rightarrow> message \<Rightarrow> 'c session \<Rightarrow> bool \<times> 'c session" where
  "smtp_record_submission E m s =
     (if \<not> gate_up (s_gate s) then (False, s)
      else let (now, s1) = read_clock E s;
               (persisted, g) = try_store (record_submission (smtp_row E m now)) (s_gate s1)
           in (persisted, s1\<lparr>s_gate := g\<rparr>))"

definition record_suppressed :: "'c smtp_env \<Rightarrow> message \<Rightarrow> 'c session \<Rightarrow> 'c session" where
  "record_suppressed E m s =
     (if \<not> gate_up (s_gate s) then s
      else let (now, s1) = read_clock E s
           in s1\<lparr>s_gate := snd (try_store (record_submission (suppressed_row E m now)) (s_gate s1))\<rparr>)"

text \<open>After the inline send failed: queue it, or report the failure.\<close>

definition smtp_send_failed :: "'c smtp_env \<Rightarrow> message \<Rightarrow> bool \<Rightarrow> send_error \<Rightarrow> 'c session \<Rightarrow> 'c session" where
  "smtp_send_failed E m persisted err s =
     (let (queued, s1) =
        (if persisted \<and> is_retryable err then
           (let (now, s1) = read_clock E s;
                (ok, g) = try_store (enqueue (msg_submission_id m) now) (s_gate s1)
            in (ok, s1\<lparr>s_gate := g\<rparr>))
         else (False, s))
      in if queued then
           reset_transaction (write_reply 250 (''2.0.0 OK accepted for retry as '' @ msg_submission_id m) s1)
         else let s2 = (if persisted
                then s1\<lparr>s_gate := snd (try_store (mark_status (msg_submission_id m) StFailed (send_error_string err)) (s_gate s1))\<rparr>
                else s1)
           in reset_transaction (write_reply 451 ''4.0.0 Upstream transport failed'' s2))"

definition smtp_sent :: "'c smtp_env \<Rightarrow> message \<Rightarrow> bool \<Rightarrow> string \<Rightarrow> 'c session \<Rightarrow> 'c session" where
  "smtp_sent E m persisted message_id s =
     (let s1 = (if persisted then
          (let (now, s1) = read_clock E s
           in s1\<lparr>s_gate := snd (try_store (mark_sent (msg_submission_id m) message_id now) (s_gate s1))\<rparr>)
        else s)
      in reset_transaction (write_reply 250 (''2.0.0 OK queued as '' @ msg_submission_id m) s1))"

definition deliver :: "'c smtp_env \<Rightarrow> message \<Rightarrow> 'c session \<Rightarrow> 'c session" where
  "deliver E parsed s =
     (let sid = e_uuid E (ids s);
          (remaining, gone, g) = filter_suppressed (text_lower (e_mime E)) (msg_to parsed) (s_gate s);
          m = parsed\<lparr>msg_submission_id := sid, msg_to := remaining\<rparr>;
          s1 = s\<lparr>ids := Suc (ids s), s_gate := g\<rparr>
      in if remaining = [] then
           reset_transaction (write_reply 250 (''2.1.5 OK suppressed as '' @ sid) (record_suppressed E m s1))
         else let (persisted, s2) = smtp_record_submission E m s1;
                  (outcome, n) = send_with_retry (e_expires E (ids s)) m (s_net s2);
                  s3 = s2\<lparr>s_net := n\<rparr>
           in case outcome of
                Inl err \<Rightarrow> smtp_send_failed E m persisted err s3
              | Inr message_id \<Rightarrow> smtp_sent E m persisted message_id s3)"

definition handle_data :: "'c smtp_env \<Rightarrow> 'c session \<Rightarrow> 'c session" where
  "handle_data E s =
     (if \<not> txn s then write_reply 503 ''5.5.1 MAIL FROM required first'' s
      else if rcpt_to s = [] then write_reply 503 ''5.5.1 RCPT TO required first'' s
      else case write_line (354, '' '', ''End data with <CR><LF>.<CR><LF>'') s of
        (False, s1) \<Rightarrow> s1
      | (True, s1) \<Rightarrow>
          (case read_data (e_max_body E) (input s1) of
             (DataError, rest) \<Rightarrow> reset_transaction (write_reply 451 ''4.3.0 Read error'' (s1\<lparr>input := rest\<rparr>))
           | (DataTooBig, rest) \<Rightarrow> reset_transaction (write_reply 552 ''5.3.4 Message too big'' (s1\<lparr>input := rest\<rparr>))
           | (DataOk body, rest) \<Rightarrow>
               let s2 = s1\<lparr>input := rest\<rparr>
               in case parse_mime_to_message (e_mime E) body (mail_from s) (rcpt_to s) (e_passthrough E) of
                    Inl (PassthroughValue _) \<Rightarrow>
                      reset_transaction (write_reply 554 ''5.6.0 Invalid header value'' s2)
                  | Inl _ \<Rightarrow> reset_transaction (write_reply 550 ''5.6.0 Malformed message: '' s2)
                  | Inr m \<Rightarrow> deliver E m s2))"

section \<open>The session loop\<close>

datatype verdict_cmd = Continue | Close

text \<open>One turn of the loop of \<open>run\<close> on a command line; \<open>Close\<close> ends the session.\<close>

definition command :: "'c smtp_env \<Rightarrow> string \<Rightarrow> 'c session \<Rightarrow> verdict_cmd \<times> 'c session" where
  "command E line s =
     (let (cmd, arg) = split_command line; c = to_upper cmd
      in if c = ''EHLO'' then (Continue, handle_ehlo E s)
         else if c = ''HELO'' then (Continue, handle_helo s)
         else if c = ''STARTTLS'' then (Continue, handle_starttls E s)
         else if c = ''AUTH'' then
           (case handle_auth E arg s of (True, s1) \<Rightarrow> (Close, s1) | (False, s1) \<Rightarrow> (Continue, s1))
         else if c = ''MAIL'' then (Continue, handle_mail E arg s)
         else if c = ''RCPT'' then (Continue, handle_rcpt E arg s)
         else if c = ''DATA'' then (Continue, handle_data E s)
         else if c = ''RSET'' then (Continue, write_reply 250 ''2.0.0 OK'' (reset_transaction s))
         else if c = ''NOOP'' then (Continue, write_reply 250 ''2.0.0 OK'' s)
         else if c = ''QUIT'' then (Close, write_reply 221 ''2.0.0 Bye'' s)
         else (Continue, write_reply 500 ''5.5.1 Command unrecognized'' s))"

text \<open>
  The loop itself, with fuel: one unit per command. The input gets shorter with every
  command that does not complete a handshake and the handshakes are finitely many, so
  \<open>session_size\<close> units are enough (\<open>run_loop_enough\<close>).
\<close>

fun run_loop :: "nat \<Rightarrow> 'c smtp_env \<Rightarrow> 'c session \<Rightarrow> 'c session option" where
  "run_loop 0 E s = None"
| "run_loop (Suc n) E s =
     (case input s of
        [] \<Rightarrow> Some s
      | line # rest \<Rightarrow>
          (case command E line (s\<lparr>input := rest\<rparr>) of
             (Close, s1) \<Rightarrow> Some s1
           | (Continue, s1) \<Rightarrow> run_loop n E s1))"

fun handshake_lines :: "handshake \<Rightarrow> string list" where
  "handshake_lines (HandshakeFailed ls) = ls"
| "handshake_lines (HandshakeOk cert ls) = ls"

definition session_size :: "'c session \<Rightarrow> nat" where
  "session_size s = length (input s) + sum_list (map (\<lambda>h. Suc (length (handshake_lines h))) (handshakes s))"

definition run :: "'c smtp_env \<Rightarrow> 'c session \<Rightarrow> 'c session option" where
  "run E s =
     (case write_line (220, '' '', ''posthorn ready'') s of
        (False, s1) \<Rightarrow> Some s1
      | (True, s1) \<Rightarrow> run_loop (Suc (session_size s1)) E s1)"

definition new_session :: "string list \<Rightarrow> handshake list \<Rightarrow> bool list \<Rightarrow> gate option \<Rightarrow> net \<Rightarrow> 'c limiter \<Rightarrow> 'c session" where
  "new_session ls hs fs g n l =
     \<lparr>tls_active = False, authed_user = [], authed_via_cert = False, mail_from = [], rcpt_to = [], txn = False,
      input = ls, handshakes = hs, wr_faults = fs, replies = [], ticks = 0, ids = 0, s_gate = g, s_net = n,
      s_auth_fail = l\<rparr>"

text \<open>\<open>handleConnection\<close>: a slot, the session, the release.\<close>

definition handle_connection :: "'c smtp_env \<Rightarrow> slots \<Rightarrow> 'c session \<Rightarrow> slots \<times> 'c session option" where
  "handle_connection E sl s =
     (case acquire_conn_slot (e_cfg E) (e_remote_host E) sl of
        (False, sl1) \<Rightarrow> (sl1, Some (snd (write_line (421, '' '', ''4.7.0 Too many connections, try again later'') s)))
      | (True, sl1) \<Rightarrow> (release_conn_slot (e_remote_host E) sl1, run E s))"

end
