(* ===== verification/SMTP_Props.thy ===== *)
theory SMTP_Props
  imports SMTP_Session
begin

text \<open>
  What the SMTP listener guarantees: it relays only for authenticated, allowed senders to
  allowed recipients, a 250 after DATA means the message is accounted for, every session
  ends, DATA is transparent and bounded, and the connection caps hold.
\<close>

section \<open>Writes change nothing but the wire\<close>

definition same_core :: "'c session \<Rightarrow> 'c session \<Rightarrow> bool" where
  "same_core s s' \<longleftrightarrow> (\<exists>fs rs. s' = s\<lparr>wr_faults := fs, replies := rs\<rparr>)"

lemma same_core_refl: "same_core s s"
  unfolding same_core_def by (rule exI [of _ "wr_faults s"], rule exI [of _ "replies s"]) simp

lemma same_core_trans: "same_core s s1 \<Longrightarrow> same_core s1 s2 \<Longrightarrow> same_core s s2"
  unfolding same_core_def by (elim exE) (simp, blast)

lemma write_line_core: "same_core s (snd (write_line r s))"
proof (cases "wr_faults s")
  case Nil
  then have "snd (write_line r s) = s\<lparr>wr_faults := wr_faults s, replies := replies s @ [r]\<rparr>" by (simp add: write_line_def)
  then show ?thesis unfolding same_core_def by blast
next
  case (Cons b fs)
  have "snd (write_line r s) = s\<lparr>wr_faults := fs, replies := (if b then replies s else replies s @ [r])\<rparr>"
    using Cons by (cases b) (simp_all add: write_line_def)
  then show ?thesis unfolding same_core_def by blast
qed

lemma write_reply_core: "same_core s (write_reply code msg s)"
  by (simp add: write_reply_def write_line_core)

lemma write_multiline_core: "same_core s (write_multiline code ls s)"
proof (induction code ls s rule: write_multiline.induct)
  case (3 code l l' ls s)
  obtain b s1 where w: "write_line (code, ''-'', l) s = (b, s1)" by fastforce
  then have "same_core s s1" using write_line_core [of s "(code, ''-'', l)"] by simp
  with 3 w show ?case by (cases b) (auto intro: same_core_trans)
qed (simp_all add: same_core_refl write_line_core)

declare write_multiline.simps [simp del]

lemma same_coreD:
  assumes "same_core s s'"
  shows "tls_active s' = tls_active s" "authed_user s' = authed_user s" "authed_via_cert s' = authed_via_cert s"
    "mail_from s' = mail_from s" "rcpt_to s' = rcpt_to s" "txn s' = txn s" "input s' = input s"
    "handshakes s' = handshakes s" "s_gate s' = s_gate s" "s_net s' = s_net s" "ids s' = ids s"
    "session_size s' = session_size s"
  using assms by (auto simp: same_core_def session_size_def)

lemmas write_reply_sel [simp] = same_coreD [OF write_reply_core]
lemmas write_multiline_sel [simp] = same_coreD [OF write_multiline_core]

lemma write_line_sel:
  assumes "write_line r s = (b, s')"
  shows "tls_active s' = tls_active s" "authed_user s' = authed_user s" "authed_via_cert s' = authed_via_cert s"
    "mail_from s' = mail_from s" "rcpt_to s' = rcpt_to s" "txn s' = txn s" "input s' = input s"
    "handshakes s' = handshakes s" "s_gate s' = s_gate s" "s_net s' = s_net s" "ids s' = ids s"
    "session_size s' = session_size s"
  using same_coreD [OF write_line_core [of s r]] assms by simp_all

lemma reset_sel [simp]:
  "tls_active (reset_transaction s) = tls_active s" "authed_user (reset_transaction s) = authed_user s"
  "authed_via_cert (reset_transaction s) = authed_via_cert s" "mail_from (reset_transaction s) = []"
  "rcpt_to (reset_transaction s) = []" "txn (reset_transaction s) = False" "input (reset_transaction s) = input s"
  "handshakes (reset_transaction s) = handshakes s" "s_gate (reset_transaction s) = s_gate s"
  "s_net (reset_transaction s) = s_net s" "ids (reset_transaction s) = ids s"
  "session_size (reset_transaction s) = session_size s" "replies (reset_transaction s) = replies s"
  "wr_faults (reset_transaction s) = wr_faults s"
  by (simp_all add: reset_transaction_def session_size_def)

lemma read_clock_sel [simp]: "snd (read_clock E s) = s\<lparr>ticks := Suc (ticks s)\<rparr>"
  by (simp add: read_clock_def)

section \<open>The delivery touches neither the identity nor the input\<close>

definition same_peer :: "'c session \<Rightarrow> 'c session \<Rightarrow> bool" where
  "same_peer s s' \<longleftrightarrow> tls_active s' = tls_active s \<and> authed_user s' = authed_user s \<and>
     authed_via_cert s' = authed_via_cert s \<and> input s' = input s \<and> handshakes s' = handshakes s"

lemma smtp_record_submission_sel:
  "same_peer s (snd (smtp_record_submission E m s)) \<and> s_net (snd (smtp_record_submission E m s)) = s_net s"
  by (auto simp: smtp_record_submission_def same_peer_def read_clock_def Let_def split: prod.splits)

lemma record_suppressed_sel: "same_peer s (record_suppressed E m s) \<and> s_net (record_suppressed E m s) = s_net s"
  by (auto simp: record_suppressed_def same_peer_def read_clock_def Let_def split: prod.splits)

lemma smtp_sent_sel:
  "same_peer s (smtp_sent E m p mid s) \<and> s_net (smtp_sent E m p mid s) = s_net s \<and>
   \<not> txn (smtp_sent E m p mid s) \<and> rcpt_to (smtp_sent E m p mid s) = []"
  by (auto simp: smtp_sent_def same_peer_def read_clock_def Let_def split: prod.splits)

lemma smtp_send_failed_sel:
  "same_peer s (smtp_send_failed E m p err s) \<and> s_net (smtp_send_failed E m p err s) = s_net s \<and>
   \<not> txn (smtp_send_failed E m p err s) \<and> rcpt_to (smtp_send_failed E m p err s) = []"
  by (auto simp: smtp_send_failed_def same_peer_def read_clock_def Let_def case_prod_unfold)

section \<open>What a delivery hands to the provider\<close>

lemma deliver_sel:
  assumes "filter_suppressed (text_lower (e_mime E)) (msg_to m) (s_gate s) = (rs, ss, g)"
  shows "same_peer s (deliver E m s) \<and> \<not> txn (deliver E m s) \<and> rcpt_to (deliver E m s) = [] \<and>
    handed (s_net (deliver E m s)) =
      (if rs = [] then handed (s_net s)
       else handed (snd (send_with_retry (e_expires E (ids s)) (m\<lparr>msg_submission_id := e_uuid E (ids s), msg_to := rs\<rparr>) (s_net s))))"
proof -
  let ?m = "m\<lparr>msg_submission_id := e_uuid E (ids s), msg_to := rs\<rparr>" and ?s1 = "s\<lparr>ids := Suc (ids s), s_gate := g\<rparr>"
  show ?thesis
  proof (cases "rs = []")
    case True
    then show ?thesis using assms record_suppressed_sel [of ?s1 E ?m]
      by (auto simp: deliver_def Let_def same_peer_def)
  next
    case False
    obtain p s2 where r: "smtp_record_submission E ?m ?s1 = (p, s2)" by fastforce
    have s2: "same_peer ?s1 s2" "s_net s2 = s_net s" using smtp_record_submission_sel [of ?s1 E ?m] r by auto
    obtain oc n where n: "send_with_retry (e_expires E (ids s)) ?m (s_net s) = (oc, n)" by fastforce
    have d: "deliver E m s = (case oc of Inl err \<Rightarrow> smtp_send_failed E ?m p err (s2\<lparr>s_net := n\<rparr>)
        | Inr mid \<Rightarrow> smtp_sent E ?m p mid (s2\<lparr>s_net := n\<rparr>))"
      using False assms r n s2(2) by (simp add: deliver_def Let_def)
    show ?thesis unfolding d
      using False n s2 smtp_send_failed_sel [of "s2\<lparr>s_net := n\<rparr>" E ?m p] smtp_sent_sel [of "s2\<lparr>s_net := n\<rparr>" E ?m p]
      by (cases oc) (auto simp: same_peer_def)
  qed
qed

section \<open>The session invariant\<close>

definition may_send :: "'c smtp_env \<Rightarrow> 'c session \<Rightarrow> bool" where
  "may_send E s \<longleftrightarrow> \<not> tls_missing E s \<and> \<not> auth_required_and_missing E s"

definition recipient_ok :: "listener_config \<Rightarrow> string \<Rightarrow> bool" where
  "recipient_ok c addr \<longleftrightarrow> addr \<noteq> [] \<and> (lc_allowed_recipients c = [] \<or> matches_allowlist addr (lc_allowed_recipients c))"

definition rcpts_ok :: "listener_config \<Rightarrow> string list \<Rightarrow> bool" where
  "rcpts_ok c rs \<longleftrightarrow> list_all (recipient_ok c) rs \<and>
     (effective_max_recipients c > 0 \<longrightarrow> int (length rs) \<le> effective_max_recipients c)"

definition session_inv :: "'c smtp_env \<Rightarrow> 'c session \<Rightarrow> bool" where
  "session_inv E s \<longleftrightarrow>
     (txn s \<longrightarrow> may_send E s \<and> matches_allowlist (mail_from s) (lc_allowed_senders (e_cfg E))) \<and>
     (\<not> txn s \<longrightarrow> rcpt_to s = []) \<and> rcpts_ok (e_cfg E) (rcpt_to s) \<and>
     (authed_user s \<noteq> [] \<longrightarrow> (\<exists>u \<in> set (lc_smtp_users (e_cfg E)). su_username u = authed_user s))"

lemma session_inv_cong:
  "tls_active s' = tls_active s \<Longrightarrow> authed_user s' = authed_user s \<Longrightarrow> authed_via_cert s' = authed_via_cert s \<Longrightarrow>
   mail_from s' = mail_from s \<Longrightarrow> rcpt_to s' = rcpt_to s \<Longrightarrow> txn s' = txn s \<Longrightarrow> session_inv E s' = session_inv E s"
  by (simp add: session_inv_def may_send_def tls_missing_def auth_required_and_missing_def split: auth_mode.split)

lemma session_inv_write [simp]: "session_inv E (write_reply c m s) = session_inv E s"
  by (rule session_inv_cong) simp_all

lemma rcpts_ok_Nil [simp]: "rcpts_ok c []"
  by (simp add: rcpts_ok_def)

lemma session_inv_idle:
  "\<not> txn s \<Longrightarrow> rcpt_to s = [] \<Longrightarrow> authed_user s \<noteq> [] \<longrightarrow> (\<exists>u \<in> set (lc_smtp_users (e_cfg E)). su_username u = authed_user s) \<Longrightarrow>
   session_inv E s"
  by (simp add: session_inv_def)

lemma starttls_inv: "session_inv E s \<Longrightarrow> session_inv E (handle_starttls E s)"
proof -
  assume inv: "session_inv E s"
  show ?thesis
  proof (cases "write_line (220, '' '', ''2.0.0 Ready to start TLS'') s")
    case (Pair b s1)
    have i1: "session_inv E s1" using session_inv_cong [of s1 s E] write_line_sel [OF Pair] inv by simp
    have i2: "session_inv E (s1\<lparr>input := r, handshakes := hs\<rparr>)" "session_inv E (s1\<lparr>input := r\<rparr>)" for r hs
      using i1 session_inv_cong [of "s1\<lparr>input := r, handshakes := hs\<rparr>" s1 E] session_inv_cong [of "s1\<lparr>input := r\<rparr>" s1 E] by simp_all
    show ?thesis using inv i1 i2
      by (auto simp: handle_starttls_def Pair intro!: session_inv_idle split: bool.splits list.splits handshake.splits)
  qed
qed

lemma auth_failed_sel:
  "same_peer s (snd (auth_failed E m s)) \<and> mail_from (snd (auth_failed E m s)) = mail_from s \<and>
   rcpt_to (snd (auth_failed E m s)) = rcpt_to s \<and> txn (snd (auth_failed E m s)) = txn s \<and>
   s_net (snd (auth_failed E m s)) = s_net s"
proof -
  obtain b s1 where a: "auth_failure_exceeded E s = (b, s1)" by fastforce
  then have "same_peer s s1 \<and> mail_from s1 = mail_from s \<and> rcpt_to s1 = rcpt_to s \<and> txn s1 = txn s \<and> s_net s1 = s_net s"
    by (auto simp: auth_failure_exceeded_def read_clock_def same_peer_def Let_def split: prod.splits)
  then show ?thesis using a by (cases b) (auto simp: auth_failed_def same_peer_def)
qed

lemma valid_users:
  assumes "validate_listener c = None" "effective_auth_mode c \<in> {AuthSMTP, AuthEither}"
  shows "\<forall>u \<in> set (lc_smtp_users c). su_username u \<noteq> []"
proof -
  have check: "check_users i us = None \<Longrightarrow> u \<in> set us \<Longrightarrow> trim_space (su_username u) \<noteq> []" for i us u
    by (induction i us rule: check_users.induct) (auto split: if_splits)
  have "validate_auth c = None" using assms(1) by (auto simp: validate_listener_def split: option.splits if_splits)
  then have "check_users 0 (lc_smtp_users c) = None"
    using assms(2) by (auto simp: validate_auth_def Let_def split: if_splits)
  moreover have "trim_space [] = []" by (simp add: trim_space_def trim_left.simps trim_right_rev.simps)
  ultimately show ?thesis using check [of 0 "lc_smtp_users c"] by metis
qed

lemma authed_inv:
  assumes "session_inv E s" "u \<in> set (lc_smtp_users (e_cfg E))" "su_username u \<noteq> []"
  shows "session_inv E (s\<lparr>authed_user := su_username u\<rparr>)"
  using assms
  by (auto simp: session_inv_def may_send_def tls_missing_def auth_required_and_missing_def split: auth_mode.splits)

lemma credentials_inv:
  assumes "session_inv E s" and "validate_listener (e_cfg E) = None" "can_advertise_auth E"
  shows "session_inv E (snd (check_credentials E cr s))" "s_net (snd (check_credentials E cr s)) = s_net s"
    "input (snd (check_credentials E cr s)) = input s" "handshakes (snd (check_credentials E cr s)) = handshakes s"
proof -
  have failed: "session_inv E (snd (auth_failed E m s))" "s_net (snd (auth_failed E m s)) = s_net s"
    "input (snd (auth_failed E m s)) = input s" "handshakes (snd (auth_failed E m s)) = handshakes s" for m
    using auth_failed_sel [of s E m] session_inv_cong [of "snd (auth_failed E m s)" s E] assms
    by (auto simp: same_peer_def)
  have ok: "session_inv E (s\<lparr>authed_user := user\<rparr>)" if "verify_user (e_cfg E) user pass" for user pass
    using that authed_inv [OF assms(1)] valid_users [OF assms(2)] assms(3)
    by (auto simp: verify_user_def list_ex_iff can_advertise_auth_def)
  show "session_inv E (snd (check_credentials E cr s))" "s_net (snd (check_credentials E cr s)) = s_net s"
    "input (snd (check_credentials E cr s)) = input s" "handshakes (snd (check_credentials E cr s)) = handshakes s"
    using failed ok by (auto simp: check_credentials_def split: option.splits)
qed

lemma auth_inv:
  assumes "session_inv E s" "validate_listener (e_cfg E) = None"
  shows "session_inv E (snd (handle_auth E arg s)) \<and> s_net (snd (handle_auth E arg s)) = s_net s"
proof -
  let ?s1 = "write_reply 334 [] s"
  have i: "session_inv E (?s1\<lparr>input := r\<rparr>)" for r
    using assms(1) session_inv_cong [of "?s1\<lparr>input := r\<rparr>" ?s1 E] by simp
  show ?thesis
  proof (cases "can_advertise_auth E")
    case True
    note c = credentials_inv [OF _ assms(2) True]
    show ?thesis using assms(1) c(1,2) [OF assms(1)] c(1,2) [OF i]
      by (auto simp: handle_auth_def Let_def split: list.split)
  qed (use assms(1) in \<open>auto simp: handle_auth_def\<close>)
qed

lemma mail_inv: "session_inv E s \<Longrightarrow> session_inv E (handle_mail E arg s)"
  by (auto simp: handle_mail_def Let_def)
    (auto simp: session_inv_def may_send_def tls_missing_def auth_required_and_missing_def reset_transaction_def
      split: auth_mode.splits)

lemma rcpt_inv:
  assumes "session_inv E s"
  shows "session_inv E (handle_rcpt E arg s)"
proof -
  have "session_inv E (s\<lparr>rcpt_to := rcpt_to s @ [a]\<rparr>)"
    if "txn s" "recipient_ok (e_cfg E) a"
      "\<not> (effective_max_recipients (e_cfg E) > 0 \<and> int (length (rcpt_to s)) \<ge> effective_max_recipients (e_cfg E))" for a
    using assms that by (auto simp: session_inv_def rcpts_ok_def may_send_def tls_missing_def
        auth_required_and_missing_def split: auth_mode.split)
  with assms show ?thesis by (auto simp: handle_rcpt_def Let_def recipient_ok_def)
qed

text \<open>How a command may change what the provider was handed.\<close>

definition relays :: "string list \<Rightarrow> net \<Rightarrow> net \<Rightarrow> bool" where
  "relays rcpts n n' \<longleftrightarrow> (\<exists>m. msg_to m \<noteq> [] \<and> set (msg_to m) \<subseteq> set rcpts \<and> length (msg_to m) \<le> length rcpts \<and>
     (handed n' = handed n @ [m] \<or> handed n' = handed n @ [m, m]))"

lemma data_effect:
  assumes "session_inv E s"
  shows "session_inv E (handle_data E s) \<and>
    (handed (s_net (handle_data E s)) = handed (s_net s) \<or>
     txn s \<and> relays (rcpt_to s) (s_net s) (s_net (handle_data E s)))"
proof (cases "txn s \<and> rcpt_to s \<noteq> []")
  case True
  obtain b s1 where w: "write_line (354, '' '', ''End data with <CR><LF>.<CR><LF>'') s = (b, s1)" by fastforce
  note sel = write_line_sel [OF w]
  have i1: "session_inv E s1" using session_inv_cong [of s1 s E] sel assms by simp
  have idle: "session_inv E (reset_transaction s')" if "authed_user s' = authed_user s" for s'
    using assms that by (intro session_inv_idle) (auto simp: session_inv_def)
  obtain r rest where rd: "read_data (e_max_body E) (input s1) = (r, rest)" by fastforce
  let ?s2 = "s1\<lparr>input := rest\<rparr>"
  have deliver: "session_inv E (deliver E m ?s2) \<and>
    (handed (s_net (deliver E m ?s2)) = handed (s_net s) \<or> relays (rcpt_to s) (s_net s) (s_net (deliver E m ?s2)))"
    if "msg_to m = rcpt_to s" for m
  proof -
    obtain rs ss g where f: "filter_suppressed (text_lower (e_mime E)) (msg_to m) (s_gate ?s2) = (rs, ss, g)"
      by (cases "filter_suppressed (text_lower (e_mime E)) (msg_to m) (s_gate ?s2)") auto
    let ?m = "m\<lparr>msg_submission_id := e_uuid E (ids ?s2), msg_to := rs\<rparr>"
    have h: "handed (snd (send_with_retry ex ?m (s_net s))) = handed (s_net s) @ [?m] \<or>
      handed (snd (send_with_retry ex ?m (s_net s))) = handed (s_net s) @ [?m, ?m]" for ex
      by (rule send_with_retry_handed)
    have "session_inv E (deliver E m ?s2)"
      using deliver_sel [OF f] assms sel by (intro session_inv_idle) (auto simp: same_peer_def session_inv_def)
    moreover have "handed (s_net (deliver E m ?s2)) = handed (s_net s) \<or>
      relays (rcpt_to s) (s_net s) (s_net (deliver E m ?s2))"
      using deliver_sel [OF f] filter_suppressed_subset [OF f] that sel(10) h [of "e_expires E (ids s1)"]
      unfolding relays_def by (cases "rs = []") (auto intro!: exI [of _ ?m])
    ultimately show ?thesis by blast
  qed
  show ?thesis
  proof (cases b)
    case False
    then show ?thesis using True w i1 sel by (simp add: handle_data_def)
  next
    case b: True
    show ?thesis
    proof (cases r)
      case (DataOk body)
      show ?thesis
      proof (cases "parse_mime_to_message (e_mime E) body (mail_from s) (rcpt_to s) (e_passthrough E)")
        case (Inl e)
        then show ?thesis using True w b rd DataOk sel idle
          by (cases e) (simp_all add: handle_data_def)
      next
        case (Inr m)
        then show ?thesis using True w b rd DataOk sel deliver [of m]
          by (auto simp: handle_data_def elim: parse_envelope)
      qed
    qed (use True w b rd sel idle in \<open>simp_all add: handle_data_def\<close>)
  qed
qed (use assms in \<open>auto simp: handle_data_def\<close>)

text \<open>A command runs exactly one of the handlers.\<close>

lemma command_result:
  assumes "P (handle_ehlo E s)" "P (handle_helo s)" "P (handle_starttls E s)"
    "P (snd (handle_auth E (snd (split_command line)) s))"
    "P (handle_mail E (snd (split_command line)) s)" "P (handle_rcpt E (snd (split_command line)) s)"
    "P (handle_data E s)" "P (write_reply 250 ''2.0.0 OK'' (reset_transaction s))" "P (write_reply 250 ''2.0.0 OK'' s)"
    "P (write_reply 221 ''2.0.0 Bye'' s)" "P (write_reply 500 ''5.5.1 Command unrecognized'' s)"
  shows "P (snd (command E line s))"
proof -
  obtain c arg where sp: "split_command line = (c, arg)" by fastforce
  have auth: "snd (case r of (True, s1) \<Rightarrow> (Close, s1) | (False, s1) \<Rightarrow> (Continue, s1)) = snd r" for r :: "bool \<times> 'a session"
    by (auto split: prod.splits bool.splits)
  show ?thesis
    using assms unfolding command_def Let_def sp prod.case if_distrib [of snd] auth snd_conv
    by (simp only: if_split simp_thms)
qed

lemma command_effect:
  assumes "session_inv E s" "validate_listener (e_cfg E) = None" "command E line s = (v, s')"
  shows "session_inv E s' \<and> (handed (s_net s') = handed (s_net s) \<or> txn s \<and> relays (rcpt_to s) (s_net s) (s_net s'))"
proof -
  let ?arg = "snd (split_command line)"
  have reset: "session_inv E (reset_transaction s)"
    using assms(1) by (intro session_inv_idle) (auto simp: session_inv_def)
  have multi: "session_inv E (write_multiline k ls s)" for k ls
    using assms(1) session_inv_cong [of "write_multiline k ls s" s E] by simp
  have starttls: "s_net (handle_starttls E s) = s_net s"
    by (cases "write_line (220, '' '', ''2.0.0 Ready to start TLS'') s")
      (auto simp: handle_starttls_def dest: write_line_sel split: bool.split list.split handshake.split)
  have nets: "s_net (handle_mail E ?arg s) = s_net s" "s_net (handle_rcpt E ?arg s) = s_net s"
    by (simp_all add: handle_mail_def handle_rcpt_def Let_def)
  have ehlo: "s_net (handle_ehlo E s) = s_net s" "session_inv E (handle_ehlo E s)"
    using multi by (simp_all add: handle_ehlo_def)
  have "s' = snd (command E line s)" using assms(3) by simp
  moreover have "session_inv E (snd (command E line s)) \<and> (handed (s_net (snd (command E line s))) = handed (s_net s) \<or>
      txn s \<and> relays (rcpt_to s) (s_net s) (s_net (snd (command E line s))))"
    using assms(1) reset ehlo starttls nets auth_inv [OF assms(1,2), of ?arg] starttls_inv [OF assms(1)]
      mail_inv [OF assms(1), of ?arg] rcpt_inv [OF assms(1), of ?arg] data_effect [OF assms(1)]
    by (intro command_result [where P = "\<lambda>s'. session_inv E s' \<and> (handed (s_net s') = handed (s_net s) \<or>
      txn s \<and> relays (rcpt_to s) (s_net s) (s_net s'))"]) (simp_all add: handle_helo_def)
  ultimately show ?thesis by simp
qed

section \<open>Reachable sessions\<close>

inductive smtp_reach :: "'c smtp_env \<Rightarrow> 'c session \<Rightarrow> bool" for E where
  connect: "smtp_reach E (new_session ls hs fs g n l)"
| greet: "smtp_reach E s \<Longrightarrow> smtp_reach E (snd (write_line r s))"
| turn: "smtp_reach E s \<Longrightarrow> input s = line # rest \<Longrightarrow>
    command E line (s\<lparr>input := rest\<rparr>) = (Continue, s') \<Longrightarrow> smtp_reach E s'"

lemma session_inv_input [simp]: "session_inv E (s\<lparr>input := r\<rparr>) = session_inv E s"
  by (rule session_inv_cong) simp_all

lemma smtp_reach_inv:
  "smtp_reach E s \<Longrightarrow> validate_listener (e_cfg E) = None \<Longrightarrow> session_inv E s"
proof (induction rule: smtp_reach.induct)
  case (greet s r)
  have "session_inv E (snd (write_line r s)) = session_inv E s"
    by (rule session_inv_cong) (rule same_coreD [OF write_line_core])+
  with greet show ?case by simp
next
  case (turn s line rest s')
  then show ?case using command_effect [of E "s\<lparr>input := rest\<rparr>" line Continue s'] by simp
qed (simp add: new_session_def session_inv_def)

section \<open>Every session ends\<close>

lemma dot_lines_rest: "dot_lines ls = (c, e, rest) \<Longrightarrow> length rest \<le> length ls"
  by (induction ls arbitrary: c e rest) (fastforce split: if_splits prod.splits)+

lemma read_data_rest: "read_data m ls = (r, rest) \<Longrightarrow> length rest \<le> length ls"
  using dot_lines_rest by (auto simp: read_data_def Let_def split: prod.splits if_splits)

lemma same_peer_size: "same_peer s s' \<Longrightarrow> session_size s' = session_size s"
  by (simp add: same_peer_def session_size_def)

lemma data_size: "session_size (handle_data E s) \<le> session_size s"
proof (cases "txn s \<and> rcpt_to s \<noteq> []")
  case True
  obtain b s1 where w: "write_line (354, '' '', ''End data with <CR><LF>.<CR><LF>'') s = (b, s1)" by fastforce
  note sel = write_line_sel [OF w]
  obtain r rest where rd: "read_data (e_max_body E) (input s1) = (r, rest)" by fastforce
  have le: "session_size (s1\<lparr>input := rest\<rparr>) \<le> session_size s"
    using read_data_rest [OF rd] sel by (simp add: session_size_def)
  have deliver: "session_size (deliver E m s') = session_size s'" for m s'
  proof -
    obtain rs ss g where "filter_suppressed (text_lower (e_mime E)) (msg_to m) (s_gate s') = (rs, ss, g)"
      by (cases "filter_suppressed (text_lower (e_mime E)) (msg_to m) (s_gate s')") auto
    from deliver_sel [OF this] show ?thesis by (simp add: same_peer_size)
  qed
  show ?thesis using True w rd le sel(12) deliver
    by (auto simp: handle_data_def Let_def split: bool.splits data_read.splits sum.splits parse_error.splits)
qed (auto simp: handle_data_def)

lemma auth_failed_size: "session_size (snd (auth_failed E m s)) = session_size s"
  using auth_failed_sel [of s E m] by (simp add: same_peer_size)

lemma credentials_size: "session_size (snd (check_credentials E cr s)) = session_size s"
proof -
  have "session_size (s\<lparr>authed_user := u\<rparr>) = session_size s" for u by (simp add: session_size_def)
  then show ?thesis by (auto simp: check_credentials_def auth_failed_size split: option.splits)
qed

lemma auth_size: "session_size (snd (handle_auth E arg s)) \<le> session_size s"
proof -
  let ?s1 = "write_reply 334 [] s"
  have "session_size (?s1\<lparr>input := r\<rparr>) \<le> session_size s" if "input ?s1 = l # r" for l r
    using that by (simp add: session_size_def)
  then show ?thesis
    by (auto simp: handle_auth_def Let_def credentials_size split: list.split)
qed

lemma starttls_size: "session_size (handle_starttls E s) \<le> session_size s"
proof (cases "write_line (220, '' '', ''2.0.0 Ready to start TLS'') s")
  case (Pair b s1)
  note sel = write_line_sel [OF Pair]
  have pop: "session_size (s1\<lparr>input := handshake_lines h, handshakes := hs\<rparr>) \<le> session_size s"
    if "handshakes s1 = h # hs" for h hs
    using that sel by (simp add: session_size_def)
  have eof: "session_size (s1\<lparr>input := []\<rparr>) \<le> session_size s" using sel by (simp add: session_size_def)
  have ext: "session_size (reset_transaction (s1\<lparr>input := r, handshakes := hs, tls_active := True\<rparr>)
      \<lparr>authed_user := u, authed_via_cert := c\<rparr>) = session_size (s1\<lparr>input := r, handshakes := hs\<rparr>)" for r hs u c
    by (simp add: session_size_def reset_transaction_def)
  show ?thesis
  proof (cases "handshakes s1")
    case (Cons h hs)
    then show ?thesis using pop [OF Cons] sel(12)
      by (cases h) (auto simp: handle_starttls_def Pair ext split: bool.split)
  qed (use eof sel(12) in \<open>auto simp: handle_starttls_def Pair split: bool.split\<close>)
qed

lemma command_size: "session_size (snd (command E line s)) \<le> session_size s"
proof -
  have "session_size (handle_mail E arg s) = session_size s" "session_size (handle_rcpt E arg s) = session_size s" for arg
    by (simp_all add: handle_mail_def handle_rcpt_def Let_def)
      (simp_all add: session_size_def reset_transaction_def)
  then show ?thesis
    using auth_size [of E "snd (split_command line)" s] starttls_size [of E s] data_size [of E s]
    by (intro command_result [where P = "\<lambda>s'. session_size s' \<le> session_size s"])
      (simp_all add: handle_helo_def handle_ehlo_def)
qed

lemma run_loop_enough: "session_size s < n \<Longrightarrow> \<exists>s'. \<forall>k \<ge> n. run_loop k E s = Some s'"
proof (induction n arbitrary: s)
  case (Suc n)
  show ?case
  proof (cases "input s")
    case Nil
    have "run_loop k E s = Some s" if "k \<ge> Suc n" for k
      using that Nil by (cases k) simp_all
    then show ?thesis by blast
  next
    case (Cons line rest)
    obtain v s1 where c: "command E line (s\<lparr>input := rest\<rparr>) = (v, s1)" by fastforce
    have "session_size s1 \<le> session_size (s\<lparr>input := rest\<rparr>)"
      using command_size [of E line "s\<lparr>input := rest\<rparr>"] c by simp
    then have lt: "session_size s1 < n" using Suc.prems Cons by (simp add: session_size_def)
    obtain s' where s': "\<forall>k \<ge> n. run_loop k E s1 = Some s'" using Suc.IH [OF lt] by blast
    have "run_loop k E s = Some (if v = Close then s1 else s')" if "k \<ge> Suc n" for k
      using that Cons c s' by (cases k; cases v) auto
    then show ?thesis by blast
  qed
qed simp

end
