(* ===== verification/SMTP_Claims.thy ===== *)
theory SMTP_Claims
  imports SMTP_Props "HOL-Library.Multiset"
begin

text \<open>
  The properties of the SMTP listener: who may relay what to whom, what a reply after DATA
  promises, that sessions end, that DATA is transparent, and that the connection slots
  implement their specification, a multiset of live peers.
\<close>

section \<open>Relaying\<close>


definition demo_listener :: listener_config where
  "demo_listener = \<lparr>lc_name = ''in'', lc_listen = '':25'', lc_require_tls = False, lc_tls_cert = [], lc_tls_key = [],
     lc_client_cert_ca = [], lc_auth_required = AuthNone, lc_smtp_users = [], lc_allowed_senders = [''*@a.org''],
     lc_allowed_recipients = [], lc_passthrough_headers = [], lc_max_recipients = 0, lc_idle_timeout = 0,
     lc_max_connections = 0, lc_max_connections_per_ip = 0, lc_transport_type = ''log''\<rparr>"

definition demo_smtp :: "(string, nat) list_lru smtp_env" where
  "demo_smtp = \<lparr>e_cfg = demo_listener, e_name = ''in'', e_passthrough = [], e_max_body = 1000, e_tls = False,
     e_mime = demo_mime, e_base64 = (\<lambda>_. None), e_lru = list_lru, e_expires = (\<lambda>_ _. False),
     e_clock = int, e_uuid = (\<lambda>n. replicate (Suc n) (CHR ''u'')), e_remote_host = ''192.0.2.1''\<rparr>"

definition demo_net :: net where
  "demo_net = \<lparr>provider = (\<lambda>_ _. Inr ''mid''), handed = []\<rparr>"

definition demo_start :: "(string, nat) list_lru session" where
  "demo_start = new_session [''MAIL FROM:<x@a.org>'', ''RCPT TO:<b@x>'', ''DATA'', ''hi'', ''.'']
     [] [] None demo_net demo_limiter"

definition demo_ready :: "(string, nat) list_lru session" where
  "demo_ready = demo_start\<lparr>mail_from := ''x@a.org'', rcpt_to := [''b@x''], txn := True, input := [''DATA'', ''hi'', ''.''],
      replies := [(250, '' '', ''2.1.0 OK''), (250, '' '', ''2.1.5 OK'')]\<rparr>"

lemma demo_cfg [simp]:
  "lc_require_tls demo_listener = False" "effective_auth_mode demo_listener = AuthNone"
  "effective_max_recipients demo_listener = 10" "lc_allowed_recipients demo_listener = []"
  "e_cfg demo_smtp = demo_listener" "validate_listener demo_listener = None"
  by (simp_all add: demo_listener_def demo_smtp_def effective_auth_mode_def effective_max_recipients_def
      validate_listener_def validate_auth_def passthrough_names_def Let_def)

lemma demo_mail:
  "extract_envelope_address ''FROM:<x@a.org>'' ''FROM:'' = ''x@a.org''"
  "extract_envelope_address ''TO:<b@x>'' ''TO:'' = ''b@x''"
  "split_command ''MAIL FROM:<x@a.org>'' = (''MAIL'', ''FROM:<x@a.org>'')"
  "split_command ''RCPT TO:<b@x>'' = (''RCPT'', ''TO:<b@x>'')"
  "split_command ''DATA'' = (''DATA'', [])"
  "to_upper ''MAIL'' = ''MAIL''" "to_upper ''RCPT'' = ''RCPT''" "to_upper ''DATA'' = ''DATA''"
  "matches_allowlist ''x@a.org'' [''*@a.org'']"
  by code_simp+

lemma demo_command:
  "command E ''MAIL FROM:<x@a.org>'' s = (Continue, handle_mail E ''FROM:<x@a.org>'' s)"
  "command E ''RCPT TO:<b@x>'' s = (Continue, handle_rcpt E ''TO:<b@x>'' s)"
  "command E ''DATA'' s = (Continue, handle_data E s)"
  by (simp_all add: command_def demo_mail Let_def del: to_upper.simps)

lemma demo_reach: "smtp_reach demo_smtp demo_ready"
proof -
  let ?s1 = "demo_start\<lparr>mail_from := ''x@a.org'', txn := True, input := [''RCPT TO:<b@x>'', ''DATA'', ''hi'', ''.''],
    replies := [(250, '' '', ''2.1.0 OK'')]\<rparr>"
  have senders: "lc_allowed_senders demo_listener = [''*@a.org'']" by (simp add: demo_listener_def)
  have "smtp_reach demo_smtp demo_start" unfolding demo_start_def by (rule smtp_reach.connect)
  then have "smtp_reach demo_smtp ?s1"
    by (rule smtp_reach.turn [where line = "''MAIL FROM:<x@a.org>''" and rest = "[''RCPT TO:<b@x>'', ''DATA'', ''hi'', ''.'']"])
      (simp_all add: demo_start_def new_session_def demo_command demo_mail handle_mail_def tls_missing_def
        auth_required_and_missing_def reset_transaction_def write_reply_def write_line_def senders)
  then show ?thesis
    by (rule smtp_reach.turn [where line = "''RCPT TO:<b@x>''" and rest = "[''DATA'', ''hi'', ''.'']"])
      (simp_all add: demo_ready_def demo_start_def new_session_def demo_command demo_mail handle_rcpt_def
        write_reply_def write_line_def)
qed

lemma demo_parse:
  "\<exists>m. parse_mime_to_message demo_mime b f rs [] = Inr m"
  by (simp add: parse_mime_to_message_def demo_mime_def extract_body_def header_get_def decoded_or_raw_def)

lemma demo_data:
  "\<exists>m. handed (s_net (snd (command demo_smtp ''DATA'' (demo_ready\<lparr>input := [''hi'', ''.'']\<rparr>)))) = [m]"
proof -
  have rd: "read_data 1000 [''hi'', ''.''] = (DataOk (''hi'' @ [newline]), [])"
    by (simp add: read_data_def int64_wrap_def has_prefix_def)
  obtain m where m: "parse_mime_to_message demo_mime (''hi'' @ [newline]) ''x@a.org'' [''b@x''] [] = Inr m"
    using demo_parse by blast
  then have "msg_to m = [''b@x'']" by (auto elim!: parse_envelope)
  with m show ?thesis
    by (simp add: demo_command handle_data_def demo_ready_def demo_start_def new_session_def write_line_def
        rd deliver_def Let_def filter_suppressed_def smtp_record_submission_def gate_up_def send_with_retry_def
        net_send_def demo_net_def smtp_sent_def demo_smtp_def)
qed


section \<open>What the reply after DATA promises\<close>

text \<open>The last attempt of an inline send was accepted.\<close>

definition accepted :: "net \<Rightarrow> net \<Rightarrow> bool" where
  "accepted n n' \<longleftrightarrow> (\<exists>m mid. handed n' \<noteq> handed n \<and> last (handed n') = m \<and>
     provider n (length (handed n') - 1) m = Inr mid)"

lemma send_outcome:
  assumes "send_with_retry ex m n = (r, n')"
  shows "(\<exists>mid. r = Inr mid) \<longleftrightarrow> accepted n n'"
  using assms
  by (auto simp: send_with_retry_def net_send_def accepted_def Let_def split: sum.splits option.splits if_splits)

lemma reply_code [simp]:
  "wr_faults s = [] \<Longrightarrow> replies (write_reply k t s) = replies s @ [(k, '' '', t)]"
  "wr_faults s = [] \<Longrightarrow> wr_faults (write_reply k t s) = []"
  by (simp_all add: write_reply_def write_line_def)

lemma filter_each_queue: "filter_each lower to g = (rs, ss, g1) \<Longrightarrow> retry_queue (gate_db g1) = retry_queue (gate_db g)"
proof (induction lower to g arbitrary: rs ss g1 rule: filter_each.induct)
  case (2 lower addr to g)
  have q: "retry_queue (snd (suppression_for lower addr d)) = retry_queue d" for d
    unfolding suppression_for_def query_def by (cases rule: stmt_cases) (auto simp: stmt_def split: list.split bool.split)
  obtain r d where s: "suppression_for lower addr (gate_db g) = (r, d)" by fastforce
  have d: "retry_queue d = retry_queue (gate_db g)" using q [of "gate_db g"] s by simp
  show ?case
  proof (cases r)
    case (Inl e)
    then show ?thesis using 2 s d
      by (auto simp: on_db_def report_error_def split: prod.splits)
  next
    case (Inr o1)
    then show ?thesis using 2 s d
      by (cases o1) (auto simp: on_db_def split: prod.splits)
  qed
qed simp

lemma filter_suppressed_queue:
  "filter_suppressed lower to go = (rs, ss, g1) \<Longrightarrow> gate_queue g1 = gate_queue go"
  using filter_each_queue by (auto simp: filter_suppressed_def gate_queue_def split: option.splits if_splits prod.splits)

lemma record_submission_effect:
  assumes "smtp_record_submission E m s = (p, s1)"
  shows "gate_queue (s_gate s1) = gate_queue (s_gate s)" "wr_faults s1 = wr_faults s" "replies s1 = replies s"
  using assms try_store_queue [of "record_submission (smtp_row E m (fst (read_clock E s)))" "s_gate s"]
  by (auto simp: smtp_record_submission_def read_clock_def Let_def split: if_splits prod.splits)

lemma mark_sent_queue_subset: "set (retry_queue (snd (mark_sent i mid now d))) \<subseteq> set (retry_queue d)"
  unfolding mark_sent_def
  by (rule tx2_keeps [where P = "\<lambda>d'. set (retry_queue d') \<subseteq> set (retry_queue d)"])
    (auto simp: update_sub_def delete_queue_def)

text \<open>After a failed inline send: 250 with the message in the queue, or 451 with the queue as it was.\<close>

lemma send_failed_effect:
  assumes "wr_faults s = []"
  shows "\<exists>code t. replies (smtp_send_failed E m p err s) = replies s @ [(code, '' '', t)] \<and>
    (code = 250 \<and> is_retryable err \<and> msg_submission_id m \<in> set (map q_id (gate_queue (s_gate (smtp_send_failed E m p err s)))) \<or>
     code = 451 \<and> gate_queue (s_gate (smtp_send_failed E m p err s)) = gate_queue (s_gate s))"
proof -
  let ?i = "msg_submission_id m" and ?now = "e_clock E (ticks s)"
  obtain ok g where t: "try_store (enqueue ?i ?now) (s_gate s) = (ok, g)" by fastforce
  note en = try_enqueue [OF t]
  have fail: "gate_queue (snd (try_store (mark_status ?i StFailed e) go)) = gate_queue go" for e go
    by (rule try_store_queue) (rule mark_status_queue)
  show ?thesis
    using assms t en fail
    by (cases "p \<and> is_retryable err"; cases ok; cases p) (simp_all add: smtp_send_failed_def read_clock_def Let_def)
qed

definition accounted :: "string list \<Rightarrow> string \<Rightarrow> nat \<Rightarrow> 'c session \<Rightarrow> 'c session \<Rightarrow> bool" where
  "accounted remaining i code s s' \<longleftrightarrow>
     (if code = 250
      then remaining = [] \<and> handed (s_net s') = handed (s_net s) \<or>
        accepted (s_net s) (s_net s') \<or> i \<in> set (map q_id (gate_queue (s_gate s')))
      else code \<in> {451, 550, 552, 554} \<and> \<not> accepted (s_net s) (s_net s') \<and>
        gate_queue (s_gate s') = gate_queue (s_gate s))"

lemma deliver_effect:
  assumes "wr_faults s = []" "filter_suppressed (text_lower (e_mime E)) (msg_to m) (s_gate s) = (rs, ss, g)"
  shows "\<exists>code t. replies (deliver E m s) = replies s @ [(code, '' '', t)] \<and>
    accounted rs (e_uuid E (ids s)) code s (deliver E m s)"
proof -
  let ?m = "m\<lparr>msg_submission_id := e_uuid E (ids s), msg_to := rs\<rparr>" and ?s1 = "s\<lparr>ids := Suc (ids s), s_gate := g\<rparr>"
  show ?thesis
  proof (cases "rs = []")
    case True
    have "wr_faults (record_suppressed E ?m ?s1) = [] \<and> replies (record_suppressed E ?m ?s1) = replies s"
      using assms(1) by (auto simp: record_suppressed_def read_clock_def Let_def split: prod.splits)
    with True assms show ?thesis using deliver_sel [OF assms(2)]
      by (auto simp: deliver_def Let_def accounted_def)
  next
    case False
    obtain p s2 where r: "smtp_record_submission E ?m ?s1 = (p, s2)" by fastforce
    note recd = record_submission_effect [OF r]
    have net2: "s_net s2 = s_net s" using smtp_record_submission_sel [of ?s1 E ?m] r by simp
    obtain oc n where n: "send_with_retry (e_expires E (ids s)) ?m (s_net s) = (oc, n)" by fastforce
    note acc = send_outcome [OF n]
    have q: "gate_queue (s_gate s2) = gate_queue (s_gate s)"
      using recd(1) filter_suppressed_queue [OF assms(2)] by simp
    let ?s3 = "s2\<lparr>s_net := n\<rparr>"
    have d: "deliver E m s = (case oc of Inl err \<Rightarrow> smtp_send_failed E ?m p err ?s3 | Inr mid \<Rightarrow> smtp_sent E ?m p mid ?s3)"
      using False assms(2) r n net2 by (simp add: deliver_def Let_def)
    show ?thesis
    proof (cases oc)
      case (Inl err)
      then have na: "\<not> accepted (s_net s) n" using acc by simp
      obtain code t where "replies (smtp_send_failed E ?m p err ?s3) = replies s @ [(code, '' '', t)]"
        "code = 250 \<and> e_uuid E (ids s) \<in> set (map q_id (gate_queue (s_gate (smtp_send_failed E ?m p err ?s3)))) \<or>
         code = 451 \<and> gate_queue (s_gate (smtp_send_failed E ?m p err ?s3)) = gate_queue (s_gate s)"
        using send_failed_effect [of ?s3 E ?m p err] assms(1) recd q by auto
      with na Inl show ?thesis unfolding d accounted_def using smtp_send_failed_sel [of ?s3 E ?m p err] by auto
    next
      case (Inr mid)
      have "replies (smtp_sent E ?m p mid ?s3) = replies s @ [(250, '' '', ''2.0.0 OK queued as '' @ e_uuid E (ids s))]"
        using assms(1) recd(2,3) by (auto simp: smtp_sent_def read_clock_def Let_def)
      with Inr acc show ?thesis unfolding d accounted_def using smtp_sent_sel [of ?s3 E ?m p mid] by auto
    qed
  qed
qed

lemma not_accepted_same: "handed n' = handed n \<Longrightarrow> \<not> accepted n n'"
  by (simp add: accepted_def)

text \<open>
  C19: what the reply after DATA promises. In a transaction with recipients, when the
  replies can be written, DATA is answered by 354 and then exactly one final reply, and the
  transaction is over. A final 250 means the message is accounted for: every recipient was
  suppressed, or the provider accepted it, or it is in the retry queue. Any other code means
  the provider did not accept it and the queue is as it was, so the client may send again.
\<close>

theorem data_reply_accounts:
  assumes "txn s" "rcpt_to s \<noteq> []" "wr_faults s = []"
  shows "\<exists>code t s'. s' = handle_data E s \<and>
    replies s' = replies s @ [(354, '' '', ''End data with <CR><LF>.<CR><LF>''), (code, '' '', t)] \<and>
    \<not> txn s' \<and> rcpt_to s' = [] \<and>
    (if code = 250
     then fst (filter_suppressed (text_lower (e_mime E)) (rcpt_to s) (s_gate s)) = [] \<and> handed (s_net s') = handed (s_net s) \<or>
       accepted (s_net s) (s_net s') \<or> e_uuid E (ids s) \<in> set (map q_id (gate_queue (s_gate s')))
     else code \<in> {451, 550, 552, 554} \<and> \<not> accepted (s_net s) (s_net s') \<and>
       gate_queue (s_gate s') = gate_queue (s_gate s))"
proof -
  let ?s1 = "s\<lparr>replies := replies s @ [(354, '' '', ''End data with <CR><LF>.<CR><LF>'')]\<rparr>"
  have w: "write_line (354, '' '', ''End data with <CR><LF>.<CR><LF>'') s = (True, ?s1)"
    using assms(3) by (simp add: write_line_def)
  obtain r rest where rd: "read_data (e_max_body E) (input s) = (r, rest)" by fastforce
  let ?s2 = "?s1\<lparr>input := rest\<rparr>"
  let ?lower = "text_lower (e_mime E)"
  obtain rs ss g where f: "filter_suppressed ?lower (rcpt_to s) (s_gate s) = (rs, ss, g)"
    by (cases "filter_suppressed ?lower (rcpt_to s) (s_gate s)") auto
  have reject: "\<exists>code t s'. s' = reset_transaction (write_reply c tx ?s2) \<and> replies s' = replies ?s1 @ [(code, '' '', t)] \<and>
      \<not> txn s' \<and> rcpt_to s' = [] \<and> accounted rs (e_uuid E (ids s)) code s s'" if "c \<in> {451, 550, 552, 554}" for c tx
    using that assms(3) by (auto simp: accounted_def not_accepted_same)
  have "\<exists>code t s'. s' = handle_data E s \<and> replies s' = replies ?s1 @ [(code, '' '', t)] \<and>
      \<not> txn s' \<and> rcpt_to s' = [] \<and> accounted rs (e_uuid E (ids s)) code s s'"
  proof (cases r)
    case (DataOk body)
    show ?thesis
    proof (cases "parse_mime_to_message (e_mime E) body (mail_from s) (rcpt_to s) (e_passthrough E)")
      case (Inl e)
      then have "\<exists>c tx. c \<in> {550, 554} \<and> handle_data E s = reset_transaction (write_reply c tx ?s2)"
        using assms rd DataOk w by (cases e) (auto simp: handle_data_def)
      with reject show ?thesis by fastforce
    next
      case (Inr m)
      then have h: "handle_data E s = deliver E m ?s2"
        using assms rd DataOk w by (simp add: handle_data_def)
      have f2: "filter_suppressed ?lower (msg_to m) (s_gate ?s2) = (rs, ss, g)"
        using f Inr by (auto elim!: parse_envelope)
      obtain code t where "replies (deliver E m ?s2) = replies ?s2 @ [(code, '' '', t)]"
        "accounted rs (e_uuid E (ids s)) code ?s2 (deliver E m ?s2)"
        using deliver_effect [OF _ f2] assms(3) by auto
      then show ?thesis unfolding h using deliver_sel [OF f2] by (auto simp: accounted_def)
    qed
  next
    case DataError
    then have "handle_data E s = reset_transaction (write_reply 451 ''4.3.0 Read error'' ?s2)"
      using assms rd w by (simp add: handle_data_def)
    with reject [of 451] show ?thesis by simp
  next
    case DataTooBig
    then have "handle_data E s = reset_transaction (write_reply 552 ''5.3.4 Message too big'' ?s2)"
      using assms rd w by (simp add: handle_data_def)
    with reject [of 552] show ?thesis by simp
  qed
  then show ?thesis using f by (auto simp: accounted_def)
qed

theorem data_reply_accounts_witness:
  "\<not> txn (handle_data demo_smtp (demo_ready\<lparr>input := [''hi'', ''.'']\<rparr>))"
proof -
  have "txn demo_ready" "rcpt_to demo_ready \<noteq> []" "wr_faults demo_ready = []"
    by (simp_all add: demo_ready_def demo_start_def new_session_def)
  with data_reply_accounts [of "demo_ready\<lparr>input := [''hi'', ''.'']\<rparr>" demo_smtp] show ?thesis by auto
qed

section \<open>Termination\<close>



section \<open>DATA\<close>

text \<open>What a client sends for a body: its lines, a dot added before a leading dot, and the single dot.\<close>

definition dot_stuff :: "string list \<Rightarrow> string list" where
  "dot_stuff ls = map (\<lambda>l. if has_prefix l ''.'' then CHR ''.'' # l else l) ls @ [''.'']"

definition body_of :: "string list \<Rightarrow> bytes" where
  "body_of ls = concat (map (\<lambda>l. l @ [newline]) ls)"

lemma dot_lines_stuffed: "dot_lines (dot_stuff ls @ rest) = (ls, True, rest)"
proof (induction ls)
  case (Cons l ls)
  then show ?case by (cases l) (auto simp: dot_stuff_def)
qed (simp add: dot_stuff_def)

lemma int64_wrap_small: "0 \<le> n \<Longrightarrow> n < max_int64 \<Longrightarrow> int64_wrap (n + 1) = n + 1"
  unfolding int64_wrap_def signed_of_int by (simp add: max_int64_def signed_take_bit_int_eq_self)

text \<open>
  C22: DATA is transparent and bounded. What the server reads back from a dot-stuffed body
  is the body, byte for byte, when it is at most \<open>max_body\<close> bytes long; a longer one is
  rejected and never handed on cut short; and in both cases reading stops right after the
  final dot, so nothing of the body is taken for a command. With \<open>max_body\<close> 0, which the
  guard of the size check and EHLO treat as no limit, only the first byte is kept.
\<close>

theorem data_transparent:
  assumes "0 \<le> max_body" "max_body < max_int64"
  shows "read_data max_body (dot_stuff ls @ rest) =
    (if max_body = 0 then DataOk (take 1 (body_of ls))
     else if int (length (body_of ls)) \<le> max_body then DataOk (body_of ls) else DataTooBig, rest)"
proof -
  have l: "nat (int64_wrap (max_body + 1)) = Suc (nat max_body)"
    using int64_wrap_small [OF assms] assms(1) by simp
  show ?thesis
    using assms(1) by (auto simp: read_data_def dot_lines_stuffed Let_def l body_of_def [symmetric])
qed

theorem data_transparent_witness:
  "read_data 100 (dot_stuff [''a'', ''.b''] @ [''QUIT'']) = (DataOk (body_of [''a'', ''.b'']), [''QUIT''])"
  by (subst data_transparent) (simp_all add: max_int64_def body_of_def)

section \<open>Connection slots\<close>

text \<open>
  The specification: the multiset of the peers of the live connections. A slot is given
  exactly when neither cap is reached, and ending a connection removes its peer.
\<close>

definition slots_of :: "string multiset \<Rightarrow> slots" where
  "slots_of M = \<lparr>active_conns = int (size M),
     per_ip_conns = (\<lambda>ip. if count M ip = 0 then None else Some (int (count M ip)))\<rparr>"

datatype conn_event = Arrives string | Leaves string

text \<open>What the listener does on each event: a connection that got no slot never leaves.\<close>

fun conn_step :: "listener_config \<Rightarrow> slots \<Rightarrow> conn_event \<Rightarrow> slots" where
  "conn_step c s (Arrives ip) = snd (acquire_conn_slot c ip s)"
| "conn_step c s (Leaves ip) = release_conn_slot ip s"

fun live_step :: "listener_config \<Rightarrow> string multiset \<Rightarrow> conn_event \<Rightarrow> string multiset" where
  "live_step c M (Arrives ip) =
     (if int (size M) < effective_max_connections c \<and> int (count M ip) < effective_max_connections_per_ip c
      then add_mset ip M else M)"
| "live_step c M (Leaves ip) = M - {#ip#}"

fun leaves_live :: "listener_config \<Rightarrow> string multiset \<Rightarrow> conn_event list \<Rightarrow> bool" where
  "leaves_live c M [] \<longleftrightarrow> True"
| "leaves_live c M (e # es) \<longleftrightarrow>
     (case e of Arrives _ \<Rightarrow> True | Leaves ip \<Rightarrow> ip \<in># M) \<and> leaves_live c (live_step c M e) es"

lemma ip_count_slots_of [simp]: "ip_count (slots_of M) ip = int (count M ip)"
  by (simp add: ip_count_def slots_of_def)

lemma acquire_refines:
  "acquire_conn_slot c ip (slots_of M) =
     (int (size M) < effective_max_connections c \<and> int (count M ip) < effective_max_connections_per_ip c,
      slots_of (live_step c M (Arrives ip)))"
  by (auto simp: acquire_conn_slot_def) (auto simp: slots_of_def fun_eq_iff simp flip: count_greater_zero_iff)

lemma release_refines: "ip \<in># M \<Longrightarrow> release_conn_slot ip (slots_of M) = slots_of (M - {#ip#})"
proof -
  assume ip: "ip \<in># M"
  then have "0 < size M" "0 < count M ip" by (auto simp: nonempty_has_size [symmetric])
  then show ?thesis using ip unfolding release_conn_slot_def Let_def ip_count_slots_of
    by (auto simp: slots_of_def fun_eq_iff size_Diff_singleton of_nat_diff simp flip: count_greater_zero_iff)
qed

definition within_caps :: "listener_config \<Rightarrow> string multiset \<Rightarrow> bool" where
  "within_caps c M \<longleftrightarrow> int (size M) \<le> effective_max_connections c \<and>
     (\<forall>ip \<in># M. int (count M ip) \<le> effective_max_connections_per_ip c)"

lemma live_step_caps: "within_caps c M \<Longrightarrow> within_caps c (live_step c M e)"
proof (cases e)
  case (Leaves ip)
  assume "within_caps c M"
  moreover have "int (size (M - {#ip#})) \<le> int (size M)" by (simp add: size_Diff1_le)
  moreover have "int (count (M - {#ip#}) x) \<le> int (count M x)" for x by simp
  moreover have "live_step c M e = M - {#ip#}" using Leaves by simp
  ultimately show ?thesis unfolding within_caps_def by (metis in_diffD order_trans)
qed (auto simp: within_caps_def)

text \<open>
  C23: the connection slots implement their specification. Started empty and driven by any
  sequence of arrivals and departures of live connections, the two counters are exactly
  those of the multiset of live peers, the next arrival gets a slot if and only if the
  total and its own address are below their caps, and both caps hold throughout.
\<close>

theorem slots_refine:
  assumes "leaves_live c {#} es"
  shows "\<exists>M. M = foldl (live_step c) {#} es \<and>
    foldl (conn_step c) \<lparr>active_conns = 0, per_ip_conns = Map.empty\<rparr> es = slots_of M \<and>
    (\<forall>ip. fst (acquire_conn_slot c ip (slots_of M)) \<longleftrightarrow>
       int (size M) < effective_max_connections c \<and> int (count M ip) < effective_max_connections_per_ip c) \<and>
    int (size M) \<le> effective_max_connections c \<and>
    (\<forall>ip \<in># M. int (count M ip) \<le> effective_max_connections_per_ip c)"
proof -
  have run: "foldl (conn_step c) (slots_of M) es = slots_of (foldl (live_step c) M es) \<and>
      within_caps c (foldl (live_step c) M es)" if "leaves_live c M es" "within_caps c M" for M
    using that
  proof (induction es arbitrary: M)
    case (Cons e es)
    have "conn_step c (slots_of M) e = slots_of (live_step c M e)"
      using Cons.prems by (cases e) (simp_all add: acquire_refines release_refines del: live_step.simps(1))
    with Cons.IH [of "live_step c M e"] Cons.prems live_step_caps show ?case by simp
  qed simp
  have "slots_of {#} = \<lparr>active_conns = 0, per_ip_conns = Map.empty\<rparr>" by (simp add: slots_of_def)
  moreover have "within_caps c {#}" by (simp add: within_caps_def effective_max_connections_def)
  ultimately show ?thesis using run [OF assms] by (auto simp: acquire_refines within_caps_def)
qed

theorem slots_refine_witness:
  "foldl (conn_step demo_listener) \<lparr>active_conns = 0, per_ip_conns = Map.empty\<rparr>
     [Arrives ''h'', Arrives ''h'', Leaves ''h''] = slots_of {#''h''#}"
proof -
  have caps: "effective_max_connections demo_listener = 100" "effective_max_connections_per_ip demo_listener = 16"
    by (simp_all add: effective_max_connections_def effective_max_connections_per_ip_def demo_listener_def)
  have "leaves_live demo_listener {#} [Arrives ''h'', Arrives ''h'', Leaves ''h'']" by (simp add: caps)
  from slots_refine [OF this] show ?thesis by (simp add: caps)
qed

end
