(* ===== verification/Gateway_Claims.thy ===== *)
theory Gateway_Claims
  imports Gateway SMTP_Claims
begin

text \<open>
  What the HTTP gateway guarantees: nothing happens before authentication, only checked and
  validated submissions reach the provider, a reply after a send accounts for the message, a
  silent rejection looks like a success, and what an idempotency key remembers.
\<close>

section \<open>Phases that leave the store and the provider alone\<close>

definition quiet :: "('c, 'i, 'r) world \<Rightarrow> ('c, 'i, 'r) world \<Rightarrow> bool" where
  "quiet w w' \<longleftrightarrow> w_net w' = w_net w \<and> w_gate w' = w_gate w"

lemma quiet_refl [simp]: "quiet w w"
  by (simp add: quiet_def)

lemma quiet_trans: "quiet w w1 \<Longrightarrow> quiet w1 w2 \<Longrightarrow> quiet w w2"
  by (simp add: quiet_def)

lemma tick_quiet: "quiet w (snd (tick G w))"
  by (simp add: quiet_def tick_def)

lemma auth_phase_quiet: "quiet w (snd (auth_phase G h rq w))"
  by (auto simp: auth_phase_def quiet_def tick_def Let_def split: option.splits prod.splits)

lemma idempotency_phase_quiet: "quiet w (snd (idempotency_phase G rq w))"
  by (auto simp: idempotency_phase_def quiet_def tick_def Let_def split: option.splits prod.splits)

lemma finalize_quiet: "quiet w (finalize_idempotent G key r w)"
  by (auto simp: finalize_idempotent_def quiet_def tick_def Let_def split: prod.splits)

lemma form_head_phase_quiet: "quiet w (snd (form_head_phase G h rq sid w))"
  by (auto simp: form_head_phase_def split: option.splits)

lemma rate_phase_quiet: "quiet w (snd (rate_phase G h rq key w))"
  by (auto simp: rate_phase_def quiet_def tick_def Let_def split: option.splits prod.splits)

lemma form_check_quiet:
  "c \<in> set (build_form_checks G h) \<Longrightarrow> quiet w (snd (c form ip w))"
  by (auto simp: build_form_checks_def honeypot_check_def csrf_check_def pob_check_def captcha_check_def
      reputation_check_def quiet_def tick_def Let_def case_prod_unfold split: if_splits option.splits)

lemma run_form_checks_quiet:
  assumes "\<And>c w. c \<in> set cs \<Longrightarrow> quiet w (snd (c form ip w))"
  shows "quiet w (snd (run_form_checks h rq sid form ip cs w))"
  using assms
proof (induction cs arbitrary: w)
  case (Cons c cs)
  obtain v w1 where c: "c form ip w = (v, w1)" by fastforce
  have "quiet w w1" using Cons.prems [of c w] c by simp
  moreover have "quiet w1 (snd (run_form_checks h rq sid form ip cs w1))" using Cons by simp
  ultimately show ?case using c by (auto split: option.splits intro: quiet_trans)
qed simp

lemma run_form_checks_pass:
  "run_form_checks h rq sid form ip cs w = (Inr u, w') \<Longrightarrow> c \<in> set cs \<Longrightarrow> \<exists>w1. \<not> v_blocked (fst (c form ip w1))"
proof (induction cs arbitrary: w)
  case (Cons d cs)
  obtain v w1 where d: "d form ip w = (v, w1)" by fastforce
  then have "\<not> v_blocked v" "run_form_checks h rq sid form ip cs w1 = (Inr u, w')"
    using Cons.prems(1) by (auto simp: apply_spam_verdict_def split: option.splits if_splits)
  then show ?case using Cons d by (cases "c = d") (auto intro: exI [of _ w])
qed simp

lemma proceed_cases:
  obtains (answered) r w1 where "f w = (Inl r, w1)" "proceed f k w = (r, w1)"
  | (passed) x w1 where "f w = (Inr x, w1)" "proceed f k w = k x w1"
  by (cases "f w"; cases "fst (f w)") (auto simp: proceed_def)

section \<open>An endpoint for the witnesses\<close>

definition demo_gw :: "((string, nat) list_lru, (string, cache_entry) list_lru idem_cache,
    (string, rep_result \<times> instant) list_lru, string, string) gw_env" where
  "demo_gw = \<lparr>g_clock = int, g_uuid = (\<lambda>n. replicate (Suc n) (CHR ''u'')), g_expires = (\<lambda>_ _. False),
     g_lru = list_lru, g_idem = cache_ops list_lru, g_rep_lru = list_lru, g_netip = demo_netip, g_mac = demo_mac,
     g_urls = \<lparr>parse_url = (\<lambda>s. Some (''https'', s)), url_lower = id\<rparr>, g_mail = (\<lambda>a. Some ([], a)), g_lower = id,
     g_sfs = (\<lambda>_ _ _. SfsFailed), g_turnstile = (\<lambda>_ _ _. CapFailed), g_templates = demo_template_lib,
     g_json = \<lparr>decode_json = (\<lambda>_ _. Inr (JObj [(''email'', JStr ''a@x'')], False)),
       attachments_of = (\<lambda>_. None), format_float = (\<lambda>_. []), quote = id\<rparr>,
     g_files = \<lparr>detect = (\<lambda>_. []), parse_media = (\<lambda>_. None), base64_std = (\<lambda>_. None), valid_utf8 = id, quote_type = id\<rparr>,
     g_parse_form = (\<lambda>_ rq. Inr ([(''email'', [''a@x'']), (''website'', [rq_body rq])], None)),
     g_encode = (\<lambda>_. ''ok'')\<rparr>"

definition demo_handler :: "string list \<Rightarrow> string handler" where
  "demo_handler keys = \<lparr>h_cfg = demo_endpoint\<lparr>ep_auth := (if keys = [] then [] else ''api-key''), ep_api_keys := keys,
       ep_honeypot := (if keys = [] then ''website'' else [])\<rparr>,
     h_renderer = demo_renderer, h_trusted = [], h_email_field = ''email'', h_max_body = 1000, h_log_failed = True,
     h_csrf_ttl = hour, h_attach = None, h_pob = None, h_captcha = None\<rparr>"

definition demo_world :: "((string, nat) list_lru, (string, cache_entry) list_lru idem_cache,
    (string, rep_result \<times> instant) list_lru) world" where
  "demo_world = \<lparr>w_limiter = None, w_auth_fail = None, w_idem = demo_cache, w_rep = None, w_gate = None,
     w_net = demo_net, w_ticks = 0, w_ids = 0, w_calls = 0\<rparr>"

definition demo_headers :: "string \<Rightarrow> string" where
  "demo_headers k =
     (if k = ''Content-Type'' then ''application/json'' else if k = ''Authorization'' then ''bearer k1''
      else if k = ''Idempotency-Key'' then ''order-7'' else [])"

definition demo_post :: request where
  "demo_post = \<lparr>rq_method = ''POST'', rq_header = demo_headers, rq_remote = ''192.0.2.1:9'', rq_body = []\<rparr>"

definition demo_sub_message :: "string \<Rightarrow> message" where
  "demo_sub_message sid = \<lparr>msg_from = ''f@x'', msg_to = [''a@x''], msg_reply_to = [], msg_subject = ''Hi'',
     msg_body_text = ''Hi'', msg_body_html = [], msg_submission_id = sid, msg_fields = [], msg_attachments = [],
     msg_headers = []\<rparr>"

definition demo_form_post :: "string \<Rightarrow> request" where
  "demo_form_post trap = \<lparr>rq_method = ''POST'',
     rq_header = (\<lambda>k. if k = ''Content-Type'' then ''application/x-www-form-urlencoded'' else []),
     rq_remote = ''192.0.2.1:9'', rq_body = trap\<rparr>"

section \<open>Authentication comes first\<close>

lemma last_match:
  "foldl (\<lambda>m k. if t = k then k else m) m0 keys = (if t \<in> set keys then t else m0)"
  by (induction keys arbitrary: m0) auto

lemma authenticate_iff:
  "authenticate_api_request keys hdr = Some k \<longleftrightarrow>
   k \<in> set keys \<and> k \<noteq> [] \<and> (\<exists>scheme. hdr = scheme @ k \<and> length scheme = 7 \<and> equal_fold scheme ''Bearer '')"
proof
  assume a: "authenticate_api_request keys hdr = Some k"
  then have "\<not> length hdr \<le> 7" "equal_fold (take 7 hdr) ''Bearer ''"
    by (auto simp: authenticate_api_request_def split: if_splits)
  moreover from a have "k = drop 7 hdr" "k \<in> set keys" "k \<noteq> []"
    by (auto simp: authenticate_api_request_def last_match Let_def split: if_splits)
  ultimately show "k \<in> set keys \<and> k \<noteq> [] \<and> (\<exists>scheme. hdr = scheme @ k \<and> length scheme = 7 \<and> equal_fold scheme ''Bearer '')"
    by (metis append_take_drop_id length_take min.absorb4 not_le_imp_less order_less_imp_le min_def)
next
  assume "k \<in> set keys \<and> k \<noteq> [] \<and> (\<exists>scheme. hdr = scheme @ k \<and> length scheme = 7 \<and> equal_fold scheme ''Bearer '')"
  then show "authenticate_api_request keys hdr = Some k"
    by (auto simp: authenticate_api_request_def last_match Let_def)
qed

text \<open>
  C7: authentication comes first. On an api-key endpoint a POST authenticates exactly with
  \<open>Bearer\<close> (in any case) and one of the configured keys. Without that the answer is 401, or
  429 once the client's failure budget is spent, and nothing else has happened: apart from
  the failure budget, the clock and the id counter, the state is as before, so no
  idempotency key is looked up or claimed, no rate-limit token taken, nothing stored, sent
  or asked of a provider.
\<close>

theorem auth_first:
  assumes "api_mode h" "rq_method rq = ''POST''"
  shows "(\<forall>k. authenticate_api_request (ep_api_keys (h_cfg h)) (rq_header rq ''Authorization'') = Some k \<longleftrightarrow>
      k \<in> set (ep_api_keys (h_cfg h)) \<and> k \<noteq> [] \<and>
      (\<exists>scheme. rq_header rq ''Authorization'' = scheme @ k \<and> length scheme = 7 \<and> equal_fold scheme ''Bearer '')) \<and>
    (authenticate_api_request (ep_api_keys (h_cfg h)) (rq_header rq ''Authorization'') = None \<longrightarrow>
      (\<exists>r l t. serve_http G h rq w = (r, w\<lparr>w_ids := Suc (w_ids w), w_ticks := t, w_auth_fail := l\<rparr>) \<and>
        rp_status r \<in> {401, 429}))"
proof (intro conjI allI impI)
  fix k
  show "authenticate_api_request (ep_api_keys (h_cfg h)) (rq_header rq ''Authorization'') = Some k \<longleftrightarrow>
      k \<in> set (ep_api_keys (h_cfg h)) \<and> k \<noteq> [] \<and>
      (\<exists>scheme. rq_header rq ''Authorization'' = scheme @ k \<and> length scheme = 7 \<and> equal_fold scheme ''Bearer '')"
    by (rule authenticate_iff)
next
  assume none: "authenticate_api_request (ep_api_keys (h_cfg h)) (rq_header rq ''Authorization'') = None"
  let ?w1 = "w\<lparr>w_ids := Suc (w_ids w)\<rparr>"
  have "\<exists>r l t. auth_phase G h rq ?w1 = (Inl r, w\<lparr>w_ids := Suc (w_ids w), w_ticks := t, w_auth_fail := l\<rparr>) \<and>
      rp_status r \<in> {401, 429}"
  proof (cases "w_auth_fail w")
    case None
    then show ?thesis using none
      by (intro exI [of _ "http_error ''unauthorized'' 401"] exI [of _ None] exI [of _ "w_ticks w"])
        (simp add: auth_phase_def http_error_def)
  next
    case (Some l)
    obtain ok l1 where "allow_at (g_lru G) l (client_of G h rq) (g_clock G (w_ticks w)) = (ok, l1)" by fastforce
    then show ?thesis using none Some
      by (cases ok) (auto simp: auth_phase_def http_error_def tick_def)
  qed
  then obtain r l t where a: "auth_phase G h rq ?w1 = (Inl r, w\<lparr>w_ids := Suc (w_ids w), w_ticks := t, w_auth_fail := l\<rparr>)"
    "rp_status r \<in> {401, 429}" by blast
  then have "serve_http G h rq w = (r, w\<lparr>w_ids := Suc (w_ids w), w_ticks := t, w_auth_fail := l\<rparr>)"
    using assms by (simp add: serve_http_def Let_def proceed_def split: option.split)
  with a(2) show "\<exists>r l t. serve_http G h rq w = (r, w\<lparr>w_ids := Suc (w_ids w), w_ticks := t, w_auth_fail := l\<rparr>) \<and>
      rp_status r \<in> {401, 429}" by blast
qed

theorem auth_first_witness:
  "\<exists>r l t. serve_http demo_gw (demo_handler [''k2'']) demo_post demo_world =
     (r, demo_world\<lparr>w_ids := Suc (w_ids demo_world), w_ticks := t, w_auth_fail := l\<rparr>) \<and> rp_status r \<in> {401, 429}"
proof -
  have "api_mode (demo_handler [''k2''])" "rq_method demo_post = ''POST''" by code_simp+
  moreover have "authenticate_api_request (ep_api_keys (h_cfg (demo_handler [''k2''])))
    (rq_header demo_post ''Authorization'') = None" by code_simp
  ultimately show ?thesis using auth_first [of "demo_handler [''k2'']" demo_post demo_gw demo_world] by blast
qed

section \<open>What a reply after a send promises\<close>

definition delivered_codes :: "int set" where
  "delivered_codes = {200, 202, 303}"

text \<open>The message is accounted for, or it was neither accepted nor queued.\<close>

definition http_accounted :: "string list \<Rightarrow> string \<Rightarrow> reply \<Rightarrow> ('c, 'i, 'r) world \<Rightarrow> ('c, 'i, 'r) world \<Rightarrow> bool" where
  "http_accounted remaining sid r w w' \<longleftrightarrow>
     (if rp_status r \<in> delivered_codes
      then remaining = [] \<and> handed (w_net w') = handed (w_net w) \<or> accepted (w_net w) (w_net w') \<or>
        sid \<in> set (map q_id (gate_queue (w_gate w')))
      else rp_status r = 502 \<and> \<not> accepted (w_net w) (w_net w') \<and> gate_queue (w_gate w') = gate_queue (w_gate w))"

lemma success_code: "rp_status (write_success_response h rq b) \<in> delivered_codes"
  by (simp add: write_success_response_def redirect_def write_json_def delivered_codes_def)

lemma gw_record_effect:
  assumes "gw_record_submission G h rq m w = (pq, w1)"
  shows "gate_queue (w_gate w1) = gate_queue (w_gate w)" "w_net w1 = w_net w" "w_ids w1 = w_ids w"
  using assms try_store_queue [of "record_submission (gw_row G h rq m StSending (g_clock G (w_ticks w)))" "w_gate w"]
  by (auto simp: gw_record_submission_def tick_def Let_def split: if_splits prod.splits)

lemma gw_send_failed_effect:
  "let (r, w1) = gw_send_failed G h rq sid p q err w in w_net w1 = w_net w \<and>
     (rp_status r \<in> delivered_codes \<and> sid \<in> set (map q_id (gate_queue (w_gate w1))) \<or>
      rp_status r = 502 \<and> gate_queue (w_gate w1) = gate_queue (w_gate w))"
proof -
  obtain ok g where t: "try_store (enqueue sid (g_clock G (w_ticks w))) (w_gate w) = (ok, g)" by fastforce
  note en = try_enqueue [OF t]
  have fail: "gate_queue (snd (try_store (mark_status sid StFailed e) go)) = gate_queue go" for e go
    by (rule try_store_queue) (rule mark_status_queue)
  have code: "rp_status (write_json 202 b) \<in> delivered_codes" for b by (simp add: write_json_def delivered_codes_def)
  show ?thesis
    using t en fail code success_code [of h rq]
    by (cases "q \<and> is_retryable err"; cases ok; cases p) (auto simp: gw_send_failed_def tick_def Let_def http_error_def)
qed

lemma gw_sent_effect:
  "let (r, w1) = gw_sent G h rq sid p mid gone w in w_net w1 = w_net w \<and> rp_status r \<in> delivered_codes"
  by (auto simp: gw_sent_def tick_def Let_def success_code)

lemma gw_send_failed_net: "gw_send_failed G h rq sid p q err w = (r, w1) \<Longrightarrow> w_net w1 = w_net w"
  using gw_send_failed_effect [of G h rq sid p q err w] by simp

lemma gw_sent_net: "gw_sent G h rq sid p mid gone w = (r, w1) \<Longrightarrow> w_net w1 = w_net w"
  using gw_sent_effect [of G h rq sid p mid gone w] by simp

lemma not_delivered_502: "(502 :: int) \<notin> delivered_codes"
  by (simp add: delivered_codes_def)

text \<open>
  C6: what a reply after a send promises. Delivering a message answers with a success (200,
  202, or the 303 of a configured redirect) or with 502. A success means the message is
  accounted for: all its recipients were suppressed and nothing was sent, or the provider
  accepted it, or it is in the retry queue under the submission id. A 502 means the provider
  did not accept it and the retry queue is as it was.
\<close>

theorem http_reply_accounts:
  assumes "deliver_http G h rq m w = (r, w')"
  shows "if rp_status r \<in> {200, 202, 303}
    then fst (filter_suppressed (g_lower G) (msg_to m) (w_gate w)) = [] \<and> handed (w_net w') = handed (w_net w) \<or>
      accepted (w_net w) (w_net w') \<or> msg_submission_id m \<in> set (map q_id (gate_queue (w_gate w')))
    else rp_status r = 502 \<and> \<not> accepted (w_net w) (w_net w') \<and> gate_queue (w_gate w') = gate_queue (w_gate w)"
proof -
  let ?sid = "msg_submission_id m"
  obtain rs ss g where f: "filter_suppressed (g_lower G) (msg_to m) (w_gate w) = (rs, ss, g)"
    by (cases "filter_suppressed (g_lower G) (msg_to m) (w_gate w)") auto
  let ?m = "m\<lparr>msg_to := rs\<rparr>" and ?w1 = "w\<lparr>w_gate := g\<rparr>"
  have "http_accounted rs ?sid r w w'"
  proof (cases "rs = []")
    case True
    have "w_net (record_suppressed_submission G h rq ?m ?w1) = w_net w"
      by (auto simp: record_suppressed_submission_def tick_def Let_def)
    with True assms f show ?thesis
      by (auto simp: deliver_http_def Let_def http_accounted_def success_code)
  next
    case False
    obtain p q w2 where rc: "gw_record_submission G h rq ?m ?w1 = ((p, q), w2)"
      by (metis prod.exhaust)
    note recd = gw_record_effect [OF rc]
    obtain oc n where n: "send_with_retry (g_expires G (w_ids w)) ?m (w_net w) = (oc, n)" by fastforce
    note acc = send_outcome [OF n]
    have gq: "gate_queue (w_gate w2) = gate_queue (w_gate w)"
      using recd(1) filter_suppressed_queue [OF f] by simp
    have d: "deliver_http G h rq m w = (case oc of Inl err \<Rightarrow> gw_send_failed G h rq ?sid p q err (w2\<lparr>w_net := n\<rparr>)
        | Inr mid \<Rightarrow> gw_sent G h rq ?sid p mid ss (w2\<lparr>w_net := n\<rparr>))"
      using False f rc n recd(2) by (simp add: deliver_http_def Let_def)
    show ?thesis
    proof (cases oc)
      case (Inl err)
      then show ?thesis
        using d assms acc gq not_delivered_502 gw_send_failed_effect [of G h rq ?sid p q err "w2\<lparr>w_net := n\<rparr>"]
        by (auto simp: http_accounted_def)
    next
      case (Inr mid)
      then show ?thesis
        using d assms acc gw_sent_effect [of G h rq ?sid p mid ss "w2\<lparr>w_net := n\<rparr>"]
        by (auto simp: http_accounted_def)
    qed
  qed
  then show ?thesis unfolding http_accounted_def delivered_codes_def f fst_conv .
qed

theorem http_reply_accounts_witness:
  "accepted (w_net demo_world) (w_net (snd (deliver_http demo_gw (demo_handler []) (demo_form_post [])
     (demo_sub_message []) demo_world)))"
proof -
  let ?d = "deliver_http demo_gw (demo_handler []) (demo_form_post []) (demo_sub_message []) demo_world"
  have "rp_status (fst ?d) = 200" "gate_queue (w_gate (snd ?d)) = []"
    "fst (filter_suppressed (g_lower demo_gw) (msg_to (demo_sub_message [])) (w_gate demo_world)) = [''a@x'']"
    by code_simp+
  with http_reply_accounts [of demo_gw "demo_handler []" "demo_form_post []" "demo_sub_message []" demo_world "fst ?d" "snd ?d"]
  show ?thesis by simp
qed

section \<open>Only checked submissions are sent\<close>

text \<open>What \<open>submit\<close> may hand to the provider.\<close>

lemma deliver_http_handed:
  assumes "deliver_http G h rq m w = (r, w')"
  shows "handed (w_net w') = handed (w_net w) \<or>
    (\<exists>rs. rs \<noteq> [] \<and> set rs \<subseteq> set (msg_to m) \<and>
      (handed (w_net w') = handed (w_net w) @ [m\<lparr>msg_to := rs\<rparr>] \<or>
       handed (w_net w') = handed (w_net w) @ [m\<lparr>msg_to := rs\<rparr>, m\<lparr>msg_to := rs\<rparr>]))"
proof -
  obtain rs ss g where f: "filter_suppressed (g_lower G) (msg_to m) (w_gate w) = (rs, ss, g)"
    by (cases "filter_suppressed (g_lower G) (msg_to m) (w_gate w)") auto
  let ?m = "m\<lparr>msg_to := rs\<rparr>" and ?w1 = "w\<lparr>w_gate := g\<rparr>"
  show ?thesis
  proof (cases "rs = []")
    case True
    have "w_net (record_suppressed_submission G h rq ?m ?w1) = w_net w"
      by (auto simp: record_suppressed_submission_def tick_def Let_def)
    with True assms f show ?thesis by (auto simp: deliver_http_def Let_def)
  next
    case False
    obtain p q w2 where rc: "gw_record_submission G h rq ?m ?w1 = ((p, q), w2)"
      by (metis prod.exhaust)
    obtain oc n where n: "send_with_retry (g_expires G (w_ids w)) ?m (w_net w) = (oc, n)" by fastforce
    have "w_net w' = n"
      using assms False f rc n gw_record_effect(2) [OF rc]
      by (cases oc) (auto simp: deliver_http_def Let_def dest: gw_send_failed_net gw_sent_net)
    with send_with_retry_handed [of "g_expires G (w_ids w)" ?m "w_net w"] n False filter_suppressed_subset [OF f]
    show ?thesis by auto
  qed
qed

definition from_form :: "('c, 'i, 'r, 'a, 'p) gw_env \<Rightarrow> 'p handler \<Rightarrow> form \<Rightarrow> attachment list \<Rightarrow> message \<Rightarrow> bool" where
  "from_form G h form atts m \<longleftrightarrow>
     required_fields form (ep_required (h_cfg h)) = [] \<and> \<not> ep_dry_run (h_cfg h) \<and>
     msg_from m = ep_from (h_cfg h) \<and> msg_to m \<noteq> [] \<and> msg_headers m = [] \<and> msg_attachments m = atts \<and>
     (set (msg_to m) \<subseteq> set (ep_to (h_cfg h)) \<or>
      api_mode h \<and> map_of form to_override_field \<noteq> None \<and> list_all (email_ok (g_mail G)) (msg_to m))"

lemma recipients_phase_ok:
  assumes "recipients_phase G h form = Inr to"
  shows "to = ep_to (h_cfg h) \<or>
    api_mode h \<and> map_of form to_override_field \<noteq> None \<and> list_all (email_ok (g_mail G)) to"
  using assms by (auto simp: recipients_phase_def Let_def list_ex_iff list_all_iff split: if_splits option.splits)

lemma submit_handed:
  assumes "submit G h rq sid form atts w = (r, w')"
  shows "handed (w_net w') = handed (w_net w) \<or>
    (\<exists>m. from_form G h form atts m \<and>
      (handed (w_net w') = handed (w_net w) @ [m] \<or> handed (w_net w') = handed (w_net w) @ [m, m]))"
proof (cases "\<exists>parts to. validate_submission G h rq form = None \<and> render_phase G h form = Inr parts \<and>
    recipients_phase G h form = Inr to \<and> \<not> ep_dry_run (h_cfg h)")
  case True
  then obtain parts to where p: "validate_submission G h rq form = None" "render_phase G h form = Inr parts"
    "recipients_phase G h form = Inr to" "\<not> ep_dry_run (h_cfg h)" by blast
  let ?m = "build_message G h form atts sid parts to"
  have d: "deliver_http G h rq ?m w = (r, w')" using assms p by (simp add: submit_def Let_def)
  have req: "required_fields form (ep_required (h_cfg h)) = []"
    using p(1) by (auto simp: validate_submission_def Let_def split: if_splits)
  have "from_form G h form atts (?m\<lparr>msg_to := rs\<rparr>)" if "rs \<noteq> []" "set rs \<subseteq> set (msg_to ?m)" for rs
    using that p(4) req recipients_phase_ok [OF p(3)]
    by (auto simp: from_form_def build_message_def list_all_iff split: prod.splits)
  with deliver_http_handed [OF d] show ?thesis by blast
next
  case False
  then have "w' = w" using assms
    by (auto simp: submit_def Let_def split: option.splits sum.splits if_splits)
  then show ?thesis by simp
qed

text \<open>The attachments of a parsed body passed the endpoint's policy.\<close>

definition vetted :: "('c, 'i, 'r, 'a, 'p) gw_env \<Rightarrow> 'p handler \<Rightarrow> attachment list \<Rightarrow> bool" where
  "vetted G h atts \<longleftrightarrow> atts = [] \<or> (\<exists>p. h_attach h = Some p \<and> int (length atts) \<le> ap_max_count p \<and>
     sum_list (map (\<lambda>a. int (length (att_data a))) atts) \<le> ap_max_total p \<and>
     list_all (\<lambda>a. att_content_type a = sniff_type (g_files G) (att_data a) \<and> permitted p (att_content_type a)) atts)"

lemma vet_ok:
  assumes "vet F p files = Inr out"
  shows "int (length out) \<le> ap_max_count p \<and> sum_list (map (\<lambda>a. int (length (att_data a))) out) \<le> ap_max_total p \<and>
    list_all (\<lambda>a. att_content_type a = sniff_type F (att_data a) \<and> permitted p (att_content_type a)) out"
  using assms by (auto simp: vet_def Let_def filter_empty_conv list_all_iff comp_def split: if_splits)

lemma vet_attachments_ok: "vet_attachments G h rq p cs = Inr out \<Longrightarrow> h_attach h = Some p \<Longrightarrow> vetted G h out"
  using vet_ok [of "g_files G" p cs out] by (auto simp: vet_attachments_def vetted_def split: sum.splits)

lemma api_body_vetted: "api_body_phase G h rq = Inr (form, atts) \<Longrightarrow> vetted G h atts"
  by (auto simp: api_body_phase_def map_sum_def vetted_def split: if_splits sum.splits prod.splits option.splits
      dest!: vet_attachments_ok [unfolded vetted_def])

lemma form_body_vetted: "form_body_phase G h rq = Inr (form, atts) \<Longrightarrow> vetted G h atts"
  by (auto simp: form_body_phase_def map_sum_def vetted_def split: sum.splits prod.splits option.splits body_error.splits
      dest!: vet_attachments_ok [unfolded vetted_def])

lemma proceed_SomeE:
  assumes "proceed f k w = (r, w')"
  obtains (answered) "f w = (Inl r, w')" | (passed) x w1 where "f w = (Inr x, w1)" "k x w1 = (r, w')"
proof (cases "f w")
  case (Pair y w1)
  then show ?thesis using assms that by (cases y) (auto simp: proceed_def)
qed

text \<open>What the checks of a form-mode request established.\<close>

definition form_checks_passed :: "('c, 'i, 'r, 'a, 'p) gw_env \<Rightarrow> 'p handler \<Rightarrow> request \<Rightarrow> form \<Rightarrow> bool" where
  "form_checks_passed G h rq form \<longleftrightarrow>
     (ep_honeypot (h_cfg h) \<noteq> [] \<longrightarrow> check_honeypot form (ep_honeypot (h_cfg h)) \<noteq> SilentReject) \<and>
     (\<forall>os. ep_allowed_origins (h_cfg h) = Some os \<longrightarrow>
        fst (check_origin (g_urls G) (rq_header rq ''Origin'') (rq_header rq ''Referer'') os) \<noteq> HardReject) \<and>
     (ep_csrf_secret (h_cfg h) \<noteq> [] \<longrightarrow>
        (\<exists>t. csrf_verify (g_mac G) (form_get form csrf_token_field) (ep_csrf_secret (h_cfg h)) (h_csrf_ttl h) t = None)) \<and>
     (\<forall>p. h_pob h = Some p \<longrightarrow> (\<exists>t. pob_verify (g_mac G) p (form_get form pob_token_field) t = None))"

lemma blocks_blocked [simp]: "v_blocked (blocks k)" "\<not> v_blocked passes"
  by (simp_all add: blocks_def passes_def)

lemma header_checks_passed:
  assumes "run_header_checks h rq sid (build_header_checks G (h_cfg h)) = None" "ep_allowed_origins (h_cfg h) = Some os"
  shows "fst (check_origin (g_urls G) (rq_header rq ''Origin'') (rq_header rq ''Referer'') os) \<noteq> HardReject"
proof (cases os)
  case Nil
  then show ?thesis by (simp add: check_origin_def)
next
  case (Cons o1 os')
  then show ?thesis using assms
    by (auto simp: build_header_checks_def apply_spam_verdict_def blocks_def passes_def split: option.splits if_splits)
qed

lemma build_form_checks_passed:
  assumes "\<forall>c \<in> set (build_form_checks G h). \<exists>w1. \<not> v_blocked (fst (c form ip w1))"
    "run_header_checks h rq sid (build_header_checks G (h_cfg h)) = None"
  shows "form_checks_passed G h rq form"
  unfolding form_checks_passed_def
proof (intro conjI impI allI)
  assume "ep_honeypot (h_cfg h) \<noteq> []"
  then have "honeypot_check (ep_honeypot (h_cfg h)) \<in> set (build_form_checks G h)" by (simp add: build_form_checks_def Let_def)
  with assms(1) show "check_honeypot form (ep_honeypot (h_cfg h)) \<noteq> SilentReject"
    by (fastforce simp: honeypot_check_def split: if_splits)
next
  assume "ep_csrf_secret (h_cfg h) \<noteq> []"
  then have "csrf_check G (ep_csrf_secret (h_cfg h)) (h_csrf_ttl h) \<in> set (build_form_checks G h)" by (simp add: build_form_checks_def Let_def)
  with assms(1) obtain w1 where "\<not> v_blocked (fst (csrf_check G (ep_csrf_secret (h_cfg h)) (h_csrf_ttl h) form ip w1))" by blast
  then show "\<exists>t. csrf_verify (g_mac G) (form_get form csrf_token_field) (ep_csrf_secret (h_cfg h)) (h_csrf_ttl h) t = None"
    by (auto simp: csrf_check_def tick_def split: if_splits)
next
  fix p assume "h_pob h = Some p"
  then have "pob_check G p \<in> set (build_form_checks G h)" by (simp add: build_form_checks_def Let_def)
  with assms(1) obtain w1 where "\<not> v_blocked (fst (pob_check G p form ip w1))" by blast
  then show "\<exists>t. pob_verify (g_mac G) p (form_get form pob_token_field) t = None"
    by (auto simp: pob_check_def tick_def split: if_splits)
next
  fix os assume "ep_allowed_origins (h_cfg h) = Some os"
  with header_checks_passed [OF assms(2)] show
    "fst (check_origin (g_urls G) (rq_header rq ''Origin'') (rq_header rq ''Referer'') os) \<noteq> HardReject" .
qed

text \<open>A send of one message built from a checked form.\<close>

definition sends :: "('c, 'i, 'r, 'a, 'p) gw_env \<Rightarrow> 'p handler \<Rightarrow> request \<Rightarrow> ('c, 'i, 'r) world \<Rightarrow> ('c, 'i, 'r) world \<Rightarrow> bool" where
  "sends G h rq w w' \<longleftrightarrow> handed (w_net w') = handed (w_net w) \<or>
     (\<exists>form atts m. from_form G h form atts m \<and> vetted G h atts \<and> (api_mode h \<or> form_checks_passed G h rq form) \<and>
        (handed (w_net w') = handed (w_net w) @ [m] \<or> handed (w_net w') = handed (w_net w) @ [m, m]))"

lemma sends_quiet: "quiet w w1 \<Longrightarrow> sends G h rq w1 w' \<Longrightarrow> sends G h rq w w'"
  by (simp add: quiet_def sends_def)

lemma sends_then_quiet: "sends G h rq w w1 \<Longrightarrow> quiet w1 w' \<Longrightarrow> sends G h rq w w'"
  by (simp add: quiet_def sends_def)

lemma sends_same: "quiet w w' \<Longrightarrow> sends G h rq w w'"
  by (simp add: quiet_def sends_def)

lemma serve_api_sends:
  assumes "serve_api G h rq sid key w = (r, w')" "api_mode h"
  shows "sends G h rq w w'"
  using assms(1) unfolding serve_api_def
proof (cases rule: proceed_SomeE)
  case answered
  then show ?thesis using rate_phase_quiet [of w G h rq key] by (auto intro: sends_same)
next
  case (passed u w1)
  have q: "quiet w w1" using rate_phase_quiet [of w G h rq key] passed(1) by simp
  from passed(2) show ?thesis
  proof (cases rule: proceed_SomeE)
    case answered
    then show ?thesis using q by (auto intro: sends_same)
  next
    case p2: (passed fa w2)
    obtain form atts where fa: "fa = (form, atts)" by fastforce
    have "api_body_phase G h rq = Inr (form, atts)" "w2 = w1" using p2(1) fa by auto
    moreover have "submit G h rq sid form atts w1 = (r, w')" using p2 fa by auto
    ultimately have "sends G h rq w1 w'"
      using submit_handed [of G h rq sid form atts w1 r w'] api_body_vetted [of G h rq form atts] assms(2)
      unfolding sends_def by blast
    with q show ?thesis by (rule sends_quiet)
  qed
qed

lemma serve_form_sends:
  assumes "serve_form G h rq sid w = (r, w')"
  shows "sends G h rq w w'"
  using assms unfolding serve_form_def
proof (cases rule: proceed_SomeE)
  case answered
  then show ?thesis using form_head_phase_quiet [of w G h rq sid] by (auto intro: sends_same)
next
  case head: (passed ip w1)
  have q1: "quiet w w1" using form_head_phase_quiet [of w G h rq sid] head(1) by simp
  have hd: "run_header_checks h rq sid (build_header_checks G (h_cfg h)) = None"
    using head(1) by (auto simp: form_head_phase_def split: if_splits option.splits)
  from head(2) have "sends G h rq w1 w'"
  proof (cases rule: proceed_SomeE)
    case answered
    then show ?thesis using rate_phase_quiet [of w1 G h rq ip] by (auto intro: sends_same)
  next
    case rate: (passed u w2)
    have q2: "quiet w1 w2" using rate_phase_quiet [of w1 G h rq ip] rate(1) by simp
    from rate(2) have "sends G h rq w2 w'"
    proof (cases rule: proceed_SomeE)
      case answered
      then show ?thesis by (auto intro: sends_same)
    next
      case body: (passed fa w3)
      obtain form atts where fa: "fa = (form, atts)" by fastforce
      have b: "form_body_phase G h rq = Inr (form, atts)" "w3 = w2" using body(1) fa by auto
      have "proceed (run_form_checks h rq sid form ip (build_form_checks G h)) (\<lambda>_. submit G h rq sid form atts) w2 = (r, w')"
        using body(2) fa b(2) by simp
      then show ?thesis
      proof (cases rule: proceed_SomeE)
        case answered
        then show ?thesis using run_form_checks_quiet [of "build_form_checks G h" form ip w2 h rq sid] form_check_quiet
          by (metis sends_same snd_conv)
      next
        case checks: (passed u' w4)
        have q4: "quiet w2 w4" using run_form_checks_quiet [of "build_form_checks G h" form ip w2 h rq sid] form_check_quiet checks(1)
          by (metis snd_conv)
        have "form_checks_passed G h rq form"
          using build_form_checks_passed [OF _ hd] run_form_checks_pass [OF checks(1)] by blast
        then have "sends G h rq w4 w'"
          using submit_handed [OF checks(2)] form_body_vetted [OF b(1)] unfolding sends_def by blast
        with q4 show ?thesis by (rule sends_quiet)
      qed
    qed
    with q2 show ?thesis by (rule sends_quiet)
  qed
  with q1 show ?thesis by (rule sends_quiet)
qed

lemma other_method_quiet:
  assumes "serve_http G h rq w = (r, w')" "rq_method rq \<noteq> ''POST''"
  shows "quiet w w'"
proof (cases "rq_method rq = ''GET'' \<and> h_pob h \<noteq> None")
  case True
  have "quiet v (snd (serve_challenge G h p rq v))" for v p
    by (auto simp: serve_challenge_def quiet_def tick_def Let_def)
  moreover from True obtain p where "serve_challenge G h p rq (w\<lparr>w_ids := Suc (w_ids w)\<rparr>) = (r, w')"
    using assms(1) by (auto simp: serve_http_def Let_def)
  ultimately have "quiet (w\<lparr>w_ids := Suc (w_ids w)\<rparr>) w'" by (metis snd_conv)
  then show ?thesis by (simp add: quiet_def)
next
  case False
  then have "w' = w\<lparr>w_ids := Suc (w_ids w)\<rparr>"
    using assms by (auto simp: serve_http_def Let_def split: option.splits bool.splits)
  then show ?thesis by (simp add: quiet_def)
qed

text \<open>An authenticated request from its idempotency key on.\<close>

lemma serve_claimed_sends:
  assumes "proceed (idempotency_phase G rq) (\<lambda>claim w2.
      case claim of None \<Rightarrow> serve_api G h rq sid key w2
      | Some k \<Rightarrow> (case serve_api G h rq sid key w2 of (r, w3) \<Rightarrow> (r, finalize_idempotent G k r w3))) w = (r, w')"
    and "api_mode h"
  shows "sends G h rq w w'"
  using assms(1)
proof (cases rule: proceed_SomeE)
  case answered
  then show ?thesis using idempotency_phase_quiet [of w G rq] by (auto intro: sends_same)
next
  case claimed: (passed claim w3)
  have q3: "quiet w w3" using idempotency_phase_quiet [of w G rq] claimed(1) by simp
  obtain r4 w4 where s: "serve_api G h rq sid key w3 = (r4, w4)" by fastforce
  have "sends G h rq w3 w4" by (rule serve_api_sends [OF s assms(2)])
  then have "sends G h rq w3 w'"
    using claimed(2) s by (cases claim) (auto intro: sends_then_quiet [OF _ finalize_quiet])
  with q3 show ?thesis by (rule sends_quiet)
qed



section \<open>The honeypot\<close>

text \<open>
  C9: a caught bot cannot tell. When a form-mode POST that passed the header checks and the
  rate limit has filled in the honeypot, the reply is the one a delivered submission with
  the same \<open>Accept\<close> header gets, whatever the other checks would say; nothing is stored or
  sent and no spam provider is asked.
\<close>

theorem honeypot_silent:
  assumes "rq_method rq = ''POST''" "\<not> api_mode h" "is_form_content_type (rq_header rq ''Content-Type'')"
    and "run_header_checks h rq (g_uuid G (w_ids w)) (build_header_checks G (h_cfg h)) = None"
    and "rate_phase G h rq (client_of G h rq) (w\<lparr>w_ids := Suc (w_ids w)\<rparr>) = (Inr (), w1)"
    and "form_body_phase G h rq = Inr (form, atts)"
    and "ep_honeypot (h_cfg h) \<noteq> []" "check_honeypot form (ep_honeypot (h_cfg h)) = SilentReject"
    and "rq_header rq' ''Accept'' = rq_header rq ''Accept''"
  shows "serve_http G h rq w = (fst (gw_sent G h rq' (g_uuid G (w_ids w)) persisted mid [] v), w1) \<and>
    w_net w1 = w_net w \<and> w_gate w1 = w_gate w \<and> w_rep w1 = w_rep w \<and> w_calls w1 = w_calls w"
proof -
  let ?w0 = "w\<lparr>w_ids := Suc (w_ids w)\<rparr>" and ?sid = "g_uuid G (w_ids w)"
  have same: "w_rep w1 = w_rep w \<and> w_calls w1 = w_calls w \<and> w_net w1 = w_net w \<and> w_gate w1 = w_gate w"
    using assms(5) by (auto simp: rate_phase_def tick_def Let_def split: option.splits prod.splits if_splits)
  obtain cs where cs: "build_form_checks G h = honeypot_check (ep_honeypot (h_cfg h)) # cs"
    using assms(7) by (simp add: build_form_checks_def Let_def)
  have "serve_http G h rq w = serve_form G h rq ?sid ?w0"
    using assms(1,2) by (simp add: serve_http_def Let_def split: option.splits)
  also have "\<dots> = (write_success_response h rq (SuccessJson ''ok'' ?sid []), w1)"
    using assms(3-6,8)
    by (simp add: serve_form_def proceed_def form_head_phase_def cs honeypot_check_def apply_spam_verdict_def blocks_def)
  finally show ?thesis using same assms(9) by (simp add: gw_sent_def write_success_response_def)
qed

theorem honeypot_silent_witness:
  "fst (serve_http demo_gw (demo_handler []) (demo_form_post ''x'') demo_world) =
   fst (gw_sent demo_gw (demo_handler []) (demo_form_post []) (g_uuid demo_gw (w_ids demo_world)) True ''mid'' [] demo_world)"
proof -
  have pre: "rq_method (demo_form_post ''x'') = ''POST''" "\<not> api_mode (demo_handler [])"
    "is_form_content_type (rq_header (demo_form_post ''x'') ''Content-Type'')"
    "ep_honeypot (h_cfg (demo_handler [])) \<noteq> []"
    "check_honeypot [(''email'', [''a@x'']), (''website'', [''x''])] (ep_honeypot (h_cfg (demo_handler []))) = SilentReject"
    "rq_header (demo_form_post []) ''Accept'' = rq_header (demo_form_post ''x'') ''Accept''"
    by code_simp+
  have head: "run_header_checks (demo_handler []) (demo_form_post ''x'') (g_uuid demo_gw (w_ids demo_world))
      (build_header_checks demo_gw (h_cfg (demo_handler []))) = None"
    by (simp add: build_header_checks_def demo_handler_def demo_endpoint_def)
  have body: "form_body_phase demo_gw (demo_handler []) (demo_form_post ''x'') =
      Inr ([(''email'', [''a@x'']), (''website'', [''x''])], [])"
    by (simp add: form_body_phase_def demo_gw_def demo_handler_def demo_form_post_def)
  have "rate_phase demo_gw (demo_handler []) (demo_form_post ''x'') (client_of demo_gw (demo_handler []) (demo_form_post ''x''))
      (demo_world\<lparr>w_ids := Suc (w_ids demo_world)\<rparr>) = (Inr (), demo_world\<lparr>w_ids := Suc (w_ids demo_world)\<rparr>)"
    by (simp add: rate_phase_def demo_world_def)
  with honeypot_silent [OF pre(1-3) head this body pre(4-6), of True "''mid''" demo_world] show ?thesis by simp
qed

section \<open>What an idempotency key remembers\<close>

lemma gw_record_idem: "gw_record_submission G h rq m w = (pq, w1) \<Longrightarrow> w_idem w1 = w_idem w"
  by (auto simp: gw_record_submission_def tick_def Let_def split: if_splits prod.splits)

lemma gw_send_failed_idem: "w_idem (snd (gw_send_failed G h rq sid p q err w)) = w_idem w"
  by (auto simp: gw_send_failed_def tick_def Let_def split: prod.splits if_splits)

lemma gw_sent_idem: "w_idem (snd (gw_sent G h rq sid p mid gone w)) = w_idem w"
  by (auto simp: gw_sent_def tick_def Let_def)

lemma deliver_http_idem: "w_idem (snd (deliver_http G h rq m w)) = w_idem w"
proof -
  obtain rs ss g where f: "filter_suppressed (g_lower G) (msg_to m) (w_gate w) = (rs, ss, g)"
    by (cases "filter_suppressed (g_lower G) (msg_to m) (w_gate w)") auto
  obtain p q w2 where rc: "gw_record_submission G h rq (m\<lparr>msg_to := rs\<rparr>) (w\<lparr>w_gate := g\<rparr>) = ((p, q), w2)"
    by (metis prod.exhaust)
  obtain oc n where n: "send_with_retry (g_expires G (w_ids w)) (m\<lparr>msg_to := rs\<rparr>) (w_net w2) = (oc, n)" by fastforce
  show ?thesis
  proof (cases "rs = []")
    case True
    then show ?thesis using f
      by (auto simp: deliver_http_def Let_def record_suppressed_submission_def tick_def)
  next
    case False
    then show ?thesis using f rc n gw_record_idem [OF rc]
      by (cases oc) (simp_all add: deliver_http_def Let_def gw_send_failed_idem gw_sent_idem)
  qed
qed

lemma submit_idem: "w_idem (snd (submit G h rq sid form atts w)) = w_idem w"
  by (auto simp: submit_def Let_def deliver_http_idem split: option.splits sum.splits)

lemma rate_phase_idem: "w_idem (snd (rate_phase G h rq key w)) = w_idem w"
  by (auto simp: rate_phase_def tick_def Let_def split: option.splits prod.splits)

lemma serve_api_idem:
  assumes "serve_api G h rq sid key w = (r, w')"
  shows "w_idem w' = w_idem w"
  using assms unfolding serve_api_def
proof (cases rule: proceed_SomeE)
  case answered
  then show ?thesis using rate_phase_idem [of G h rq key w] by simp
next
  case (passed u w1)
  have q: "w_idem w1 = w_idem w" using rate_phase_idem [of G h rq key w] passed(1) by simp
  from passed(2) show ?thesis
  proof (cases rule: proceed_SomeE)
    case p2: (passed fa w2)
    then show ?thesis using q submit_idem [of G h rq sid "fst fa" "snd fa" w2] by (auto simp: case_prod_unfold)
  qed (use q in auto)
qed

text \<open>The state of the in-memory backend after a claim: the key is held and nothing is stored under it.\<close>

lemma claim_state:
  assumes L: "lru_cache L view size_of lok" and "g_idem G = cache_ops L" "lok (ic_lru (w_idem w))"
    and "idempotency_phase G rq w = (Inr (Some k), w1)"
  shows "k = rq_header rq ''Idempotency-Key'' \<and> k \<noteq> [] \<and> validate_key k = None \<and> lok (ic_lru (w_idem w1)) \<and>
    k \<in> ic_inflight (w_idem w1) \<and> view (ic_lru (w_idem w1)) k = None \<and> ic_ttl (w_idem w1) = ic_ttl (w_idem w)"
proof -
  let ?k = "rq_header rq ''Idempotency-Key''" and ?t = "g_clock G (w_ticks w)" and ?t2 = "g_clock G (Suc (w_ticks w))"
  obtain st fl i1 where lk: "cache_lookup L (w_idem w) ?k ?t = ((st, fl), i1)" by (metis prod.exhaust)
  obtain cl i2 where c: "cache_claim L i1 ?k ?t2 = (cl, i2)" by fastforce
  have k: "k = ?k" "?k \<noteq> []" "validate_key ?k = None" "st = None" "\<not> fl" "cl" "w_idem w1 = i2"
    using assms(4) lk c
    by (auto simp: idempotency_phase_def assms(2) cache_ops_def tick_def Let_def split: if_splits option.splits prod.splits)
  note laws = lru_cache.get_ok [OF L] lru_cache.get_val [OF L] lru_cache.get_view [OF L] lru_cache.remove_ok [OF L]
    lru_cache.remove_view [OF L]
  obtain v l where g: "lru_get L (ic_lru (w_idem w)) ?k = (v, l)" by fastforce
  have v: "v = view (ic_lru (w_idem w)) ?k" "lok l" "view l = view (ic_lru (w_idem w))"
    using laws(1-3) [OF assms(3), of ?k] g by auto
  have i1: "lok (ic_lru i1)" "view (ic_lru i1) ?k = None" "ic_ttl i1 = ic_ttl (w_idem w)" "?k \<notin> ic_inflight i1"
    using lk k(4,5) g v laws(4,5) [OF v(2)]
    by (auto simp: cache_lookup_def split: if_splits option.splits)
  have "lok (ic_lru i2)" "view (ic_lru i2) ?k = None" "ic_ttl i2 = ic_ttl i1" "?k \<in> ic_inflight i2"
    using c k(6) i1 laws(1-3) [OF i1(1), of ?k]
    by (auto simp: cache_claim_def split: if_splits prod.splits)
  with i1 k show ?thesis by simp
qed

text \<open>The next request with the key, after the reply was stored and after it was dropped.\<close>

lemma stored_replays:
  assumes L: "lru_cache L view size_of lok" and "g_idem G = cache_ops L" "lok (ic_lru (w_idem w))"
    and k: "k = rq_header rq ''Idempotency-Key''" "k \<noteq> []" "validate_key k = None"
    and r: "rp_status r \<in> {200, 422}" and w': "w' = finalize_idempotent G k r w"
    and t: "g_clock G (w_ticks w') < g_clock G (w_ticks w' - 1) + ic_ttl (w_idem w)"
  shows "\<exists>w''. idempotency_phase G rq (w'\<lparr>w_ids := n\<rparr>) = (Inl (replay_cached_response
      \<lparr>ir_status = rp_status r, ir_content_type = rp_type r, ir_body = g_encode G (rp_body r)\<rparr>), w'') \<and>
    w_net w'' = w_net w'"
proof -
  let ?e = "\<lparr>ce_response = \<lparr>ir_status = rp_status r, ir_content_type = rp_type r, ir_body = g_encode G (rp_body r)\<rparr>,
    ce_expires = g_clock G (w_ticks w) + ic_ttl (w_idem w)\<rparr>"
  have e: "w' = w\<lparr>w_ticks := Suc (w_ticks w), w_idem := cache_store L (w_idem w) k (ce_response ?e) (g_clock G (w_ticks w))\<rparr>"
    using r w' by (auto simp: finalize_idempotent_def tick_def assms(2) cache_ops_def)
  have "lok (ic_lru (w_idem w'))" "view (ic_lru (w_idem w')) k = Some ?e" "k \<notin> ic_inflight (w_idem w')"
    using lru_cache.add_ok [OF L assms(3)] lru_cache.add_same [OF L assms(3)] by (simp_all add: e cache_store_def)
  moreover have "g_clock G (w_ticks w') < ce_expires ?e" using t by (simp add: e)
  ultimately obtain i where "cache_lookup L (w_idem w') k (g_clock G (w_ticks w')) = ((Some (ce_response ?e), False), i)"
    using lru_cache.get_val [OF L, of "ic_lru (w_idem w')" k]
    by (cases "lru_get L (ic_lru (w_idem w')) k") (simp add: cache_lookup_def)
  with k show ?thesis by (simp add: idempotency_phase_def tick_def assms(2) cache_ops_def Let_def)
qed

lemma dropped_claims_again:
  assumes L: "lru_cache L view size_of lok" and "g_idem G = cache_ops L" "lok (ic_lru (w_idem w))"
    and k: "k = rq_header rq ''Idempotency-Key''" "k \<noteq> []" "validate_key k = None"
    and "view (ic_lru (w_idem w)) k = None" "rp_status r \<notin> {200, 422}" "w' = finalize_idempotent G k r w"
  shows "\<exists>w''. idempotency_phase G rq (w'\<lparr>w_ids := n\<rparr>) = (Inr (Some k), w'')"
proof -
  note laws = lru_cache.get_ok [OF L] lru_cache.get_val [OF L] lru_cache.get_view [OF L]
  have "w' = w\<lparr>w_idem := cache_abandon (w_idem w) k\<rparr>"
    using assms(8,9) by (auto simp: finalize_idempotent_def assms(2) cache_ops_def)
  then have st: "lok (ic_lru (w_idem w'))" "view (ic_lru (w_idem w')) k = None" "k \<notin> ic_inflight (w_idem w')"
    using assms(3,7) by (simp_all add: cache_abandon_def)
  obtain l where g: "lru_get L (ic_lru (w_idem w')) k = (None, l)" "lok l" "view l k = None"
    using laws(1-3) [OF st(1), of k] st(2) by (cases "lru_get L (ic_lru (w_idem w')) k") auto
  obtain l2 where g2: "lru_get L l k = (None, l2)"
    using laws(2) [OF g(2), of k] g(3) by (cases "lru_get L l k") auto
  with k st(3) g(1) show ?thesis
    by (simp add: idempotency_phase_def tick_def assms(2) cache_ops_def Let_def cache_lookup_def cache_claim_def)
qed



end
