(* ===== verification/Lifecycle.thy ===== *)
theory Lifecycle
  imports Rate_Limit Client_IP Gate_Calls Spam_Checks
begin

text \<open>
  \<open>core/lifecycle\<close>: the sink for the mail provider's delivery events. An authenticated event is
  normalised, matched to the submission log, may put its recipient on the suppression list,
  and is forwarded to the originating endpoint's webhook, inline or through the forward queue
  of the store. Decoding and encoding JSON, parsing RFC 3339 times and the HTTP client are
  parameters; log lines are not modelled.
\<close>

section \<open>Events\<close>

datatype event_kind = Delivered | HardBounce | SoftBounce | SpamComplaint | Opened | Clicked | OtherEvent

record postmark_event =
  pe_record_type :: string
  pe_type :: string
  pe_message_id :: string
  pe_email :: string
  pe_recipient :: string
  pe_delivered_at :: string
  pe_bounced_at :: string
  pe_received_at :: string

record event =
  ev_kind :: event_kind
  ev_submission_id :: string
  ev_endpoint :: string
  ev_recipient :: string
  ev_timestamp :: instant
  ev_provider :: string
  ev_provider_data :: bytes

definition hard_bounce_types :: "string list" where
  "hard_bounce_types = [''HardBounce'', ''BadEmailAddress'', ''ManuallyDeactivated'']"

fun first_non_empty :: "string list \<Rightarrow> string" where
  "first_non_empty [] = []"
| "first_non_empty (v # vs) = (if v \<noteq> [] then v else first_non_empty vs)"

text \<open>The kind, recipient and time stamp of a payload, by its record type.\<close>

definition classify_event :: "postmark_event \<Rightarrow> event_kind \<times> string \<times> string" where
  "classify_event pe =
     (let typ = pe_record_type pe
      in if typ = ''Delivery'' then (Delivered, pe_recipient pe, first_non_empty [pe_delivered_at pe, pe_received_at pe])
         else if typ = ''Bounce'' then
           (if pe_type pe \<in> set hard_bounce_types then HardBounce else SoftBounce,
            first_non_empty [pe_email pe, pe_recipient pe], first_non_empty [pe_bounced_at pe, pe_received_at pe])
         else if typ = ''SpamComplaint'' then
           (SpamComplaint, first_non_empty [pe_email pe, pe_recipient pe], first_non_empty [pe_bounced_at pe, pe_received_at pe])
         else if typ = ''Open'' then (Opened, pe_recipient pe, pe_received_at pe)
         else if typ = ''Click'' then (Clicked, pe_recipient pe, pe_received_at pe)
         else (OtherEvent, pe_recipient pe, pe_received_at pe))"

text \<open>\<open>decode\<close> is \<open>json.Unmarshal\<close> into \<open>postmarkEvent\<close>, \<open>parse_time\<close> is \<open>time.Parse(time.RFC3339, _)\<close>.\<close>

definition normalize_postmark :: "(bytes \<Rightarrow> postmark_event option) \<Rightarrow> (string \<Rightarrow> instant option) \<Rightarrow> bytes \<Rightarrow>
    instant \<Rightarrow> (event \<times> string) result" where
  "normalize_postmark decode parse_time body now =
     (case decode body of
        None \<Rightarrow> Err ''lifecycle: parse postmark payload''
      | Some pe \<Rightarrow>
          if pe_record_type pe = [] then Err ''lifecycle: postmark payload has no RecordType''
          else case classify_event pe of
            (kind, recipient, ts) \<Rightarrow>
              Ok (\<lparr>ev_kind = kind, ev_submission_id = [], ev_endpoint = [], ev_recipient = recipient,
                ev_timestamp = (if ts = [] then now else case parse_time ts of None \<Rightarrow> now | Some t \<Rightarrow> t),
                ev_provider = ''postmark'', ev_provider_data = body\<rparr>, pe_message_id pe))"

section \<open>State\<close>

record webhook =
  wh_url :: string
  wh_secret :: string

text \<open>What one POST comes to: no request could be made, it failed, or the receiver's status.\<close>

datatype post_answer = BadRequest | PostFailed | PostStatus int

datatype forward_outcome = FwSent | FwQueued | FwDropped

text \<open>\<open>receiver\<close> answers the \<open>k\<close>-th POST; \<open>posted\<close> are the requests made: URL, signature, body.\<close>

record 'c lc_state =
  lc_gate :: gate
  lc_limiter :: "'c limiter"
  posted :: "(string \<times> string \<times> bytes) list"
  lc_results :: "(string \<times> forward_outcome) list"
  lc_ticks :: nat

record ('c, 'a, 'p) lc_env =
  l_username :: string
  l_password :: string
  l_webhooks :: "string \<rightharpoonup> webhook"
  l_lru :: "'c bucket_lru"
  l_netip :: "('a, 'p) netip"
  l_lower :: "string \<Rightarrow> string"
  l_mac :: mac
  l_decode :: "bytes \<Rightarrow> postmark_event option"
  l_parse_time :: "string \<Rightarrow> instant option"
  l_encode :: "event \<Rightarrow> bytes option"
  l_clock :: "nat \<Rightarrow> instant"
  l_receiver :: "nat \<Rightarrow> string \<Rightarrow> bytes \<Rightarrow> post_answer"

definition lc_now :: "('c, 'a, 'p) lc_env \<Rightarrow> 'c lc_state \<Rightarrow> instant \<times> 'c lc_state" where
  "lc_now E s = (l_clock E (lc_ticks s), s\<lparr>lc_ticks := Suc (lc_ticks s)\<rparr>)"

definition on_store :: "'x store_op \<Rightarrow> 'c lc_state \<Rightarrow> 'x result \<times> 'c lc_state" where
  "on_store f s = (case on_db f (lc_gate s) of (r, g) \<Rightarrow> (r, s\<lparr>lc_gate := g\<rparr>))"

definition degrade :: "'c lc_state \<Rightarrow> 'c lc_state" where
  "degrade s = s\<lparr>lc_gate := report_error (lc_gate s)\<rparr>"

definition fw_result :: "string \<Rightarrow> forward_outcome \<Rightarrow> 'c lc_state \<Rightarrow> 'c lc_state" where
  "fw_result endpoint r s = s\<lparr>lc_results := lc_results s @ [(endpoint, r)]\<rparr>"

section \<open>Forwarding\<close>

definition sign :: "mac \<Rightarrow> bytes \<Rightarrow> string \<Rightarrow> string" where
  "sign m body secret = ''sha256='' @ hex_encode (m body secret)"

text \<open>One POST: \<open>None\<close> on success, otherwise whether it may be tried again.\<close>

definition forward_attempt :: "('c, 'a, 'p) lc_env \<Rightarrow> webhook \<Rightarrow> bytes \<Rightarrow> 'c lc_state \<Rightarrow> bool option \<times> 'c lc_state" where
  "forward_attempt E wh payload s =
     (let s1 = s\<lparr>posted := posted s @ [(wh_url wh, sign (l_mac E) payload (wh_secret wh), payload)]\<rparr>
      in case l_receiver E (length (posted s)) (wh_url wh) payload of
           BadRequest \<Rightarrow> (Some False, s)
         | PostFailed \<Rightarrow> (Some True, s1)
         | PostStatus code \<Rightarrow>
             (if 200 \<le> code \<and> code < 300 then None
              else if code = 429 \<or> code \<ge> 500 then Some True else Some False, s1))"

definition forward_deliver :: "('c, 'a, 'p) lc_env \<Rightarrow> string \<Rightarrow> bytes \<Rightarrow> 'c lc_state \<Rightarrow> 'c lc_state" where
  "forward_deliver E endpoint payload s =
     (case l_webhooks E endpoint of
        None \<Rightarrow> s
      | Some wh \<Rightarrow>
          (case forward_attempt E wh payload s of
             (None, s1) \<Rightarrow> fw_result endpoint FwSent s1
           | (Some retryable, s1) \<Rightarrow>
               if retryable \<and> gate_healthy (lc_gate s1) then
                 (case lc_now E s1 of
                    (now, s2) \<Rightarrow>
                      (case on_store (enqueue_forward endpoint payload now) s2 of
                         (Inl _, s3) \<Rightarrow> fw_result endpoint FwDropped (degrade s3)
                       | (Inr _, s3) \<Rightarrow> fw_result endpoint FwQueued s3))
               else fw_result endpoint FwDropped s1))"

text \<open>One claimed row of the forward queue.\<close>

definition settle_forward :: "('c, 'a, 'p) lc_env \<Rightarrow> forward_row \<Rightarrow> 'c lc_state \<Rightarrow> 'c lc_state" where
  "settle_forward E p s =
     (case l_webhooks E (fwd_endpoint p) of
        None \<Rightarrow>
          (case lc_now E s of
             (now, s1) \<Rightarrow> fw_result (fwd_endpoint p) FwDropped
               (snd (on_store (record_forward_outcome (fwd_id p) False now) s1)))
      | Some wh \<Rightarrow>
          (case forward_attempt E wh (fwd_payload p) s of
             (r, s1) \<Rightarrow>
               (case lc_now E s1 of
                  (now, s2) \<Rightarrow>
                    (case r of
                       None \<Rightarrow> fw_result (fwd_endpoint p) FwSent
                         (snd (on_store (record_forward_outcome (fwd_id p) False now) s2))
                     | Some retryable \<Rightarrow>
                         (case on_store (record_forward_outcome (fwd_id p) retryable now) s2 of
                            (Inl _, s3) \<Rightarrow> degrade s3
                          | (Inr gone, s3) \<Rightarrow>
                              if gone \<or> \<not> retryable then fw_result (fwd_endpoint p) FwDropped s3 else s3)))))"

text \<open>\<open>cancelled k\<close> is what \<open>ctx.Err()\<close> says before the \<open>k\<close>-th row.\<close>

fun settle_each :: "('c, 'a, 'p) lc_env \<Rightarrow> (nat \<Rightarrow> bool) \<Rightarrow> nat \<Rightarrow> forward_row list \<Rightarrow> 'c lc_state \<Rightarrow> 'c lc_state" where
  "settle_each E cancelled k [] s = s"
| "settle_each E cancelled k (p # due) s =
     (if cancelled k then s else settle_each E cancelled (Suc k) due (settle_forward E p s))"

definition forward_process_due :: "('c, 'a, 'p) lc_env \<Rightarrow> (nat \<Rightarrow> bool) \<Rightarrow> 'c lc_state \<Rightarrow> 'c lc_state" where
  "forward_process_due E cancelled s =
     (if \<not> gate_healthy (lc_gate s) then s
      else case lc_now E s of
        (now, s1) \<Rightarrow>
          (case on_store (claim_due_forwards now 10) s1 of
             (Inl _, s2) \<Rightarrow> s2
           | (Inr due, s2) \<Rightarrow> settle_each E cancelled 0 due s2))"

text \<open>\<open>RunQueue\<close> until the context ends: a poll each time the timer fires.\<close>

fun run_forward_queue :: "('c, 'a, 'p) lc_env \<Rightarrow> nat \<Rightarrow> 'c lc_state \<Rightarrow> 'c lc_state" where
  "run_forward_queue E 0 s = s"
| "run_forward_queue E (Suc polls) s = run_forward_queue E polls (forward_process_due E (\<lambda>_. False) s)"

section \<open>The event sink\<close>

definition max_event_body :: nat where
  "max_event_body = 262144"

text \<open>\<open>er_auth\<close> is \<open>r.BasicAuth()\<close>; a body of \<open>None\<close> fails while it is read.\<close>

record events_request =
  er_method :: string
  er_remote :: string
  er_auth :: "(string \<times> string) option"
  er_body :: "bytes option"

definition new_events_limiter :: "'c bucket_lru \<Rightarrow> 'c limiter result" where
  "new_events_limiter L = new_limiter L 60 minute 0"

definition suppression_reason :: "event_kind \<Rightarrow> string" where
  "suppression_reason k = (if k = SpamComplaint then ''spam_complaint'' else ''hard_bounce'')"

text \<open>The suppression and the forward of an event that belongs to a logged submission.\<close>

definition apply_event :: "('c, 'a, 'p) lc_env \<Rightarrow> event \<Rightarrow> submission \<Rightarrow> 'c lc_state \<Rightarrow> 'c lc_state" where
  "apply_event E ev0 sub s =
     (let ev = ev0\<lparr>ev_submission_id := sub_id sub, ev_endpoint := sub_endpoint sub\<rparr>;
          s3 = (if ev_kind ev \<in> {HardBounce, SpamComplaint} \<and> ev_recipient ev \<noteq> [] then
              (case lc_now E s of
                 (now, s1) \<Rightarrow>
                   (case on_store (add_suppression (l_lower E) (ev_recipient ev) (suppression_reason (ev_kind ev))
                        (sub_endpoint sub) now) s1 of
                      (Inl _, s2) \<Rightarrow> degrade s2
                    | (Inr _, s2) \<Rightarrow> s2))
            else s)
      in case l_encode E ev of
           None \<Rightarrow> s3
         | Some payload \<Rightarrow> forward_deliver E (sub_endpoint sub) payload s3)"

text \<open>After the 200 is written: whatever happens now, the provider does not see it.\<close>

definition process_event :: "('c, 'a, 'p) lc_env \<Rightarrow> bytes \<Rightarrow> 'c lc_state \<Rightarrow> 'c lc_state" where
  "process_event E body s =
     (case lc_now E s of
        (now, s1) \<Rightarrow>
          (case normalize_postmark (l_decode E) (l_parse_time E) body now of
             Inl _ \<Rightarrow> s1
           | Inr (ev, message_id) \<Rightarrow>
               if \<not> gate_healthy (lc_gate s1) then s1
               else (case on_store (find_by_message_id message_id) s1 of
                   (Inl _, s2) \<Rightarrow> degrade s2
                 | (Inr None, s2) \<Rightarrow> s2
                 | (Inr (Some sub), s2) \<Rightarrow> apply_event E ev sub s2)))"

text \<open>The status of the answer and the state after the request.\<close>

definition serve_events :: "('c, 'a, 'p) lc_env \<Rightarrow> events_request \<Rightarrow> 'c lc_state \<Rightarrow> int \<times> 'c lc_state" where
  "serve_events E rq s =
     (if er_method rq \<noteq> ''POST'' then (405, s)
      else case lc_now E s of
        (now, s1) \<Rightarrow>
          (case allow_at (l_lru E) (lc_limiter s1) (remote_ip (l_netip E) (er_remote rq)) now of
             (allowed, l) \<Rightarrow>
               let s2 = s1\<lparr>lc_limiter := l\<rparr>
               in if \<not> allowed then (429, s2)
                  else if er_auth rq \<noteq> Some (l_username E, l_password E) then (401, s2)
                  else (case er_body rq of
                      None \<Rightarrow> (413, s2)
                    | Some body \<Rightarrow>
                        if length body > max_event_body then (413, s2)
                        else (200, process_event E body s2))))"


section \<open>Lemmas\<close>

abbreviation lc_db :: "'c lc_state \<Rightarrow> db" where
  "lc_db s \<equiv> gate_db (lc_gate s)"

lemma lc_now_keeps: "lc_now E s = (t, s1) \<Longrightarrow> lc_gate s1 = lc_gate s \<and> posted s1 = posted s"
  by (auto simp: lc_now_def)

lemma fw_result_keeps [simp]: "lc_gate (fw_result ep r s) = lc_gate s" "posted (fw_result ep r s) = posted s"
  by (simp_all add: fw_result_def)

lemma degrade_keeps [simp]: "lc_db (degrade s) = lc_db s" "posted (degrade s) = posted s"
  by (simp_all add: degrade_def report_error_def)

lemma on_store_eq:
  "on_store f s = (fst (f (lc_db s)), s\<lparr>lc_gate := (lc_gate s)\<lparr>gate_db := snd (f (lc_db s))\<rparr>\<rparr>)"
  by (simp add: on_store_def on_db_def case_prod_unfold)

lemma forward_attempt_gate: "forward_attempt E wh payload s = (r, s1) \<Longrightarrow> lc_gate s1 = lc_gate s"
  by (auto simp: forward_attempt_def Let_def split: post_answer.splits)

lemma enqueue_forward_suppressions: "suppressions (snd (enqueue_forward ep p now d)) = suppressions d"
  unfolding enqueue_forward_def
  by (rule exec_keeps [where P = "\<lambda>d'. suppressions d' = suppressions d"]) simp_all

lemma forward_deliver_suppressions: "suppressions (lc_db (forward_deliver E ep payload s)) = suppressions (lc_db s)"
proof (cases "l_webhooks E ep")
  case (Some wh)
  obtain r s1 where a: "forward_attempt E wh payload s = (r, s1)" by fastforce
  note g = forward_attempt_gate [OF a]
  show ?thesis using Some a g enqueue_forward_suppressions
    by (auto simp: forward_deliver_def on_store_eq lc_now_def split: option.splits sum.splits)
qed (simp add: forward_deliver_def)

lemma add_suppression_effect:
  assumes "add_suppression lower e reason ep now d = (r, d1)"
  shows "suppressions d1 = suppressions d \<or> suppressions d1 = suppressions d @
      [\<lparr>sup_email = normalize_email lower e, sup_reason = reason, sup_endpoint = ep, sup_created_at = time_unix now\<rparr>]"
    and "faults d = [] \<Longrightarrow> normalize_email lower e \<noteq> [] \<Longrightarrow> suppressed lower d1 e"
proof -
  let ?f = "\<lambda>d. if \<exists>r \<in> set (suppressions d). sup_email r = normalize_email lower e \<and> sup_reason r = reason then d
    else d\<lparr>suppressions := suppressions d @ [\<lparr>sup_email = normalize_email lower e, sup_reason = reason,
      sup_endpoint = ep, sup_created_at = time_unix now\<rparr>]\<rparr>"
  show "suppressions d1 = suppressions d \<or> suppressions d1 = suppressions d @
      [\<lparr>sup_email = normalize_email lower e, sup_reason = reason, sup_endpoint = ep, sup_created_at = time_unix now\<rparr>]"
    using assms by (cases rule: exec_cases [of ?f d]) (auto simp: add_suppression_def Let_def split: if_splits)
  show "suppressed lower d1 e" if "faults d = []" "normalize_email lower e \<noteq> []"
    using assms that by (auto simp: add_suppression_def exec_nofault suppressed_def Let_def split: if_splits)
qed


lemma newest_cases:
  obtains (empty) "xs = []" "newest xs = None" | (found) x where "x \<in> set xs" "newest xs = Some x"
proof (cases "sort_key (\<lambda>s. - sub_created_at s) xs")
  case Nil
  then have "xs = []" by (metis length_0_conv length_sort)
  with empty Nil show ?thesis by (simp add: newest_def)
next
  case (Cons y ys)
  then have "y \<in> set xs" by (metis list.set_intros(1) set_sort)
  with found Cons show ?thesis by (simp add: newest_def)
qed

lemma find_by_message_id_effect:
  assumes "find_by_message_id m d = (r, d1)"
  shows "\<exists>fs. d1 = d\<lparr>faults := fs\<rparr>"
    and "r = Inr (Some sub) \<Longrightarrow> sub \<in> set (submissions d) \<and> sub_message_id sub = m \<and> m \<noteq> []"
    and "faults d = [] \<Longrightarrow> m \<noteq> [] \<Longrightarrow> x \<in> set (submissions d) \<Longrightarrow> sub_message_id x = m \<Longrightarrow>
      d1 = d \<and> (\<exists>s. r = Inr (Some s))"
proof -
  let ?n = "newest (filter (\<lambda>s. sub_message_id s = m) (submissions d))"
  have q: "m = [] \<and> r = Inr None \<and> d1 = d \<or> m \<noteq> [] \<and> (\<exists>fs. d1 = d\<lparr>faults := fs\<rparr>) \<and> ((\<exists>e. r = Inl e) \<or> r = Inr ?n)"
  proof (cases "m = []")
    case False
    then show ?thesis using assms
      by (cases rule: stmt_cases [of "\<lambda>d. (Ok (newest (filter (\<lambda>s. sub_message_id s = m) (submissions d))), d)" d])
        (auto simp: find_by_message_id_def query_def)
  qed (use assms in \<open>simp add: find_by_message_id_def done_op_def\<close>)
  show "\<exists>fs. d1 = d\<lparr>faults := fs\<rparr>" using q by (auto intro: exI [of _ "faults d"])
  show "sub \<in> set (submissions d) \<and> sub_message_id sub = m \<and> m \<noteq> []" if "r = Inr (Some sub)"
    using q that by (cases rule: newest_cases [of "filter (\<lambda>s. sub_message_id s = m) (submissions d)"]) auto
  show "d1 = d \<and> (\<exists>s. r = Inr (Some s))" if "faults d = []" "m \<noteq> []" "x \<in> set (submissions d)" "sub_message_id x = m"
  proof -
    have "find_by_message_id m d = (Inr ?n, d)" using that by (simp add: find_by_message_id_def query_nofault)
    moreover have "?n \<noteq> None"
      using that by (cases rule: newest_cases [of "filter (\<lambda>s. sub_message_id s = m) (submissions d)"])
        (auto simp: filter_empty_conv)
    ultimately show ?thesis using assms by auto
  qed
qed

text \<open>The event of a payload that names its kind.\<close>

lemma normalize_classified:
  assumes "normalize_postmark decode parse_time body now = Inr (ev, m)"
  obtains pe where "decode body = Some pe" "m = pe_message_id pe" "ev_kind ev = fst (classify_event pe)"
    "ev_recipient ev = fst (snd (classify_event pe))"
  using assms by (auto simp: normalize_postmark_def split: option.splits prod.splits if_splits)

definition suppressing :: "event_kind \<Rightarrow> bool" where
  "suppressing k \<longleftrightarrow> k \<in> {HardBounce, SpamComplaint}"

lemma apply_event_suppressions:
  "suppressions (lc_db (apply_event E ev sub s)) = suppressions (lc_db s) \<or>
   suppressing (ev_kind ev) \<and> (\<exists>t. suppressions (lc_db (apply_event E ev sub s)) = suppressions (lc_db s) @
     [\<lparr>sup_email = normalize_email (l_lower E) (ev_recipient ev), sup_reason = suppression_reason (ev_kind ev),
       sup_endpoint = sub_endpoint sub, sup_created_at = time_unix t\<rparr>])"
  "suppressing (ev_kind ev) \<Longrightarrow> faults (lc_db s) = [] \<Longrightarrow> ev_recipient ev \<noteq> [] \<Longrightarrow>
   normalize_email (l_lower E) (ev_recipient ev) \<noteq> [] \<Longrightarrow>
   suppressed (l_lower E) (lc_db (apply_event E ev sub s)) (ev_recipient ev)"
proof -
  let ?t = "l_clock E (lc_ticks s)"
  obtain r d1 where a: "add_suppression (l_lower E) (ev_recipient ev) (suppression_reason (ev_kind ev)) (sub_endpoint sub)
    ?t (lc_db s) = (r, d1)" by fastforce
  have d: "suppressions (lc_db (apply_event E ev sub s)) =
      suppressions (if suppressing (ev_kind ev) \<and> ev_recipient ev \<noteq> [] then d1 else lc_db s)"
    using a by (auto simp: apply_event_def suppressing_def Let_def on_store_eq lc_now_def forward_deliver_suppressions
        split: option.splits sum.splits)
  show "suppressions (lc_db (apply_event E ev sub s)) = suppressions (lc_db s) \<or>
   suppressing (ev_kind ev) \<and> (\<exists>t. suppressions (lc_db (apply_event E ev sub s)) = suppressions (lc_db s) @
     [\<lparr>sup_email = normalize_email (l_lower E) (ev_recipient ev), sup_reason = suppression_reason (ev_kind ev),
       sup_endpoint = sub_endpoint sub, sup_created_at = time_unix t\<rparr>])"
    using add_suppression_effect(1) [OF a] d by auto
  show "suppressed (l_lower E) (lc_db (apply_event E ev sub s)) (ev_recipient ev)"
    if "suppressing (ev_kind ev)" "faults (lc_db s) = []" "ev_recipient ev \<noteq> []"
      "normalize_email (l_lower E) (ev_recipient ev) \<noteq> []"
    using add_suppression_effect(2) [OF a] d that by (simp add: suppressed_def)
qed

text \<open>A suppressing event of a logged submission, and the row it leads to.\<close>

definition event_of :: "('c, 'a, 'p) lc_env \<Rightarrow> bytes \<Rightarrow> postmark_event \<Rightarrow> submission \<Rightarrow> gate \<Rightarrow> bool" where
  "event_of E body pe sub g \<longleftrightarrow> l_decode E body = Some pe \<and> fst (classify_event pe) \<in> {HardBounce, SpamComplaint} \<and>
     sub \<in> set (submissions (gate_db g)) \<and> sub_message_id sub = pe_message_id pe \<and> pe_message_id pe \<noteq> []"

definition suppression_row :: "('c, 'a, 'p) lc_env \<Rightarrow> postmark_event \<Rightarrow> submission \<Rightarrow> instant \<Rightarrow> suppression" where
  "suppression_row E pe sub t =
     \<lparr>sup_email = normalize_email (l_lower E) (fst (snd (classify_event pe))),
      sup_reason = suppression_reason (fst (classify_event pe)), sup_endpoint = sub_endpoint sub,
      sup_created_at = time_unix t\<rparr>"

lemma process_event_eq:
  "process_event E body s =
     (let s1 = s\<lparr>lc_ticks := Suc (lc_ticks s)\<rparr>
      in case normalize_postmark (l_decode E) (l_parse_time E) body (l_clock E (lc_ticks s)) of
         Inl _ \<Rightarrow> s1
       | Inr (ev, message_id) \<Rightarrow>
           if \<not> gate_healthy (lc_gate s) then s1
           else (case on_store (find_by_message_id message_id) s1 of
               (Inl _, s2) \<Rightarrow> degrade s2
             | (Inr None, s2) \<Rightarrow> s2
             | (Inr (Some sub), s2) \<Rightarrow> apply_event E ev sub s2))"
  by (auto simp: process_event_def lc_now_def Let_def split: sum.split)

text \<open>Either the event belongs to a logged submission and is applied, or no suppression changes.\<close>

lemma process_event_cases:
  obtains (dropped) "suppressions (lc_db (process_event E body s)) = suppressions (lc_db s)"
      "\<And>pe x. \<not> (gate_healthy (lc_gate s) \<and> faults (lc_db s) = [] \<and> event_of E body pe x (lc_gate s))"
  | (applied) pe ev sub d1 where "l_decode E body = Some pe" "ev_kind ev = fst (classify_event pe)"
      "ev_recipient ev = fst (snd (classify_event pe))" "sub \<in> set (submissions (lc_db s))"
      "sub_message_id sub = pe_message_id pe" "pe_message_id pe \<noteq> []" "suppressions d1 = suppressions (lc_db s)"
      "\<And>pe x. faults (lc_db s) = [] \<Longrightarrow> event_of E body pe x (lc_gate s) \<Longrightarrow> faults d1 = []"
      "process_event E body s = apply_event E ev sub (s\<lparr>lc_ticks := Suc (lc_ticks s), lc_gate := (lc_gate s)\<lparr>gate_db := d1\<rparr>\<rparr>)"
proof (cases "normalize_postmark (l_decode E) (l_parse_time E) body (l_clock E (lc_ticks s))")
  case (Inl e)
  then have "\<not> event_of E body pe x (lc_gate s)" for pe x
    by (auto simp: event_of_def normalize_postmark_def classify_event_def Let_def split: if_splits prod.splits)
  with Inl show ?thesis by (intro dropped) (auto simp: process_event_eq Let_def)
next
  case (Inr y)
  obtain ev m where n: "normalize_postmark (l_decode E) (l_parse_time E) body (l_clock E (lc_ticks s)) = Inr (ev, m)"
    using Inr by (cases y) auto
  then obtain pe where pe: "l_decode E body = Some pe" "m = pe_message_id pe" "ev_kind ev = fst (classify_event pe)"
    "ev_recipient ev = fst (snd (classify_event pe))" by (rule normalize_classified)
  obtain r d1 where f: "find_by_message_id m (lc_db s) = (r, d1)" by fastforce
  note fe = find_by_message_id_effect [OF f]
  have d1: "suppressions d1 = suppressions (lc_db s)" using fe(1) by auto
  show ?thesis
  proof (cases "gate_healthy (lc_gate s) \<and> (\<exists>sub. r = Inr (Some sub))")
    case False
    then have "suppressions (lc_db (process_event E body s)) = suppressions (lc_db s)"
      using n f d1 by (auto simp: process_event_eq Let_def on_store_eq split: sum.splits option.splits)
    then show ?thesis using False fe(3) pe(1,2) by (intro dropped) (auto simp: event_of_def)
  next
    case True
    then obtain sub where r: "r = Inr (Some sub)" by blast
    have e: "process_event E body s = apply_event E ev sub (s\<lparr>lc_ticks := Suc (lc_ticks s), lc_gate := (lc_gate s)\<lparr>gate_db := d1\<rparr>\<rparr>)"
      using n f r True by (simp add: process_event_eq Let_def on_store_eq)
    have "faults d1 = []" if "faults (lc_db s) = []" "event_of E body pe' x (lc_gate s)" for pe' x
      using fe(3) [of x] that pe(1,2) by (auto simp: event_of_def)
    with e show ?thesis using fe(2) [OF r] pe(2) by (intro applied [OF pe(1,3,4) _ _ _ d1]) auto
  qed
qed

lemma process_event_suppressions:
  "suppressions (lc_db (process_event E body s)) = suppressions (lc_db s) \<or>
   (\<exists>pe sub t. event_of E body pe sub (lc_gate s) \<and>
     suppressions (lc_db (process_event E body s)) = suppressions (lc_db s) @ [suppression_row E pe sub t])"
  "gate_healthy (lc_gate s) \<Longrightarrow> faults (lc_db s) = [] \<Longrightarrow> event_of E body pe x (lc_gate s) \<Longrightarrow>
   fst (snd (classify_event pe)) \<noteq> [] \<Longrightarrow> normalize_email (l_lower E) (fst (snd (classify_event pe))) \<noteq> [] \<Longrightarrow>
   suppressed (l_lower E) (lc_db (process_event E body s)) (fst (snd (classify_event pe)))"
proof -
  show "suppressions (lc_db (process_event E body s)) = suppressions (lc_db s) \<or>
      (\<exists>pe sub t. event_of E body pe sub (lc_gate s) \<and>
        suppressions (lc_db (process_event E body s)) = suppressions (lc_db s) @ [suppression_row E pe sub t])"
  proof (cases rule: process_event_cases [of E body s, case_names dropped applied])
    case (applied pe' ev sub d1)
    show ?thesis
      using applied(1-7) apply_event_suppressions(1) [where E = E and ev = ev and sub = sub, of "s\<lparr>lc_ticks := Suc (lc_ticks s), lc_gate := (lc_gate s)\<lparr>gate_db := d1\<rparr>\<rparr>", folded applied(9)]
      by (auto simp: event_of_def suppressing_def suppression_row_def)
  qed blast
  assume g: "gate_healthy (lc_gate s)" and a: "faults (lc_db s) = []" "event_of E body pe x (lc_gate s)"
    "fst (snd (classify_event pe)) \<noteq> []" "normalize_email (l_lower E) (fst (snd (classify_event pe))) \<noteq> []"
  show "suppressed (l_lower E) (lc_db (process_event E body s)) (fst (snd (classify_event pe)))"
  proof (cases rule: process_event_cases [of E body s, case_names dropped applied])
    case (applied pe' ev sub d1)
    have "pe' = pe" "suppressing (fst (classify_event pe))" using a(2) applied(1) by (auto simp: event_of_def suppressing_def)
    then show ?thesis
      using a(3,4) applied(2,3) applied(8) [OF a(1,2)]
        apply_event_suppressions(2) [where E = E and ev = ev and sub = sub, of "s\<lparr>lc_ticks := Suc (lc_ticks s), lc_gate := (lc_gate s)\<lparr>gate_db := d1\<rparr>\<rparr>", folded applied(9)]
      by simp
  qed (use g a in blast)
qed

lemma serve_events_cases:
  assumes "serve_events E rq s = (status, s')"
  obtains (denied) "status \<noteq> 200" "lc_gate s' = lc_gate s" "posted s' = posted s"
  | (accepted) body s2 where "status = 200" "er_method rq = ''POST''" "er_auth rq = Some (l_username E, l_password E)"
      "er_body rq = Some body" "lc_gate s2 = lc_gate s" "s' = process_event E body s2"
proof (cases "er_method rq = ''POST''")
  case False
  then show thesis using assms denied by (auto simp: serve_events_def)
next
  case post: True
  obtain ok l where a: "allow_at (l_lru E) (lc_limiter s) (remote_ip (l_netip E) (er_remote rq)) (l_clock E (lc_ticks s)) = (ok, l)"
    by fastforce
  let ?s2 = "s\<lparr>lc_ticks := Suc (lc_ticks s), lc_limiter := l\<rparr>"
  have e: "(if \<not> ok then (429, ?s2) else if er_auth rq \<noteq> Some (l_username E, l_password E) then (401, ?s2)
      else (case er_body rq of
          None \<Rightarrow> (413, ?s2)
        | Some body \<Rightarrow> if length body > max_event_body then (413, ?s2) else (200, process_event E body ?s2))) = (status, s')"
    using assms post a by (simp add: serve_events_def lc_now_def Let_def)
  show thesis
  proof (cases "ok \<and> er_auth rq = Some (l_username E, l_password E) \<and> er_body rq \<noteq> None \<and>
      length (the (er_body rq)) \<le> max_event_body")
    case True
    then obtain body where "er_body rq = Some body" by blast
    with True e post show thesis by (intro accepted [of body ?s2]) auto
  next
    case False
    then have "status \<noteq> 200 \<and> s' = ?s2" using e by (auto split: if_splits option.splits)
    then show thesis by (intro denied) auto
  qed
qed

section \<open>Only the provider's events suppress\<close>

text \<open>
  C30: who is suppressed. A request to the event sink changes the suppression list only if it is
  a POST with exactly the configured user and password whose payload is a hard bounce or spam
  complaint carrying the provider id of a submission in the log; then the list grows by at
  most one row, for the normal form of that recipient under the submission's endpoint. Any
  other answer than 200 leaves the store alone and posts nothing. Conversely such an event,
  on a working store, leaves its recipient suppressed.
\<close>

theorem event_suppression:
  assumes "serve_events E rq s = (status, s')"
  shows "(suppressions (gate_db (lc_gate s')) \<noteq> suppressions (gate_db (lc_gate s)) \<longrightarrow>
      er_method rq = ''POST'' \<and> er_auth rq = Some (l_username E, l_password E) \<and>
      (\<exists>body pe sub t. er_body rq = Some body \<and> l_decode E body = Some pe \<and>
        fst (classify_event pe) \<in> {HardBounce, SpamComplaint} \<and>
        sub \<in> set (submissions (gate_db (lc_gate s))) \<and> sub_message_id sub = pe_message_id pe \<and> pe_message_id pe \<noteq> [] \<and>
        suppressions (gate_db (lc_gate s')) = suppressions (gate_db (lc_gate s)) @
          [\<lparr>sup_email = normalize_email (l_lower E) (fst (snd (classify_event pe))),
            sup_reason = suppression_reason (fst (classify_event pe)), sup_endpoint = sub_endpoint sub,
            sup_created_at = time_unix t\<rparr>])) \<and>
    (status \<noteq> 200 \<longrightarrow> lc_gate s' = lc_gate s \<and> posted s' = posted s) \<and>
    (er_method rq \<noteq> ''POST'' \<or> er_auth rq \<noteq> Some (l_username E, l_password E) \<longrightarrow> status \<noteq> 200) \<and>
    (\<forall>body pe sub. status = 200 \<and> gate_healthy (lc_gate s) \<and> faults (gate_db (lc_gate s)) = [] \<and>
       er_body rq = Some body \<and> l_decode E body = Some pe \<and> fst (classify_event pe) \<in> {HardBounce, SpamComplaint} \<and>
       sub \<in> set (submissions (gate_db (lc_gate s))) \<and> sub_message_id sub = pe_message_id pe \<and> pe_message_id pe \<noteq> [] \<and>
       fst (snd (classify_event pe)) \<noteq> [] \<and> normalize_email (l_lower E) (fst (snd (classify_event pe))) \<noteq> [] \<longrightarrow>
       suppressed (l_lower E) (gate_db (lc_gate s')) (fst (snd (classify_event pe))))"
  using assms
proof (cases rule: serve_events_cases)
  case denied
  then show ?thesis by simp
next
  case (accepted body s2)
  note p = process_event_suppressions [where E = E and body = body and s = s2, folded accepted(6), unfolded accepted(5)]
  have "er_method rq = ''POST'' \<and> er_auth rq = Some (l_username E, l_password E) \<and>
      (\<exists>body pe sub t. er_body rq = Some body \<and> event_of E body pe sub (lc_gate s) \<and>
        suppressions (gate_db (lc_gate s')) = suppressions (gate_db (lc_gate s)) @ [suppression_row E pe sub t])"
    if "suppressions (gate_db (lc_gate s')) \<noteq> suppressions (gate_db (lc_gate s))"
    using p(1) that accepted(2-4) by metis
  moreover have "suppressed (l_lower E) (gate_db (lc_gate s')) (fst (snd (classify_event pe)))"
    if "gate_healthy (lc_gate s)" "faults (gate_db (lc_gate s)) = []" "er_body rq = Some body'"
      "event_of E body' pe sub (lc_gate s)" "fst (snd (classify_event pe)) \<noteq> []"
      "normalize_email (l_lower E) (fst (snd (classify_event pe))) \<noteq> []" for body' pe sub
    using p(2) [where pe = pe and x = sub] that accepted(4) by simp
  ultimately show ?thesis
    using accepted(1-3) unfolding event_of_def suppression_row_def by (intro conjI impI allI) (simp_all, metis+)
qed

definition demo_events :: "((string, nat) list_lru, string, string) lc_env" where
  "demo_events = \<lparr>l_username = ''u'', l_password = ''p'', l_webhooks = [''/c'' \<mapsto> \<lparr>wh_url = ''https://x'', wh_secret = ''k''\<rparr>],
     l_lru = list_lru, l_netip = demo_netip, l_lower = ascii_lower, l_mac = demo_mac,
     l_decode = (\<lambda>b. Some \<lparr>pe_record_type = ''Bounce'', pe_type = ''HardBounce'', pe_message_id = ''m1'', pe_email = b,
       pe_recipient = [], pe_delivered_at = [], pe_bounced_at = [], pe_received_at = []\<rparr>),
     l_parse_time = (\<lambda>_. None), l_encode = (\<lambda>_. Some ''{}''), l_clock = int, l_receiver = (\<lambda>_ _ _. PostStatus 503)\<rparr>"

definition demo_sink :: "(string, nat) list_lru lc_state" where
  "demo_sink = \<lparr>lc_gate = new_gate ((empty_db [])\<lparr>submissions := [demo_sub\<lparr>sub_message_id := ''m1''\<rparr>]\<rparr>),
     lc_limiter = \<lparr>capacity = 1, refill_per_sec = 0, buckets = (2, []), heap = []\<rparr>, posted = [], lc_results = [], lc_ticks = 0\<rparr>"

definition demo_event :: events_request where
  "demo_event = \<lparr>er_method = ''POST'', er_remote = ''192.0.2.1:9'', er_auth = Some (''u'', ''p''), er_body = Some ''Bad@x.com''\<rparr>"

theorem event_suppression_witness:
  "suppressed ascii_lower (gate_db (lc_gate (snd (serve_events demo_events demo_event demo_sink)))) ''Bad@x.com''"
proof -
  let ?s = "serve_events demo_events demo_event demo_sink"
  let ?pe = "\<lparr>pe_record_type = ''Bounce'', pe_type = ''HardBounce'', pe_message_id = ''m1'', pe_email = ''Bad@x.com'',
    pe_recipient = [], pe_delivered_at = [], pe_bounced_at = [], pe_received_at = []\<rparr>"
  let ?sub = "demo_sub\<lparr>sub_message_id := ''m1''\<rparr>"
  have c: "classify_event ?pe = (HardBounce, ''Bad@x.com'', [])"
    by (simp add: classify_event_def hard_bounce_types_def)
  have still: "seconds (time_sub 0 0) = 0" by code_simp
  have grant: "\<exists>l. allow_at list_lru (lc_limiter demo_sink) ip 0 = (True, l)" for ip
    by (simp add: demo_sink_def allow_at_def take_token_def refill_def still)
  obtain l where l: "allow_at list_lru (lc_limiter demo_sink) (remote_ip (l_netip demo_events) (er_remote demo_event)) 0 = (True, l)"
    using grant by blast
  have status: "fst ?s = 200"
  proof -
    have "er_method demo_event = ''POST''" "l_lru demo_events = list_lru" "l_clock demo_events (lc_ticks demo_sink) = 0"
      "er_auth demo_event = Some (l_username demo_events, l_password demo_events)" "er_body demo_event = Some ''Bad@x.com''"
      by (simp_all add: demo_events_def demo_sink_def demo_event_def)
    with l show ?thesis by (simp add: serve_events_def lc_now_def max_event_body_def)
  qed
  have pre: "gate_healthy (lc_gate demo_sink)" "faults (gate_db (lc_gate demo_sink)) = []"
    "er_body demo_event = Some ''Bad@x.com''" "normalize_email ascii_lower ''Bad@x.com'' \<noteq> []" by code_simp+
  have E: "l_decode demo_events ''Bad@x.com'' = Some ?pe" "l_lower demo_events = ascii_lower"
    by (simp_all add: demo_events_def)
  have "?sub \<in> set (submissions (gate_db (lc_gate demo_sink)))" by (simp add: demo_sink_def new_gate_def)
  with status pre c E have "fst ?s = 200 \<and> gate_healthy (lc_gate demo_sink) \<and> faults (gate_db (lc_gate demo_sink)) = [] \<and>
      er_body demo_event = Some ''Bad@x.com'' \<and> l_decode demo_events ''Bad@x.com'' = Some ?pe \<and>
      fst (classify_event ?pe) \<in> {HardBounce, SpamComplaint} \<and> ?sub \<in> set (submissions (gate_db (lc_gate demo_sink))) \<and>
      sub_message_id ?sub = pe_message_id ?pe \<and> pe_message_id ?pe \<noteq> [] \<and> fst (snd (classify_event ?pe)) \<noteq> [] \<and>
      normalize_email (l_lower demo_events) (fst (snd (classify_event ?pe))) \<noteq> []" by simp
  from event_suppression [OF prod.collapse [symmetric], of demo_events demo_event demo_sink, THEN conjunct2,
      THEN conjunct2, THEN conjunct2, THEN spec, THEN spec, THEN spec, THEN mp, OF this]
  show ?thesis by (simp only: c E fst_conv snd_conv)
qed

section \<open>The forward queue drains\<close>

text \<open>The POSTs the queue may still cause, and when its rows are in order.\<close>

definition fw_budget :: "forward_row list \<Rightarrow> nat" where
  "fw_budget q = sum_list (map (\<lambda>r. max_attempts - fwd_attempt r) q)"

definition fw_ok :: "db \<Rightarrow> bool" where
  "fw_ok d \<longleftrightarrow> faults d = [] \<and> distinct (map fwd_id (lifecycle_queue d)) \<and>
     (\<forall>r \<in> set (lifecycle_queue d). fwd_attempt r < max_attempts)"

definition fw_post :: "('c, 'a, 'p) lc_env \<Rightarrow> forward_row list \<Rightarrow> string \<times> string \<times> bytes \<Rightarrow> bool" where
  "fw_post E q x \<longleftrightarrow> (\<exists>r \<in> set q. \<exists>wh. l_webhooks E (fwd_endpoint r) = Some wh \<and>
     x = (wh_url wh, sign (l_mac E) (fwd_payload r) (wh_secret wh), fwd_payload r))"

lemma fw_budget_filter:
  "p \<in> set q \<Longrightarrow> fwd_attempt p < max_attempts \<Longrightarrow>
   fw_budget (filter (\<lambda>r. fwd_id r \<noteq> fwd_id p) q) < fw_budget q"
proof (induction q)
  case (Cons r q)
  have le: "fw_budget (filter (\<lambda>r. fwd_id r \<noteq> fwd_id p) q) \<le> fw_budget q" for q
    by (induction q) (auto simp: fw_budget_def)
  show ?case
  proof (cases "fwd_id r = fwd_id p \<and> r = p")
    case True
    with Cons.prems le [of q] show ?thesis by (simp add: fw_budget_def)
  next
    case False
    with Cons show ?thesis by (cases "r = p") (auto simp: fw_budget_def)
  qed
qed simp

lemma fw_budget_map:
  assumes "p \<in> set q" "distinct (map fwd_id q)" "fwd_attempt p < max_attempts" "\<And>r. fwd_attempt (f r) = Suc (fwd_attempt p)"
  shows "fw_budget (map (\<lambda>r. if fwd_id r = fwd_id p then f r else r) q) < fw_budget q"
  using assms(1,2)
proof (induction q)
  case (Cons r q)
  show ?case
  proof (cases "fwd_id r = fwd_id p")
    case True
    with Cons.prems have "r = p" "map (\<lambda>r. if fwd_id r = fwd_id p then f r else r) q = q"
      by (auto simp: image_iff intro!: map_idI)
    with assms(3,4) show ?thesis by (simp add: fw_budget_def)
  next
    case False
    with Cons show ?thesis by (auto simp: fw_budget_def)
  qed
qed simp

lemma record_forward_nofault:
  assumes "fw_ok d" "p \<in> set (lifecycle_queue d)"
  shows "snd (record_forward_outcome (fwd_id p) b t d) =
    (if \<not> b \<or> Suc (fwd_attempt p) \<ge> max_attempts
     then d\<lparr>lifecycle_queue := filter (\<lambda>r. fwd_id r \<noteq> fwd_id p) (lifecycle_queue d)\<rparr>
     else d\<lparr>lifecycle_queue := map (\<lambda>r. if fwd_id r = fwd_id p
       then r\<lparr>fwd_attempt := Suc (fwd_attempt p), fwd_next := time_unix (t + retry_backoff ! Suc (fwd_attempt p))\<rparr> else r)
       (lifecycle_queue d)\<rparr>)"
proof -
  have "find (\<lambda>r. fwd_id r = fwd_id p) (lifecycle_queue d) = Some p"
    using assms by (intro find_key) (auto simp: fw_ok_def)
  with assms(1) show ?thesis
    by (simp add: record_forward_outcome_def and_then_def exec_nofault query_nofault done_op_def fw_ok_def Let_def)
qed

lemma record_forward_step:
  assumes "fw_ok d" "p \<in> set (lifecycle_queue d)" and d'_def: "d' = snd (record_forward_outcome (fwd_id p) b t d)"
  shows "fw_ok d'" "fw_budget (lifecycle_queue d') < fw_budget (lifecycle_queue d)"
    "r \<in> set (lifecycle_queue d) \<Longrightarrow> fwd_id r \<noteq> fwd_id p \<Longrightarrow> r \<in> set (lifecycle_queue d')"
    "fw_post E (lifecycle_queue d') x \<Longrightarrow> fw_post E (lifecycle_queue d) x"
proof -
  note d' = record_forward_nofault [OF assms(1,2), of b t, folded d'_def]
  let ?f = "\<lambda>r. r\<lparr>fwd_attempt := Suc (fwd_attempt p), fwd_next := time_unix (t + retry_backoff ! Suc (fwd_attempt p))\<rparr>"
  let ?q = "map (\<lambda>r. if fwd_id r = fwd_id p then ?f r else r) (lifecycle_queue d)"
  have ids: "map fwd_id ?q = map fwd_id (lifecycle_queue d)" by simp
  show "fw_ok d'"
    using assms(1) ids unfolding d' fw_ok_def by (auto simp: distinct_map_filter simp del: map_map)
  show "fw_budget (lifecycle_queue d') < fw_budget (lifecycle_queue d)"
    using assms(1,2) fw_budget_filter [OF assms(2)] fw_budget_map [OF assms(2), of ?f]
    unfolding d' fw_ok_def by auto
  show "r \<in> set (lifecycle_queue d')" if "r \<in> set (lifecycle_queue d)" "fwd_id r \<noteq> fwd_id p"
    using that unfolding d' by (auto simp: image_iff intro!: bexI [of _ r])
  show "fw_post E (lifecycle_queue d) x" if "fw_post E (lifecycle_queue d') x"
    using that unfolding d' fw_post_def by (auto split: if_splits; blast)
qed

lemma settle_forward_db: "\<exists>b t. lc_db (settle_forward E p s) = snd (record_forward_outcome (fwd_id p) b t (lc_db s))"
proof (cases "l_webhooks E (fwd_endpoint p)")
  case None
  then show ?thesis by (auto simp: settle_forward_def lc_now_def on_store_eq)
next
  case (Some wh)
  obtain r s1 where a: "forward_attempt E wh (fwd_payload p) s = (r, s1)" by fastforce
  show ?thesis using Some a forward_attempt_gate [OF a]
    by (cases r) (auto simp: settle_forward_def lc_now_def on_store_eq split: sum.splits)
qed

lemma settle_forward_posts:
  "p \<in> set q \<Longrightarrow> \<exists>ps. posted (settle_forward E p s) = posted s @ ps \<and> length ps \<le> 1 \<and> (\<forall>x \<in> set ps. fw_post E q x)"
proof (cases "l_webhooks E (fwd_endpoint p)")
  case None
  then show ?thesis by (auto simp: settle_forward_def lc_now_def on_store_eq)
next
  case (Some wh)
  assume p: "p \<in> set q"
  obtain r s1 where a: "forward_attempt E wh (fwd_payload p) s = (r, s1)" by fastforce
  let ?x = "(wh_url wh, sign (l_mac E) (fwd_payload p) (wh_secret wh), fwd_payload p)"
  have "fw_post E q ?x" using p Some by (auto simp: fw_post_def)
  moreover have "posted s1 = posted s \<or> posted s1 = posted s @ [?x]"
    using a by (auto simp: forward_attempt_def Let_def split: post_answer.splits)
  moreover have "posted (settle_forward E p s) = posted s1" using Some a
    by (cases r) (auto simp: settle_forward_def lc_now_def on_store_eq split: sum.splits)
  ultimately show ?thesis by auto
qed

text \<open>A run that costs the queue at least \<open>n\<close> and one attempt for each POST.\<close>

definition fw_run :: "('c, 'a, 'p) lc_env \<Rightarrow> 'c lc_state \<Rightarrow> 'c lc_state \<Rightarrow> nat \<Rightarrow> bool" where
  "fw_run E s s' n \<longleftrightarrow> fw_ok (lc_db s') \<and>
     fw_budget (lifecycle_queue (lc_db s')) + n \<le> fw_budget (lifecycle_queue (lc_db s)) \<and>
     (\<exists>ps. posted s' = posted s @ ps \<and>
        length ps + fw_budget (lifecycle_queue (lc_db s')) \<le> fw_budget (lifecycle_queue (lc_db s)) \<and>
        (\<forall>x \<in> set ps. fw_post E (lifecycle_queue (lc_db s)) x)) \<and>
     (\<forall>x. fw_post E (lifecycle_queue (lc_db s')) x \<longrightarrow> fw_post E (lifecycle_queue (lc_db s)) x)"

lemma fw_run_refl: "fw_ok (lc_db s') \<Longrightarrow> lc_db s' = lc_db s \<Longrightarrow> posted s' = posted s \<Longrightarrow> fw_run E s s' 0"
  by (simp add: fw_run_def)

lemma fw_run_trans:
  assumes "fw_run E s s1 m" "fw_run E s1 s2 n"
  shows "fw_run E s s2 (m + n)"
proof -
  from assms obtain ps ps' where "posted s1 = posted s @ ps" "posted s2 = posted s1 @ ps'"
    "length ps + fw_budget (lifecycle_queue (lc_db s1)) \<le> fw_budget (lifecycle_queue (lc_db s))"
    "length ps' + fw_budget (lifecycle_queue (lc_db s2)) \<le> fw_budget (lifecycle_queue (lc_db s1))"
    "\<forall>x \<in> set ps. fw_post E (lifecycle_queue (lc_db s)) x" "\<forall>x \<in> set ps'. fw_post E (lifecycle_queue (lc_db s1)) x"
    unfolding fw_run_def by blast
  with assms show ?thesis unfolding fw_run_def by (intro conjI exI [of _ "ps @ ps'"]) auto
qed

lemma settle_forward_run:
  assumes "fw_ok (lc_db s)" "p \<in> set (lifecycle_queue (lc_db s))"
  shows "fw_run E s (settle_forward E p s) 1"
    "r \<in> set (lifecycle_queue (lc_db s)) \<Longrightarrow> fwd_id r \<noteq> fwd_id p \<Longrightarrow>
     r \<in> set (lifecycle_queue (lc_db (settle_forward E p s)))"
proof -
  obtain b t where d: "lc_db (settle_forward E p s) = snd (record_forward_outcome (fwd_id p) b t (lc_db s))"
    using settle_forward_db by blast
  note st = record_forward_step [OF assms d]
  obtain ps where "posted (settle_forward E p s) = posted s @ ps" "length ps \<le> 1"
    "\<forall>x \<in> set ps. fw_post E (lifecycle_queue (lc_db s)) x" using settle_forward_posts [OF assms(2)] by blast
  with st(1,2) st(4) show "fw_run E s (settle_forward E p s) 1"
    unfolding fw_run_def by (intro conjI exI [of _ ps] allI impI) auto
  show "r \<in> set (lifecycle_queue (lc_db (settle_forward E p s)))"
    if "r \<in> set (lifecycle_queue (lc_db s))" "fwd_id r \<noteq> fwd_id p" using st(3) that by blast
qed

lemma settle_each_run:
  "fw_ok (lc_db s) \<Longrightarrow> set due \<subseteq> set (lifecycle_queue (lc_db s)) \<Longrightarrow> distinct (map fwd_id due) \<Longrightarrow>
   fw_run E s (settle_each E (\<lambda>_. False) k due s) (length due)"
proof (induction due arbitrary: s k)
  case Nil
  then show ?case by (simp add: fw_run_refl)
next
  case (Cons p due)
  let ?s1 = "settle_forward E p s"
  have one: "fw_run E s ?s1 1" using Cons.prems by (intro settle_forward_run) auto
  have "set due \<subseteq> set (lifecycle_queue (lc_db ?s1))"
  proof
    fix x assume "x \<in> set due"
    with Cons.prems show "x \<in> set (lifecycle_queue (lc_db ?s1))"
      by (intro settle_forward_run(2)) (auto simp: image_iff)
  qed
  with Cons.IH [of ?s1 "Suc k"] one Cons.prems(3) have "fw_run E ?s1 (settle_each E (\<lambda>_. False) (Suc k) due ?s1) (length due)"
    by (simp add: fw_run_def)
  with one show ?case using fw_run_trans by fastforce
qed

lemma forward_process_due_run:
  assumes "fw_ok (lc_db s)"
  shows "\<exists>n. fw_run E s (forward_process_due E (\<lambda>_. False) s) n \<and>
    (gate_healthy (lc_gate s) \<and> (\<exists>r \<in> set (lifecycle_queue (lc_db s)). fwd_next r \<le> time_unix (l_clock E (lc_ticks s))) \<longrightarrow> 0 < n)"
proof (cases "gate_healthy (lc_gate s)")
  case False
  then show ?thesis using fw_run_refl [of s s] assms by (auto simp: forward_process_due_def)
next
  case True
  let ?t = "time_unix (l_clock E (lc_ticks s))" and ?s1 = "s\<lparr>lc_ticks := Suc (lc_ticks s)\<rparr>"
  let ?all = "sort_key fwd_next (filter (\<lambda>r. fwd_next r \<le> ?t) (lifecycle_queue (lc_db s)))"
  let ?due = "take 10 ?all"
  have "claim_due_forwards (l_clock E (lc_ticks s)) 10 (lc_db s) = (Inr ?due, lc_db s)"
    using assms by (simp add: claim_due_forwards_def query_nofault fw_ok_def sql_limit_def)
  then have e: "forward_process_due E (\<lambda>_. False) s = settle_each E (\<lambda>_. False) 0 ?due ?s1"
    using True by (simp add: forward_process_due_def lc_now_def on_store_eq)
  have "set ?all \<subseteq> set (lifecycle_queue (lc_db s))" by auto
  then have sub: "set ?due \<subseteq> set (lifecycle_queue (lc_db ?s1))" using set_take_subset [of 10 ?all] by auto
  have "distinct (map fwd_id ?all)" using assms by (auto simp: fw_ok_def distinct_map inj_on_def)
  then have "distinct (map fwd_id ?due)" by (simp flip: take_map)
  with sub have "fw_run E ?s1 (forward_process_due E (\<lambda>_. False) s) (length ?due)"
    unfolding e using assms by (intro settle_each_run) auto
  then have "fw_run E s (forward_process_due E (\<lambda>_. False) s) (length ?due)" by (simp add: fw_run_def)
  moreover have "0 < length ?due" if "\<exists>r \<in> set (lifecycle_queue (lc_db s)). fwd_next r \<le> ?t"
    using that by (auto simp: filter_empty_conv)
  ultimately show ?thesis by blast
qed

lemma run_forward_queue_run: "fw_ok (lc_db s) \<Longrightarrow> \<exists>n. fw_run E s (run_forward_queue E polls s) n"
proof (induction polls arbitrary: s)
  case 0
  then show ?case using fw_run_refl [of s s] by auto
next
  case (Suc polls)
  then obtain n where n: "fw_run E s (forward_process_due E (\<lambda>_. False) s) n" using forward_process_due_run by blast
  with Suc.IH obtain m where "fw_run E (forward_process_due E (\<lambda>_. False) s)
      (run_forward_queue E polls (forward_process_due E (\<lambda>_. False) s)) m" unfolding fw_run_def by blast
  with n show ?case using fw_run_trans by fastforce
qed



end
