(* ===== verification/SMTP_Out.thy ===== *)
theory SMTP_Out
  imports Config Transport_Core "HOL-Library.Char_ord" "HOL-Library.List_Lexorder"
begin

text \<open>
  \<open>core/transport/smtpout.go\<close>: sending one message through an SMTP relay. The relay is a
  function from the commands issued so far to its answer to the last one, so a send is a
  trace of commands and an outcome. The message text with its hand-written header block and
  the MIME parts is modelled byte for byte; address parsing, RFC 2047 and base64 encoding,
  \<open>mime.FormatMediaType\<close>, the date and the random boundaries are parameters.
\<close>

section \<open>The transport\<close>

datatype tls_mode = TLSStartTLS | TLSImplicit | TLSNone

definition parse_tls_mode :: "string \<Rightarrow> tls_mode option" where
  "parse_tls_mode s =
     (if s = ''starttls'' then Some TLSStartTLS else if s = ''implicit'' then Some TLSImplicit
      else if s = ''none'' then Some TLSNone else None)"

record smtp_out =
  so_host :: string
  so_port :: int
  so_username :: string
  so_password :: string
  so_helo :: string
  so_tls :: tls_mode
  so_insecure :: bool

record mime_env =
  m_address :: mail_parser
  m_bencode :: "string \<Rightarrow> string"
  m_disposition :: "string \<Rightarrow> string"
  m_base64 :: "bytes \<Rightarrow> string"
  m_date :: string
  m_boundary :: string
  m_inner_boundary :: string
  m_render :: "header_error \<Rightarrow> string"

definition crlf :: string where
  "crlf = [char_of (13 :: nat), char_of (10 :: nat)]"

definition has_crlf :: "string \<Rightarrow> bool" where
  "has_crlf s \<longleftrightarrow> list_ex (\<lambda>c. byte c = 13 \<or> byte c = 10) s"

definition validate_no_header_crlf :: "message \<Rightarrow> string option" where
  "validate_no_header_crlf m =
     (if has_crlf (msg_from m) then Some ''from contains CR or LF''
      else if has_crlf (msg_reply_to m) then Some ''reply-to contains CR or LF''
      else if has_crlf (msg_subject m) then Some ''subject contains CR or LF''
      else if list_ex has_crlf (msg_to m) then
        Some (''to['' @ show_int (int (length (takeWhile (\<lambda>t. \<not> has_crlf t) (msg_to m)))) @ ''] contains CR or LF'')
      else None)"

definition envelope_address :: "mime_env \<Rightarrow> string \<Rightarrow> string option" where
  "envelope_address M addr = map_option snd (m_address M addr)"

section \<open>The message text\<close>

definition write_header :: "string \<Rightarrow> string \<Rightarrow> string" where
  "write_header name v = name @ '': '' @ v @ crlf"

definition needs_mime_encoding :: "string \<Rightarrow> bool" where
  "needs_mime_encoding s \<longleftrightarrow> list_ex (\<lambda>c. byte c > 127) s"

definition encode_mime_subject :: "mime_env \<Rightarrow> string \<Rightarrow> string" where
  "encode_mime_subject M subject = (if \<not> needs_mime_encoding subject then subject else m_bencode M subject)"

text \<open>Lines of 76 characters.\<close>

function wrap_lines :: "string \<Rightarrow> string" where
  "wrap_lines enc = (if length enc > 76 then take 76 enc @ crlf @ wrap_lines (drop 76 enc) else enc)"
  by pat_completeness auto
termination by (relation "measure length") auto

declare wrap_lines.simps [simp del]

definition wrap_base64 :: "mime_env \<Rightarrow> bytes \<Rightarrow> string" where
  "wrap_base64 M data = wrap_lines (m_base64 M data)"

text \<open>
  \<open>multipart.Writer\<close>: a part is its header, written in key order, and its content; the first
  part has no line break before its boundary.
\<close>

type_synonym part = "(string \<times> string) list \<times> string"

definition write_part :: "string \<Rightarrow> part \<Rightarrow> string" where
  "write_part boundary p = ''--'' @ boundary @ crlf @
     concat (map (\<lambda>(n, v). write_header n v) (sort_key fst (fst p))) @ crlf @ snd p"

definition write_multipart :: "string \<Rightarrow> part list \<Rightarrow> string" where
  "write_multipart boundary parts =
     join crlf (map (write_part boundary) parts) @ crlf @ ''--'' @ boundary @ ''--'' @ crlf"

definition text_part :: "string \<Rightarrow> string \<Rightarrow> part" where
  "text_part subtype b =
     ([(''Content-Type'', ''text/'' @ subtype @ ''; charset=\"utf-8\"''), (''Content-Transfer-Encoding'', ''8bit'')], b)"

definition alternative_parts :: "message \<Rightarrow> part list" where
  "alternative_parts m = [text_part ''plain'' (msg_body_text m), text_part ''html'' (msg_body_html m)]"

definition attachment_part :: "mime_env \<Rightarrow> attachment \<Rightarrow> part" where
  "attachment_part M a =
     ([(''Content-Type'', att_content_type a),
       (''Content-Disposition'', m_disposition M (filter (\<lambda>c. byte c \<noteq> 13 \<and> byte c \<noteq> 10) (att_filename a))),
       (''Content-Transfer-Encoding'', ''base64'')], wrap_base64 M (att_data a))"

definition multipart_type :: "string \<Rightarrow> string \<Rightarrow> string" where
  "multipart_type kind boundary = ''multipart/'' @ kind @ ''; boundary=\"'' @ boundary @ ''\"''"

text \<open>The header block up to \<open>MIME-Version\<close>, then the content headers, the empty line and the body.\<close>

definition common_headers :: "mime_env \<Rightarrow> message \<Rightarrow> (string \<times> string) list" where
  "common_headers M m =
     [(''From'', msg_from m), (''To'', join '', '' (msg_to m))] @
     (if msg_reply_to m \<noteq> [] then [(''Reply-To'', msg_reply_to m)] else []) @
     [(''Subject'', encode_mime_subject M (msg_subject m))] @
     map (\<lambda>h. (hdr_name h, hdr_value h)) (msg_headers m) @
     [(''Date'', m_date M), (''MIME-Version'', ''1.0'')]"

definition content_headers :: "mime_env \<Rightarrow> message \<Rightarrow> (string \<times> string) list" where
  "content_headers M m =
     (if msg_body_html m = [] \<and> msg_attachments m = [] then
        [(''Content-Type'', ''text/plain; charset=\"utf-8\"''), (''Content-Transfer-Encoding'', ''8bit'')]
      else if msg_attachments m = [] then [(''Content-Type'', multipart_type ''alternative'' (m_boundary M))]
      else [(''Content-Type'', multipart_type ''mixed'' (m_boundary M))])"

definition rfc5322_body :: "mime_env \<Rightarrow> message \<Rightarrow> string" where
  "rfc5322_body M m =
     (if msg_body_html m = [] \<and> msg_attachments m = [] then msg_body_text m
      else if msg_attachments m = [] then write_multipart (m_boundary M) (alternative_parts m)
      else write_multipart (m_boundary M)
        ((if msg_body_html m = [] then text_part ''plain'' (msg_body_text m)
          else ([(''Content-Type'', multipart_type ''alternative'' (m_inner_boundary M))],
            write_multipart (m_inner_boundary M) (alternative_parts m)))
         # map (attachment_part M) (msg_attachments m)))"

definition build_rfc5322 :: "mime_env \<Rightarrow> message \<Rightarrow> string" where
  "build_rfc5322 M m =
     concat (map (\<lambda>(n, v). write_header n v) (common_headers M m @ content_headers M m)) @ crlf @ rfc5322_body M m"

section \<open>The relay\<close>

datatype relay_cmd =
  Ehlo string | StartTls | AuthPlain string string | MailFrom string | RcptTo string | DataCmd
| Payload string | DataEnd | Quit

text \<open>An SMTP reply with its code, or a failure of the connection; both with the error's text.\<close>

datatype relay_error = SmtpReply int string | NetError string

datatype dial_error =
  TlsHandshake bool string   \<comment> \<open>whether the server answered in plaintext\<close>
| Greeting relay_error
| DialFailed string

record relay =
  rl_dial :: "bool \<Rightarrow> dial_error option"
  rl_starttls :: bool
  rl_answer :: "relay_cmd list \<Rightarrow> relay_error option"

fun relay_error_string :: "relay_error \<Rightarrow> string" where
  "relay_error_string (SmtpReply code s) = s"
| "relay_error_string (NetError s) = s"

definition classify_smtp_error :: "string \<Rightarrow> relay_error \<Rightarrow> transport_error" where
  "classify_smtp_error context_msg e =
     (case e of
        SmtpReply code s \<Rightarrow> \<lparr>te_class = (if code \<ge> 500 then ErrTerminal else ErrTransient), te_status = code,
          te_cause = Some s, te_message = context_msg\<rparr>
      | NetError s \<Rightarrow> \<lparr>te_class = ErrTransient, te_status = 0, te_cause = Some s, te_message = context_msg\<rparr>)"

definition classify_starttls_error :: "relay_error \<Rightarrow> transport_error" where
  "classify_starttls_error e =
     (case e of
        SmtpReply _ _ \<Rightarrow> classify_smtp_error ''smtp: STARTTLS command rejected'' e
      | NetError s \<Rightarrow> \<lparr>te_class = ErrTerminal, te_status = 0, te_cause = Some s,
          te_message = ''smtp: STARTTLS handshake failed''\<rparr>)"

definition classify_dial_error :: "smtp_out \<Rightarrow> dial_error \<Rightarrow> transport_error" where
  "classify_dial_error t e =
     (case e of
        TlsHandshake plaintext s \<Rightarrow> \<lparr>te_class = ErrTerminal, te_status = 0, te_cause = Some (''tls handshake: '' @ s),
          te_message = (if plaintext
            then ''smtp: TLS handshake failed: server answered in plaintext, so port '' @ show_int (so_port t) @
              '' probably expects tls = \"starttls\"''
            else ''smtp: TLS handshake failed'')\<rparr>
      | Greeting (SmtpReply code s) \<Rightarrow>
          classify_smtp_error ''smtp: server refused the connection in its greeting'' (SmtpReply code s)
      | Greeting (NetError s) \<Rightarrow> \<lparr>te_class = ErrTransient, te_status = 0, te_cause = Some (''greeting: '' @ s),
          te_message = ''smtp: connected but no SMTP greeting arrived'' @
            (if so_tls t \<noteq> TLSImplicit \<and> so_port t = 465 then '' (port 465 usually expects tls = \"implicit\")'' else [])\<rparr>
      | DialFailed s \<Rightarrow> \<lparr>te_class = ErrTransient, te_status = 0, te_cause = Some s, te_message = ''smtp: dial failed''\<rparr>)"

section \<open>Sending\<close>

text \<open>A step of the conversation: it may fail, and it extends the trace.\<close>

type_synonym conversation = "relay_cmd list \<Rightarrow> transport_error option \<times> relay_cmd list"

definition issue :: "relay \<Rightarrow> relay_cmd \<Rightarrow> (relay_error \<Rightarrow> transport_error) \<Rightarrow> conversation" where
  "issue R c classify t = (map_option classify (rl_answer R (t @ [c])), t @ [c])"

definition refuse :: "transport_error \<Rightarrow> conversation" where
  "refuse e t = (Some e, t)"

fun carry_out :: "conversation list \<Rightarrow> conversation" where
  "carry_out [] t = (None, t)"
| "carry_out (f # fs) t = (case f t of (Some e, t1) \<Rightarrow> (Some e, t1) | (None, t1) \<Rightarrow> carry_out fs t1)"

definition terminal :: "string option \<Rightarrow> string \<Rightarrow> transport_error" where
  "terminal cause msg = \<lparr>te_class = ErrTerminal, te_status = 0, te_cause = cause, te_message = msg\<rparr>"

definition starttls_steps :: "smtp_out \<Rightarrow> relay \<Rightarrow> conversation list" where
  "starttls_steps t R =
     (if so_tls t \<noteq> TLSStartTLS then []
      else if \<not> rl_starttls R then
        [refuse (terminal None ''smtp: server does not advertise STARTTLS (tls = \"starttls\" requires it)'')]
      else [issue R StartTls classify_starttls_error])"

text \<open>\<open>smtp.PlainAuth\<close> sends nothing over plaintext, except to localhost.\<close>

definition plain_auth_ok :: "smtp_out \<Rightarrow> bool" where
  "plain_auth_ok t \<longleftrightarrow> so_tls t \<noteq> TLSNone \<or> so_host t \<in> {''localhost'', ''127.0.0.1'', ''::1''}"

definition auth_steps :: "smtp_out \<Rightarrow> relay \<Rightarrow> conversation list" where
  "auth_steps t R =
     (if so_username t = [] \<and> so_password t = [] then []
      else if \<not> plain_auth_ok t then
        [refuse (classify_smtp_error ''smtp: AUTH failed'' (NetError ''unencrypted connection''))]
      else [issue R (AuthPlain (so_username t) (so_password t)) (classify_smtp_error ''smtp: AUTH failed'')])"

definition address_step :: "mime_env \<Rightarrow> relay \<Rightarrow> (string \<Rightarrow> relay_cmd) \<Rightarrow> string \<Rightarrow> string \<Rightarrow> string \<Rightarrow> conversation" where
  "address_step M R cmd bad rejected addr =
     (case envelope_address M addr of
        None \<Rightarrow> refuse (terminal (Some (''parse address '' @ addr)) bad)
      | Some a \<Rightarrow> issue R (cmd a) (classify_smtp_error rejected))"

definition data_steps :: "relay \<Rightarrow> string \<Rightarrow> conversation list" where
  "data_steps R payload =
     [issue R DataCmd (classify_smtp_error ''smtp: DATA command rejected''),
      issue R (Payload payload) (\<lambda>e. \<lparr>te_class = ErrTransient, te_status = 0, te_cause = Some (relay_error_string e),
        te_message = ''smtp: write payload failed''\<rparr>),
      issue R DataEnd (classify_smtp_error ''smtp: DATA finalize failed'')]"

definition transaction :: "smtp_out \<Rightarrow> mime_env \<Rightarrow> relay \<Rightarrow> message \<Rightarrow> conversation list" where
  "transaction t M R m =
     [issue R (Ehlo (if so_helo t = [] then ''localhost'' else so_helo t)) (classify_smtp_error ''smtp: EHLO failed'')] @
     starttls_steps t R @ auth_steps t R @
     [address_step M R MailFrom ''smtp: invalid from address'' ''smtp: MAIL FROM rejected'' (msg_from m)] @
     map (address_step M R RcptTo ''smtp: invalid to address'' ''smtp: RCPT TO rejected'') (msg_to m) @
     data_steps R (build_rfc5322 M m)"

text \<open>\<open>Send\<close>: the outcome and the commands issued; a failed \<open>QUIT\<close> is ignored.\<close>

definition smtp_send :: "smtp_out \<Rightarrow> mime_env \<Rightarrow> relay \<Rightarrow> message \<Rightarrow> send_outcome \<times> relay_cmd list" where
  "smtp_send t M R m =
     (case check_headers (m_render M) m of
        Some e \<Rightarrow> (Inl e, [])
      | None \<Rightarrow>
          (case validate_no_header_crlf m of
             Some c \<Rightarrow> (Inl (TransportErr (terminal (Some c) ''smtp: header injection attempt rejected'')), [])
           | None \<Rightarrow>
               (case rl_dial R (so_tls t = TLSImplicit) of
                  Some e \<Rightarrow> (Inl (TransportErr (classify_dial_error t e)), [])
                | None \<Rightarrow>
                    (case carry_out (transaction t M R m) [] of
                       (Some e, tr) \<Rightarrow> (Inl (TransportErr e), tr)
                     | (None, tr) \<Rightarrow> (Inr [], tr @ [Quit])))))"

section \<open>Settings\<close>

definition coerce_int :: "toml \<Rightarrow> int option" where
  "coerce_int v =
     (case v of
        TInt n \<Rightarrow> Some n
      | TFloat x \<Rightarrow> Some (if x < 0 then - \<lfloor>- x\<rfloor> else \<lfloor>x\<rfloor>)
      | _ \<Rightarrow> None)"

definition str_setting :: "settings \<Rightarrow> string \<Rightarrow> string" where
  "str_setting S k = (case map_of S k of Some (TStr s) \<Rightarrow> s | _ \<Rightarrow> [])"

definition smtp_tls_mode_from_settings :: "settings \<Rightarrow> string + tls_mode" where
  "smtp_tls_mode_from_settings S =
     (case (map_of S ''tls'', map_of S ''require_tls'') of
        (Some _, Some _) \<Rightarrow> Inl ''smtp transport: set settings.tls or settings.require_tls, not both''
      | (Some v, None) \<Rightarrow>
          (case (case v of TStr s \<Rightarrow> parse_tls_mode s | _ \<Rightarrow> None) of
             Some mode \<Rightarrow> Inr mode
           | None \<Rightarrow> Inl ''smtp transport settings.tls must be starttls, implicit, or none'')
      | (None, Some v) \<Rightarrow>
          (case v of
             TBool b \<Rightarrow> Inr (if b then TLSStartTLS else TLSNone)
           | _ \<Rightarrow> Inl ''smtp transport settings.require_tls must be true or false'')
      | (None, None) \<Rightarrow> Inr TLSStartTLS)"

definition validate_smtp_out_settings :: "settings \<Rightarrow> string option" where
  "validate_smtp_out_settings S = first_some
     [check (str_setting S ''host'' = []) ''smtp transport requires settings.host'',
      (case map_of S ''port'' of
         None \<Rightarrow> Some ''smtp transport requires settings.port''
       | Some v \<Rightarrow> check (case coerce_int v of None \<Rightarrow> True | Some n \<Rightarrow> n \<le> 0 \<or> n > 65535)
           ''smtp transport settings.port must be 1-65535''),
      check (str_setting S ''username'' = []) ''smtp transport requires settings.username'',
      check (str_setting S ''password'' = []) ''smtp transport requires settings.password'',
      (case map_of S ''hello_hostname'' of
         None \<Rightarrow> None
       | Some v \<Rightarrow> check (str_setting S ''hello_hostname'' = [] \<or>
           list_ex (\<lambda>c. byte c = 32 \<or> 9 \<le> byte c \<and> byte c \<le> 13) (str_setting S ''hello_hostname''))
           ''smtp transport settings.hello_hostname must be a non-empty string with no whitespace''),
      (case smtp_tls_mode_from_settings S of Inl e \<Rightarrow> Some e | Inr _ \<Rightarrow> None)]"

definition build_smtp_out :: "settings \<Rightarrow> string + smtp_out" where
  "build_smtp_out S =
     (case smtp_tls_mode_from_settings S of
        Inl e \<Rightarrow> Inl e
      | Inr mode \<Rightarrow>
          let host = str_setting S ''host''; username = str_setting S ''username''; password = str_setting S ''password'';
              port = (case map_of S ''port'' of None \<Rightarrow> 0 | Some v \<Rightarrow> (case coerce_int v of None \<Rightarrow> 0 | Some n \<Rightarrow> n))
          in if host = [] \<or> port \<le> 0 \<or> username = [] \<or> password = [] then
               Inl ''smtp: host, port, username, password all required''
             else Inr \<lparr>so_host = host, so_port = port, so_username = username, so_password = password,
               so_helo = str_setting S ''hello_hostname'', so_tls = mode,
               so_insecure = (case map_of S ''tls_insecure_skip_verify'' of Some (TBool b) \<Rightarrow> b | _ \<Rightarrow> False)\<rparr>)"

section \<open>Traces of a conversation\<close>

lemma carry_out_append:
  "carry_out (fs @ gs) t = (case carry_out fs t of (Some e, t1) \<Rightarrow> (Some e, t1) | (None, t1) \<Rightarrow> carry_out gs t1)"
  by (induction fs arbitrary: t) (auto split: prod.splits option.splits)

text \<open>A step that only adds commands of a set.\<close>

definition issues :: "relay_cmd set \<Rightarrow> conversation \<Rightarrow> bool" where
  "issues C f \<longleftrightarrow> (\<forall>t. \<exists>u. snd (f t) = t @ u \<and> set u \<subseteq> C)"

lemma issues_simps [simp]: "issues C (refuse e)" "issues C (issue R c k) \<longleftrightarrow> c \<in> C"
  by (auto simp: issues_def refuse_def issue_def)

lemma issues_address: "(\<And>a. cmd a \<in> C) \<Longrightarrow> issues C (address_step M R cmd bad rejected addr)"
  by (simp add: address_step_def split: option.split)

lemma carry_out_issues: "list_all (issues C) fs \<Longrightarrow> \<exists>u. snd (carry_out fs t) = t @ u \<and> set u \<subseteq> C"
proof (induction fs arbitrary: t)
  case (Cons f fs)
  obtain x t1 where f: "f t = (x, t1)" by fastforce
  from Cons.prems have "\<exists>u. snd (f t) = t @ u \<and> set u \<subseteq> C" by (simp add: issues_def)
  with f obtain u where u: "t1 = t @ u" "set u \<subseteq> C" by auto
  from Cons obtain v where "snd (carry_out fs t1) = t1 @ v" "set v \<subseteq> C" by fastforce
  with f u show ?case by (cases x) auto
qed simp

text \<open>The failure a step reports is the relay's answer to the last command, or it refused to go on.\<close>

definition accepted_so_far :: "relay \<Rightarrow> relay_cmd list \<Rightarrow> bool" where
  "accepted_so_far R t \<longleftrightarrow> t = [] \<or> rl_answer R t = None"

definition reply_class :: "int \<Rightarrow> error_class" where
  "reply_class code = (if code \<ge> 500 then ErrTerminal else ErrTransient)"

definition honest :: "relay \<Rightarrow> conversation \<Rightarrow> bool" where
  "honest R f \<longleftrightarrow> (\<forall>t e t'. accepted_so_far R t \<longrightarrow>
     (f t = (None, t') \<longrightarrow> accepted_so_far R t') \<and>
     (f t = (Some e, t') \<longrightarrow> accepted_so_far R t' \<or>
        (\<exists>x. rl_answer R t' = Some x \<and> (\<forall>code s. x = SmtpReply code s \<and> (\<forall>p. last t' \<noteq> Payload p) \<longrightarrow>
           te_class e = reply_class code))))"

lemma honest_Some:
  "honest R f \<Longrightarrow> accepted_so_far R t \<Longrightarrow> f t = (Some e, t') \<Longrightarrow> accepted_so_far R t' \<or>
     (\<exists>x. rl_answer R t' = Some x \<and> (\<forall>code s. x = SmtpReply code s \<and> (\<forall>p. last t' \<noteq> Payload p) \<longrightarrow>
        te_class e = reply_class code))"
  by (simp add: honest_def)

lemma honest_refuse [simp]: "honest R (refuse e)"
  by (simp add: honest_def refuse_def)

lemma honest_issue:
  "(\<And>code s. (\<forall>p. c \<noteq> Payload p) \<Longrightarrow> te_class (k (SmtpReply code s)) = reply_class code) \<Longrightarrow> honest R (issue R c k)"
  by (auto simp: honest_def issue_def accepted_so_far_def)

lemma classify_reply [simp]:
  "te_class (classify_smtp_error msg (SmtpReply code s)) = reply_class code"
  "te_class (classify_starttls_error (SmtpReply code s)) = reply_class code"
  by (simp_all add: classify_smtp_error_def classify_starttls_error_def reply_class_def)

lemma carry_out_honest: "list_all (honest R) fs \<Longrightarrow> honest R (carry_out fs)"
proof (induction fs)
  case (Cons f fs)
  then have f: "honest R f" and fs: "honest R (carry_out fs)" by auto
  show ?case unfolding honest_def
  proof (intro allI impI)
    fix t e t' assume t: "accepted_so_far R t"
    obtain x t1 where ft: "f t = (x, t1)" by fastforce
    show "(carry_out (f # fs) t = (None, t') \<longrightarrow> accepted_so_far R t') \<and>
        (carry_out (f # fs) t = (Some e, t') \<longrightarrow> accepted_so_far R t' \<or>
          (\<exists>x. rl_answer R t' = Some x \<and> (\<forall>code s. x = SmtpReply code s \<and> (\<forall>p. last t' \<noteq> Payload p) \<longrightarrow>
             te_class e = reply_class code)))"
    proof (cases x)
      case None
      then have "accepted_so_far R t1" using f t ft by (auto simp: honest_def)
      with fs None ft show ?thesis by (simp add: honest_def)
    next
      case (Some e')
      with f t ft show ?thesis by (simp add: honest_def)
    qed
  qed
qed (simp add: honest_def)

lemma transaction_honest: "list_all (honest R) (transaction t M R m)"
proof -
  have "honest R (issue R (Payload p) k)" for p k by (rule honest_issue) simp
  then have data: "list_all (honest R) (data_steps R p)" for p
    by (simp add: data_steps_def honest_issue)
  have "honest R (address_step M R cmd bad rejected addr)" for cmd bad rejected addr
    by (simp add: address_step_def honest_issue split: option.split)
  then have "list_all (honest R) (map (address_step M R cmd bad rejected) to)" for cmd bad rejected to
    by (simp add: list_all_iff)
  moreover have "list_all (honest R) (starttls_steps t R)" "list_all (honest R) (auth_steps t R)"
    by (simp_all add: starttls_steps_def auth_steps_def honest_issue)
  ultimately show ?thesis using data by (simp add: transaction_def honest_issue address_step_def split: option.split)
qed

lemma transaction_issues:
  assumes "\<And>h. Ehlo h \<in> C" "StartTls \<in> C" "\<And>a. MailFrom a \<in> C" "\<And>a. RcptTo a \<in> C"
    "DataCmd \<in> C" "Payload (build_rfc5322 M m) \<in> C" "DataEnd \<in> C"
    "plain_auth_ok t \<Longrightarrow> so_username t \<noteq> [] \<or> so_password t \<noteq> [] \<Longrightarrow> AuthPlain (so_username t) (so_password t) \<in> C"
  shows "list_all (issues C) (transaction t M R m)"
  using assms by (auto simp: transaction_def starttls_steps_def auth_steps_def data_steps_def list_all_iff
      intro!: issues_address)

text \<open>A conversation that went through.\<close>

lemma carry_out_issue_None:
  "carry_out (issue R c k # fs) t = (None, t') \<longleftrightarrow> rl_answer R (t @ [c]) = None \<and> carry_out fs (t @ [c]) = (None, t')"
  by (auto simp: issue_def split: option.splits)

lemma carry_out_refuse_None: "carry_out (refuse e # fs) t \<noteq> (None, t')"
  by (simp add: refuse_def)

lemma carry_out_address_None:
  "carry_out (address_step M R cmd bad rejected addr # fs) t = (None, t') \<longleftrightarrow>
   (\<exists>a. envelope_address M addr = Some a \<and> rl_answer R (t @ [cmd a]) = None \<and> carry_out fs (t @ [cmd a]) = (None, t'))"
  by (cases "envelope_address M addr")
    (simp_all only: address_step_def option.case carry_out_issue_None carry_out_refuse_None, auto)

lemma carry_out_rcpts_None:
  "carry_out (map (address_step M R RcptTo bad rejected) to @ fs) t = (None, t') \<Longrightarrow>
   \<exists>rs. map (envelope_address M) to = map Some rs \<and> carry_out fs (t @ map RcptTo rs) = (None, t')"
proof (induction to arbitrary: t)
  case (Cons a to)
  from Cons.prems obtain b where b: "envelope_address M a = Some b"
    "carry_out (map (address_step M R RcptTo bad rejected) to @ fs) (t @ [RcptTo b]) = (None, t')"
    by (auto simp only: list.map append_Cons carry_out_address_None)
  from Cons.IH [OF b(2)] obtain rs where "map (envelope_address M) to = map Some rs"
    "carry_out fs ((t @ [RcptTo b]) @ map RcptTo rs) = (None, t')" by blast
  with b(1) show ?case by (intro exI [of _ "b # rs"]) simp
qed simp

lemma transaction_None:
  assumes "carry_out (transaction t M R m) [] = (None, tr)"
  shows "\<exists>h f rs. envelope_address M (msg_from m) = Some f \<and> map (envelope_address M) (msg_to m) = map Some rs \<and>
    tr = [Ehlo h] @ (if so_tls t = TLSStartTLS then [StartTls] else []) @
      (if so_username t = [] \<and> so_password t = [] then [] else [AuthPlain (so_username t) (so_password t)]) @
      MailFrom f # map RcptTo rs @ [DataCmd, Payload (build_rfc5322 M m), DataEnd] \<and> rl_answer R tr = None"
proof -
  let ?h = "Ehlo (if so_helo t = [] then ''localhost'' else so_helo t)"
  let ?tls = "if so_tls t = TLSStartTLS then [StartTls] else []"
  let ?auth = "if so_username t = [] \<and> so_password t = [] then [] else [AuthPlain (so_username t) (so_password t)]"
  let ?rest = "[address_step M R MailFrom ''smtp: invalid from address'' ''smtp: MAIL FROM rejected'' (msg_from m)] @
     map (address_step M R RcptTo ''smtp: invalid to address'' ''smtp: RCPT TO rejected'') (msg_to m) @
     data_steps R (build_rfc5322 M m)"
  have "carry_out (starttls_steps t R @ auth_steps t R @ ?rest) [?h] = (None, tr)"
    using assms by (simp add: transaction_def carry_out_issue_None del: carry_out.simps)
  then have "carry_out (auth_steps t R @ ?rest) ([?h] @ ?tls) = (None, tr)"
    by (simp add: starttls_steps_def carry_out_issue_None carry_out_refuse_None del: carry_out.simps split: if_splits)
  then have "carry_out ?rest (([?h] @ ?tls) @ ?auth) = (None, tr)"
    by (auto simp add: auth_steps_def carry_out_issue_None carry_out_refuse_None simp del: carry_out.simps split: if_splits)
  then obtain f where f: "envelope_address M (msg_from m) = Some f"
    "carry_out (map (address_step M R RcptTo ''smtp: invalid to address'' ''smtp: RCPT TO rejected'') (msg_to m) @
      data_steps R (build_rfc5322 M m)) ((([?h] @ ?tls) @ ?auth) @ [MailFrom f]) = (None, tr)"
    by (auto simp only: append_Cons append_Nil carry_out_address_None)
  from carry_out_rcpts_None [OF f(2)] obtain rs where rs: "map (envelope_address M) (msg_to m) = map Some rs"
    "carry_out (data_steps R (build_rfc5322 M m)) (((([?h] @ ?tls) @ ?auth) @ [MailFrom f]) @ map RcptTo rs) = (None, tr)" by blast
  then have "tr = ((((([?h] @ ?tls) @ ?auth) @ [MailFrom f]) @ map RcptTo rs) @ [DataCmd]) @ [Payload (build_rfc5322 M m)] @ [DataEnd] \<and>
      rl_answer R tr = None"
    by (auto simp add: data_steps_def carry_out_issue_None simp del: carry_out.simps(2))
  with f(1) rs(1) show ?thesis by (intro exI conjI) auto
qed

section \<open>No header injection\<close>

lemma smtp_send_cases:
  assumes "smtp_send t M R m = (r, tr)"
  obtains (refused) "tr = []"
  | (sent) x tr1 where "check_headers (m_render M) m = None" "validate_no_header_crlf m = None"
      "carry_out (transaction t M R m) [] = (x, tr1)"
      "(r, tr) = (case x of None \<Rightarrow> (Inr [], tr1 @ [Quit]) | Some e \<Rightarrow> (Inl (TransportErr e), tr1))"
  using assms by (auto simp: smtp_send_def split: option.splits prod.splits)

lemma has_crlf_append [simp]: "has_crlf (a @ b) \<longleftrightarrow> has_crlf a \<or> has_crlf b"
  by (auto simp: has_crlf_def)

lemma has_crlf_multipart: "has_crlf (multipart_type kind boundary) \<longleftrightarrow> has_crlf kind \<or> has_crlf boundary"
proof -
  have "\<not> has_crlf ''multipart/''" "\<not> has_crlf ''; boundary=\"''" "\<not> has_crlf ''\"''" by code_simp+
  then show ?thesis by (simp only: multipart_type_def has_crlf_append simp_thms)
qed

lemma has_crlf_join: "has_crlf (join '', '' xs) \<Longrightarrow> \<exists>x \<in> set xs. has_crlf x"
proof (induction "'', '' :: string" xs rule: join.induct)
  case (3 x y ys)
  then show ?case by (auto simp: has_crlf_def byte_def)
qed (auto simp: has_crlf_def)

lemma passthrough_no_crlf:
  assumes "validate_headers hs = None" "h \<in> set hs"
  shows "\<not> has_crlf (hdr_name h) \<and> \<not> has_crlf (hdr_value h)"
proof -
  have v: "passthrough_header (hdr_name h) = (hdr_name h, True)" "check_header_value (hdr_name h) (hdr_value h) = None"
    using assms by (auto simp: validate_headers_def validate_headers_from_None)
  have "list_all (\<lambda>n. \<not> has_crlf n) passthrough_header_allowlist" by code_simp
  with passthrough_header_in [OF v(1)] have "\<not> has_crlf (hdr_name h)" by (auto simp: list_all_iff)
  moreover have "\<not> has_crlf (hdr_value h)" using v(2) by (fastforce simp: check_header_value_None has_crlf_def list_ex_iff)
  ultimately show ?thesis by blast
qed

text \<open>
  C33: no header injection. Whatever the submitted subject, sender, reply address, recipients
  and passthrough headers contain, the text handed to the relay is a block of complete header
  lines whose names are the fixed sequence written by the transport (with the message's
  passthrough names between \<open>Subject\<close> and \<open>Date\<close>), none of whose names or values contains a CR
  or LF, then an empty line, then the body. The three hypotheses are documented behaviour of
  the date format, the random boundary and the RFC 2047 encoder.
\<close>

theorem smtp_out_no_injection:
  assumes "smtp_send t M R m = (r, tr)" "Payload p \<in> set tr"
    and "\<not> has_crlf (m_date M)" "\<not> has_crlf (m_boundary M)" "\<And>s. \<not> has_crlf (m_bencode M s)"
  shows "\<exists>hs body. p = concat (map (\<lambda>(n, v). n @ '': '' @ v @ crlf) hs) @ crlf @ body \<and>
    map fst hs = [''From'', ''To''] @ (if msg_reply_to m = [] then [] else [''Reply-To'']) @ [''Subject''] @
      map hdr_name (msg_headers m) @ [''Date'', ''MIME-Version'', ''Content-Type''] @
      (if msg_body_html m = [] \<and> msg_attachments m = [] then [''Content-Transfer-Encoding''] else []) \<and>
    (\<forall>(n, v) \<in> set hs. \<not> has_crlf n \<and> \<not> has_crlf v)"
  using assms(1)
proof (cases rule: smtp_send_cases)
  case refused
  with assms(2) show ?thesis by simp
next
  case (sent x tr1)
  let ?C = "{c. \<forall>p. c = Payload p \<longrightarrow> p = build_rfc5322 M m}"
  have "list_all (issues ?C) (transaction t M R m)" by (rule transaction_issues) auto
  from carry_out_issues [OF this, of "[]"] have "set tr1 \<subseteq> ?C" using sent(3) by auto
  moreover have "Payload p \<in> set tr1" using assms(2) sent(4) by (auto split: option.splits)
  ultimately have p: "p = build_rfc5322 M m" by auto
  have h: "validate_headers (msg_headers m) = None" using sent(1) by (auto simp: check_headers_def split: option.splits)
  have fixed: "list_all (\<lambda>s. \<not> has_crlf s) [''From'', ''To'', ''Reply-To'', ''Subject'', ''Date'', ''MIME-Version'', ''1.0'',
      ''Content-Type'', ''Content-Transfer-Encoding'', ''text/plain; charset=\"utf-8\"'', ''8bit'',
      ''mixed'', ''alternative'']" by code_simp
  have vals: "\<not> has_crlf (msg_from m)" "\<not> has_crlf (msg_reply_to m)" "\<not> has_crlf (msg_subject m)"
      "\<not> has_crlf (join '', '' (msg_to m))"
    using sent(2) has_crlf_join [of "msg_to m"]
    by (auto simp: validate_no_header_crlf_def list_ex_iff split: if_splits)
  have common: "\<forall>(n, v) \<in> set (common_headers M m). \<not> has_crlf n \<and> \<not> has_crlf v"
    using fixed vals assms(3,5) passthrough_no_crlf [OF h]
    by (auto simp: common_headers_def encode_mime_subject_def)
  have content: "\<forall>(n, v) \<in> set (content_headers M m). \<not> has_crlf n \<and> \<not> has_crlf v"
    using fixed assms(4) by (auto simp: content_headers_def has_crlf_multipart)
  show ?thesis
    by (rule exI [of _ "common_headers M m @ content_headers M m"], rule exI [of _ "rfc5322_body M m"])
      (use common content in \<open>auto simp: p build_rfc5322_def write_header_def common_headers_def content_headers_def\<close>)
qed

definition demo_relay :: relay where
  "demo_relay = \<lparr>rl_dial = (\<lambda>_. None), rl_starttls = True, rl_answer = (\<lambda>_. None)\<rparr>"

definition demo_out :: smtp_out where
  "demo_out = \<lparr>so_host = ''relay'', so_port = 587, so_username = ''u'', so_password = ''p'', so_helo = [],
     so_tls = TLSStartTLS, so_insecure = False\<rparr>"

definition demo_mime_env :: mime_env where
  "demo_mime_env = \<lparr>m_address = (\<lambda>a. Some ([], a)), m_bencode = (\<lambda>_. ''=?utf-8?b??=''), m_disposition = (\<lambda>_. ''attachment''),
     m_base64 = (\<lambda>_. []), m_date = ''Mon, 01 Jan 2024 00:00:00 +0000'', m_boundary = ''b1'', m_inner_boundary = ''b2'',
     m_render = (\<lambda>_. [])\<rparr>"

definition demo_out_message :: message where
  "demo_out_message = empty_message\<lparr>msg_from := ''f@x'', msg_to := [''a@x''], msg_subject := ''Hi'',
     msg_body_text := ''Bcc: evil@x''\<rparr>"

theorem smtp_out_no_injection_witness:
  "\<exists>hs body. build_rfc5322 demo_mime_env demo_out_message = concat (map (\<lambda>(n, v). n @ '': '' @ v @ crlf) hs) @ crlf @ body \<and>
     map fst hs = [''From'', ''To'', ''Subject'', ''Date'', ''MIME-Version'', ''Content-Type'', ''Content-Transfer-Encoding'']"
proof -
  let ?s = "smtp_send demo_out demo_mime_env demo_relay demo_out_message"
  have "list_ex (\<lambda>c. c = Payload (build_rfc5322 demo_mime_env demo_out_message)) (snd ?s)" by code_simp
  then have p: "Payload (build_rfc5322 demo_mime_env demo_out_message) \<in> set (snd ?s)" by (auto simp: list_ex_iff)
  have c: "\<not> has_crlf (m_date demo_mime_env)" "\<not> has_crlf (m_boundary demo_mime_env)"
    "\<not> has_crlf ''=?utf-8?b??=''" by code_simp+
  then have "\<not> has_crlf (m_bencode demo_mime_env s)" for s by (simp add: demo_mime_env_def)
  from smtp_out_no_injection [OF prod.collapse [symmetric] p c(1,2) this]
  show ?thesis by (simp add: demo_out_message_def empty_message_def) (elim exE conjE, intro exI conjI, assumption+)
qed

section \<open>The SMTP transaction\<close>

text \<open>STARTTLS comes right after EHLO, and nothing else is said before the relay accepted it.\<close>

lemma transaction_starttls:
  assumes "carry_out (transaction t M R m) [] = (x, tr1)" "so_tls t = TLSStartTLS" "length tr1 > 2 \<or> x = None"
  shows "\<exists>h rest. tr1 = Ehlo h # StartTls # rest \<and> rl_answer R [Ehlo h, StartTls] = None"
proof -
  define h where "h = (if so_helo t = [] then ''localhost'' else so_helo t)"
  define rest where "rest = auth_steps t R @
    [address_step M R MailFrom ''smtp: invalid from address'' ''smtp: MAIL FROM rejected'' (msg_from m)] @
    map (address_step M R RcptTo ''smtp: invalid to address'' ''smtp: RCPT TO rejected'') (msg_to m) @
    data_steps R (build_rfc5322 M m)"
  have tr1: "carry_out (issue R (Ehlo h) (classify_smtp_error ''smtp: EHLO failed'') # starttls_steps t R @ rest) [] = (x, tr1)"
    using assms(1) by (simp only: transaction_def rest_def h_def append_Cons append_Nil append_assoc)
  have "list_all (issues UNIV) rest"
    using transaction_issues [of UNIV M m t R] by (simp add: transaction_def rest_def)
  from carry_out_issues [OF this, of "[Ehlo h, StartTls]"] obtain u where
    u: "snd (carry_out rest [Ehlo h, StartTls]) = [Ehlo h, StartTls] @ u" by blast
  show ?thesis
  proof (cases "rl_answer R [Ehlo h] = None \<and> rl_starttls R \<and> rl_answer R [Ehlo h, StartTls] = None")
    case True
    then have "carry_out rest [Ehlo h, StartTls] = (x, tr1)" using tr1 assms(2)
      by (simp add: issue_def starttls_steps_def del: carry_out.simps(1))
    with u True show ?thesis by auto
  next
    case False
    then have "tr1 \<in> {[Ehlo h], [Ehlo h, StartTls]} \<and> x \<noteq> None" using tr1 assms(2)
      by (auto simp: issue_def starttls_steps_def refuse_def split: if_splits option.splits)
    with assms(3) show ?thesis by auto
  qed
qed

lemma transaction_plain_auth:
  assumes "carry_out (transaction t M R m) [] = (x, tr1)" "AuthPlain u p \<in> set tr1"
  shows "plain_auth_ok t"
proof -
  have "list_all (issues {c. (\<exists>u p. c = AuthPlain u p) \<longrightarrow> plain_auth_ok t}) (transaction t M R m)"
    by (rule transaction_issues) auto
  from carry_out_issues [OF this, of "[]"] show ?thesis using assms by auto
qed

text \<open>The error is the class of the reply that ended the transaction.\<close>

lemma transaction_error_class:
  assumes "carry_out (transaction t M R m) [] = (Some e, tr1)" "tr1 \<noteq> []" "rl_answer R tr1 = Some (SmtpReply code s)"
    and "\<forall>p. last tr1 \<noteq> Payload p"
  shows "te_class e = reply_class code"
proof -
  have "accepted_so_far R tr1 \<or> (\<exists>x. rl_answer R tr1 = Some x \<and>
      (\<forall>code s. x = SmtpReply code s \<and> (\<forall>p. last tr1 \<noteq> Payload p) \<longrightarrow> te_class e = reply_class code))"
    by (rule honest_Some [OF carry_out_honest [OF transaction_honest] _ assms(1)]) (simp add: accepted_so_far_def)
  with assms(2-4) show ?thesis by (auto simp: accepted_so_far_def)
qed



end
