(* ===== verification/JSON_Body.thy ===== *)
theory JSON_Body
  imports Spam_Checks
begin

text \<open>
  The two encodings the HTTP providers put submitted data into: what \<open>encoding/json\<close> writes
  for strings, lists and objects, and standard base64. A reader of each, which the sending
  code does not have, states what a receiver gets back.
\<close>

section \<open>Well-formed UTF-8\<close>

definition continuation :: "char \<Rightarrow> bool" where
  "continuation c \<longleftrightarrow> 128 \<le> byte c \<and> byte c \<le> 191"

definition second_byte_ok :: "nat \<Rightarrow> char \<Rightarrow> bool" where
  "second_byte_ok b c \<longleftrightarrow>
     (if b = 224 then 160 else if b = 240 then 144 else 128) \<le> byte c \<and>
     byte c \<le> (if b = 237 then 159 else if b = 244 then 143 else 191)"

text \<open>The width of the encoded code point at the head, 0 when there is none.\<close>

fun rune_len :: "string \<Rightarrow> nat" where
  "rune_len [] = 0"
| "rune_len (c # s) =
     (if byte c < 128 then 1
      else if 194 \<le> byte c \<and> byte c \<le> 223 then
        (case s of c1 # _ \<Rightarrow> if continuation c1 then 2 else 0 | _ \<Rightarrow> 0)
      else if 224 \<le> byte c \<and> byte c \<le> 239 then
        (case s of c1 # c2 # _ \<Rightarrow> if second_byte_ok (byte c) c1 \<and> continuation c2 then 3 else 0 | _ \<Rightarrow> 0)
      else if 240 \<le> byte c \<and> byte c \<le> 244 then
        (case s of c1 # c2 # c3 # _ \<Rightarrow>
             if second_byte_ok (byte c) c1 \<and> continuation c2 \<and> continuation c3 then 4 else 0
         | _ \<Rightarrow> 0)
      else 0)"

definition replacement :: string where
  "replacement = map char_of [239 :: nat, 191, 189]"

text \<open>Every byte outside a well-formed sequence replaced by U+FFFD.\<close>

fun utf8_clean :: "string \<Rightarrow> string" where
  "utf8_clean [] = []"
| "utf8_clean (c # s) =
     (if byte c < 128 then c # utf8_clean s
      else let n = rune_len (c # s)
        in if n = 0 then replacement @ utf8_clean s
           else take n (c # s) @ utf8_clean (drop (n - 1) s))"

section \<open>JSON\<close>

datatype json = JNull | JStr string | JArr "json list" | JObj "(string \<times> json) list"

abbreviation quotation :: char where
  "quotation \<equiv> CHR 0x22"

abbreviation backslash :: char where
  "backslash \<equiv> CHR 0x5C"

definition unicode_escape :: "string \<Rightarrow> string" where
  "unicode_escape digits = backslash # CHR ''u'' # digits"

definition escape_ascii :: "char \<Rightarrow> string" where
  "escape_ascii c =
     (if c = quotation \<or> c = backslash then [backslash, c]
      else if byte c = 8 then [backslash, CHR ''b'']
      else if byte c = 12 then [backslash, CHR ''f'']
      else if byte c = 10 then [backslash, CHR ''n'']
      else if byte c = 13 then [backslash, CHR ''r'']
      else if byte c = 9 then [backslash, CHR ''t'']
      else if byte c < 32 \<or> c \<in> {CHR ''<'', CHR ''>'', CHR ''&''} then
        unicode_escape [CHR ''0'', CHR ''0'', hex_digit (byte c div 16), hex_digit (byte c mod 16)]
      else [c])"

text \<open>U+2028 and U+2029, which JavaScript takes for line ends.\<close>

definition line_separator :: "string \<Rightarrow> bool" where
  "line_separator p \<longleftrightarrow> map byte p = [226, 128, 168] \<or> map byte p = [226, 128, 169]"

fun json_chars :: "string \<Rightarrow> string" where
  "json_chars [] = []"
| "json_chars (c # s) =
     (if byte c < 128 then escape_ascii c @ json_chars s
      else let n = rune_len (c # s)
        in if n = 0 then unicode_escape ''fffd'' @ json_chars s
           else (if line_separator (take n (c # s)) then
               unicode_escape [CHR ''2'', CHR ''0'', CHR ''2'', hex_digit (byte ((c # s) ! 2) mod 16)]
             else take n (c # s)) @ json_chars (drop (n - 1) s))"

definition json_string :: "string \<Rightarrow> string" where
  "json_string s = quotation # json_chars s @ [quotation]"

fun json_text :: "json \<Rightarrow> string" where
  "json_text JNull = ''null''"
| "json_text (JStr s) = json_string s"
| "json_text (JArr vs) = CHR ''['' # join '','' (map json_text vs) @ '']''"
| "json_text (JObj kvs) = CHR ''{'' # join '','' (map (\<lambda>(k, v). json_string k @ CHR '':'' # json_text v) kvs) @ ''}''"

text \<open>What a receiver reads for a value: its strings in well-formed UTF-8.\<close>

fun json_clean :: "json \<Rightarrow> json" where
  "json_clean JNull = JNull"
| "json_clean (JStr s) = JStr (utf8_clean s)"
| "json_clean (JArr vs) = JArr (map json_clean vs)"
| "json_clean (JObj kvs) = JObj (map (\<lambda>(k, v). (utf8_clean k, json_clean v)) kvs)"

section \<open>Reading JSON\<close>

definition hex_val :: "char \<Rightarrow> nat" where
  "hex_val c = (if byte c \<le> 57 then byte c - 48 else if byte c \<le> 70 then byte c - 55 else byte c - 87)"

definition utf8_encode :: "nat \<Rightarrow> string" where
  "utf8_encode n =
     (if n < 128 then [char_of n]
      else if n < 2048 then map char_of [192 + n div 64, 128 + n mod 64]
      else map char_of [224 + n div 4096, 128 + n div 64 mod 64, 128 + n mod 64])"

definition unescape_char :: "char \<Rightarrow> char option" where
  "unescape_char c =
     map_of [(quotation, quotation), (backslash, backslash), (CHR ''/'', CHR ''/''), (CHR ''b'', char_of (8 :: nat)),
       (CHR ''f'', char_of (12 :: nat)), (CHR ''n'', char_of (10 :: nat)), (CHR ''r'', char_of (13 :: nat)),
       (CHR ''t'', char_of (9 :: nat))] c"

abbreviation prepend :: "string \<Rightarrow> (string \<times> 'b) option \<Rightarrow> (string \<times> 'b) option" where
  "prepend p \<equiv> map_option (apfst ((@) p))"

fun read_chars :: "string \<Rightarrow> (string \<times> string) option" where
  "read_chars [] = None"
| "read_chars (c # s) =
     (if c = quotation then Some ([], s)
      else if c \<noteq> backslash then (if byte c < 32 then None else prepend [c] (read_chars s))
      else case s of
        [] \<Rightarrow> None
      | x # t \<Rightarrow>
          if x = CHR ''u'' then
            (case t of
               h1 # h2 # h3 # h4 # u \<Rightarrow>
                 prepend (utf8_encode (hex_val h1 * 4096 + hex_val h2 * 256 + hex_val h3 * 16 + hex_val h4)) (read_chars u)
             | _ \<Rightarrow> None)
          else (case unescape_char x of None \<Rightarrow> None | Some y \<Rightarrow> prepend [y] (read_chars t)))"

fun parse_value :: "nat \<Rightarrow> string \<Rightarrow> (json \<times> string) option"
  and parse_items :: "nat \<Rightarrow> string \<Rightarrow> (json list \<times> string) option"
  and parse_members :: "nat \<Rightarrow> string \<Rightarrow> ((string \<times> json) list \<times> string) option" where
  "parse_value 0 s = None"
| "parse_value (Suc n) s =
     (case s of
        [] \<Rightarrow> None
      | c # t \<Rightarrow>
          if c = quotation then map_option (apfst JStr) (read_chars t)
          else if c = CHR ''['' then
            (if has_prefix t '']'' then Some (JArr [], tl t) else map_option (apfst JArr) (parse_items n t))
          else if c = CHR ''{'' then
            (if has_prefix t ''}'' then Some (JObj [], tl t) else map_option (apfst JObj) (parse_members n t))
          else if has_prefix s ''null'' then Some (JNull, drop 4 s) else None)"
| "parse_items 0 s = None"
| "parse_items (Suc n) s =
     (case parse_value n s of
        Some (v, c # t) \<Rightarrow>
          if c = CHR '','' then map_option (apfst ((#) v)) (parse_items n t)
          else if c = CHR '']'' then Some ([v], t) else None
      | _ \<Rightarrow> None)"
| "parse_members 0 s = None"
| "parse_members (Suc n) s =
     (case s of
        [] \<Rightarrow> None
      | q # s1 \<Rightarrow>
         if q \<noteq> quotation then None
         else (case read_chars s1 of
           Some (k, c # s2) \<Rightarrow>
             if c \<noteq> CHR '':'' then None
             else (case parse_value n s2 of
                Some (v, c # t) \<Rightarrow>
                  if c = CHR '','' then map_option (apfst ((#) (k, v))) (parse_members n t)
                  else if c = CHR ''}'' then Some ([(k, v)], t) else None
              | _ \<Rightarrow> None)
         | _ \<Rightarrow> None))"

lemma hex_val_digit: "n < 16 \<Longrightarrow> hex_val (hex_digit n) = n"
  by (auto simp: hex_val_def hex_digit_def byte_char_of)

lemma char_of_byte [simp]: "char_of (byte c) = c"
  by (simp add: byte_def)

lemma byte_eq_iff: "byte c = byte d \<longleftrightarrow> c = d"
  by (metis char_of_byte)

lemma read_unicode:
  "read_chars (unicode_escape [h1, h2, h3, h4] @ t) =
     prepend (utf8_encode (hex_val h1 * 4096 + hex_val h2 * 256 + hex_val h3 * 16 + hex_val h4)) (read_chars t)"
  by (simp add: unicode_escape_def)

lemma escape_control:
  "escape_ascii (CHR 0x08) = [backslash, CHR ''b'']" "escape_ascii (CHR 0x0C) = [backslash, CHR ''f'']"
  "escape_ascii (CHR 0x0A) = [backslash, CHR ''n'']" "escape_ascii (CHR 0x0D) = [backslash, CHR ''r'']"
  "escape_ascii (CHR 0x09) = [backslash, CHR ''t'']"
  by code_simp+

lemma unescape_control:
  "unescape_char (CHR ''b'') = Some (CHR 0x08)" "unescape_char (CHR ''f'') = Some (CHR 0x0C)"
  "unescape_char (CHR ''n'') = Some (CHR 0x0A)" "unescape_char (CHR ''r'') = Some (CHR 0x0D)"
  "unescape_char (CHR ''t'') = Some (CHR 0x09)"
  by code_simp+

lemma control_byte:
  assumes "byte c \<in> {8, 12, 10, 13, 9}"
  shows "c \<in> {CHR 0x08, CHR 0x0C, CHR 0x0A, CHR 0x0D, CHR 0x09}"
proof -
  have "map byte [CHR 0x08, CHR 0x0C, CHR 0x0A, CHR 0x0D, CHR 0x09] = [8, 12, 10, 13, 9]" by code_simp
  with assms show ?thesis by (auto simp flip: byte_eq_iff)
qed

lemma hex_pair:
  assumes "n < 128"
  shows "utf8_encode (hex_val (CHR ''0'') * 4096 + hex_val (CHR ''0'') * 256 + hex_val (hex_digit (n div 16)) * 16 +
    hex_val (hex_digit (n mod 16))) = [char_of n]"
proof -
  have "hex_val (CHR ''0'') = 0" by code_simp
  with assms show ?thesis by (simp add: hex_val_digit utf8_encode_def)
qed

lemma read_escape_ascii:
  assumes "byte c < 128"
  shows "read_chars (escape_ascii c @ t) = prepend [c] (read_chars t)"
proof -
  consider "c = quotation \<or> c = backslash" | "byte c \<in> {8, 12, 10, 13, 9}"
    | "c \<noteq> quotation" "c \<noteq> backslash" "byte c \<notin> {8, 12, 10, 13, 9}" by blast
  then show ?thesis
  proof cases
    case 1
    then show ?thesis by (auto simp: escape_ascii_def unescape_char_def)
  next
    case 2
    from control_byte [OF this] show ?thesis
      by (elim insertE emptyE) (simp_all add: escape_control unescape_control)
  next
    case 3
    let ?u = "byte c < 32 \<or> c \<in> {CHR ''<'', CHR ''>'', CHR ''&''}"
    have e: "escape_ascii c = (if ?u then
        unicode_escape [CHR ''0'', CHR ''0'', hex_digit (byte c div 16), hex_digit (byte c mod 16)] else [c])"
      using 3 by (simp add: escape_ascii_def)
    show ?thesis
    proof (cases ?u)
      case True
      then show ?thesis unfolding e by (simp only: if_True read_unicode hex_pair [OF assms] char_of_byte)
    next
      case False
      with 3 show ?thesis unfolding e by (simp only: if_False) simp
    qed
  qed
qed

lemma read_plain: "list_all (\<lambda>c. byte c \<ge> 128) p \<Longrightarrow> read_chars (p @ t) = prepend p (read_chars t)"
proof (induction p)
  case (Cons c p)
  then have "c \<noteq> quotation" "c \<noteq> backslash" by (auto simp: byte_def)
  with Cons show ?case by (simp add: option.map_comp comp_def apfst_def map_prod_def case_prod_beta)
qed (simp add: apfst_def map_prod_def option.map_id)

text \<open>Every byte of a multi-byte sequence is outside ASCII.\<close>

lemma rune_len_bytes:
  assumes "rune_len (c # s) = n" "n \<noteq> 0" "128 \<le> byte c"
  shows "n \<le> Suc (length s) \<and> list_all (\<lambda>c. byte c \<ge> 128) (take n (c # s))"
proof -
  have w: "second_byte_ok b d \<Longrightarrow> 128 \<le> byte d" "continuation d \<Longrightarrow> 128 \<le> byte d" for b d
    by (auto simp: second_byte_ok_def continuation_def split: if_splits)
  from assms show ?thesis by (auto split: if_splits list.splits dest: w)
qed

lemma prepend_prepend: "prepend p (prepend q x) = prepend (p @ q) x"
  by (cases x) auto

lemma line_separator_bytes:
  "line_separator p \<Longrightarrow> \<exists>z. p = [char_of (226 :: nat), char_of (128 :: nat), z] \<and> (byte z = 168 \<or> byte z = 169)"
  unfolding line_separator_def by (auto simp: map_eq_Cons_conv) (metis char_of_byte)+

lemma line_separator_cases:
  assumes "line_separator (take n (c # s))"
  shows "utf8_encode (hex_val (CHR ''2'') * 4096 + hex_val (CHR ''0'') * 256 + hex_val (CHR ''2'') * 16 +
    hex_val (hex_digit (byte ((c # s) ! 2) mod 16))) = take n (c # s)"
proof -
  from line_separator_bytes [OF assms] obtain z where
    p: "take n (c # s) = [char_of (226 :: nat), char_of (128 :: nat), z]" and b: "byte z = 168 \<or> byte z = 169" by blast
  from arg_cong [OF p, of length] have "2 < n" by (simp only: length_take) (simp add: min_def split: if_splits)
  from nth_take [OF this, of "c # s"] have z: "(c # s) ! 2 = z" unfolding p by simp
  have h: "hex_val (CHR ''2'') = 2" "hex_val (CHR ''0'') = 0" by code_simp+
  from b have "byte z = 168 \<and> z = char_of (168 :: nat) \<or> byte z = 169 \<and> z = char_of (169 :: nat)" by (metis char_of_byte)
  then show ?thesis unfolding p z h
    by (elim disjE conjE) (simp_all only: hex_val_digit utf8_encode_def, simp_all)
qed

declare rune_len.simps [simp del]

lemma read_json_chars: "read_chars (json_chars s @ quotation # r) = Some (utf8_clean s, r)"
proof (induction s rule: json_chars.induct)
  case (2 c s)
  show ?case
  proof (cases "byte c < 128")
    case True
    then show ?thesis
      by (simp only: json_chars.simps utf8_clean.simps if_True append_assoc read_escape_ascii 2(1)) simp
  next
    case False
    define n where "n = rune_len (c # s)"
    show ?thesis
    proof (cases "n = 0")
      case True
      have f: "utf8_encode (hex_val (CHR ''f'') * 4096 + hex_val (CHR ''f'') * 256 + hex_val (CHR ''f'') * 16 +
          hex_val (CHR ''d'')) = replacement"
      proof -
        have "hex_val (CHR ''f'') = 15" "hex_val (CHR ''d'') = 13" by code_simp+
        then show ?thesis by (simp add: utf8_encode_def replacement_def)
      qed
      have "json_chars (c # s) = unicode_escape ''fffd'' @ json_chars s" "utf8_clean (c # s) = replacement @ utf8_clean s"
        by (simp_all only: json_chars.simps utf8_clean.simps Let_def n_def [symmetric] True False if_False if_True refl)
      moreover have "read_chars (json_chars s @ quotation # r) = Some (utf8_clean s, r)"
        by (rule 2(2) [OF False n_def True])
      ultimately show ?thesis by (simp only: append_assoc read_unicode f) simp
    next
      case n: False
      from rune_len_bytes [OF n_def [symmetric] n] False
      have p: "list_all (\<lambda>c. byte c \<ge> 128) (take n (c # s))" by simp
      have ih: "read_chars (json_chars (drop (n - 1) s) @ quotation # r) = Some (utf8_clean (drop (n - 1) s), r)"
        by (rule 2(3) [OF False n_def n])
      have e: "json_chars (c # s) = (if line_separator (take n (c # s)) then
            unicode_escape [CHR ''2'', CHR ''0'', CHR ''2'', hex_digit (byte ((c # s) ! 2) mod 16)]
          else take n (c # s)) @ json_chars (drop (n - 1) s)"
        "utf8_clean (c # s) = take n (c # s) @ utf8_clean (drop (n - 1) s)"
        by (simp_all only: json_chars.simps utf8_clean.simps Let_def n_def [symmetric] n False if_False)
      show ?thesis
      proof (cases "line_separator (take n (c # s))")
        case True
        show ?thesis unfolding e if_P [OF True]
          by (simp only: append_assoc read_unicode line_separator_cases [OF True] ih) simp
      next
        case False
        show ?thesis unfolding e if_not_P [OF False] by (simp only: append_assoc read_plain [OF p] ih) simp
      qed
    qed
  qed
qed simp

section \<open>The reader inverts the writer\<close>

fun json_size :: "json \<Rightarrow> nat" where
  "json_size (JArr vs) = sum_list (map (\<lambda>v. Suc (Suc (json_size v))) vs)"
| "json_size (JObj kvs) = sum_list (map (\<lambda>(k, v). Suc (Suc (json_size v))) kvs)"
| "json_size v = 0"

definition receives :: "string \<Rightarrow> json option" where
  "receives b = (case parse_value (length b) b of Some (v, []) \<Rightarrow> Some v | _ \<Rightarrow> None)"

lemma json_text_head: "\<exists>c t. json_text v = c # t \<and> c \<noteq> CHR '']'' \<and> c \<noteq> CHR ''}''"
  by (cases v) (simp_all add: json_string_def)

lemma parse_items_join:
  assumes "\<And>v m r. v \<in> set vs \<Longrightarrow> json_size v < m \<Longrightarrow> parse_value m (json_text v @ r) = Some (json_clean v, r)"
    and "vs \<noteq> []" "sum_list (map (\<lambda>v. Suc (Suc (json_size v))) vs) \<le> n"
  shows "parse_items n (join '','' (map json_text vs) @ CHR '']'' # r) = Some (map json_clean vs, r)"
  using assms
proof (induction vs arbitrary: n)
  case (Cons v vs)
  from Cons.prems(3) obtain m where n: "n = Suc m" "json_size v < m" by (cases n) auto
  show ?case
  proof (cases vs)
    case Nil
    with n Cons.prems(1) show ?thesis by simp
  next
    case (Cons w ws)
    have "parse_items m (join '','' (map json_text vs) @ CHR '']'' # r) = Some (map json_clean vs, r)"
      using Cons.prems n Cons by (intro Cons.IH) auto
    with n Cons.prems(1) [of v] Cons show ?thesis by simp
  qed
qed simp

lemma parse_members_join:
  assumes "\<And>k v m r. (k, v) \<in> set kvs \<Longrightarrow> json_size v < m \<Longrightarrow> parse_value m (json_text v @ r) = Some (json_clean v, r)"
    and "kvs \<noteq> []" "sum_list (map (\<lambda>(k, v). Suc (Suc (json_size v))) kvs) \<le> n"
  shows "parse_members n (join '','' (map (\<lambda>(k, v). json_string k @ CHR '':'' # json_text v) kvs) @ CHR ''}'' # r) =
    Some (map (\<lambda>(k, v). (utf8_clean k, json_clean v)) kvs, r)"
  using assms
proof (induction kvs arbitrary: n)
  case (Cons kv kvs)
  obtain k v where kv: "kv = (k, v)" by fastforce
  from Cons.prems(3) kv obtain m where n: "n = Suc m" "json_size v < m" by (cases n) auto
  show ?case
  proof (cases kvs)
    case Nil
    with n kv Cons.prems(1) [of k v] show ?thesis by (simp add: json_string_def read_json_chars)
  next
    case (Cons w ws)
    have "parse_members m (join '','' (map (\<lambda>(k, v). json_string k @ CHR '':'' # json_text v) kvs) @ CHR ''}'' # r) =
        Some (map (\<lambda>(k, v). (utf8_clean k, json_clean v)) kvs, r)"
      using Cons.prems n Cons kv by (intro Cons.IH) auto
    with n kv Cons.prems(1) [of k v] Cons show ?thesis by (simp add: json_string_def read_json_chars)
  qed
qed simp

lemma parse_json_text: "json_size v < n \<Longrightarrow> parse_value n (json_text v @ r) = Some (json_clean v, r)"
proof (induction v arbitrary: n r)
  case JNull
  then show ?case by (cases n) (simp_all add: has_prefix_def)
next
  case (JStr s)
  then show ?case by (cases n) (simp_all add: json_string_def read_json_chars)
next
  case (JArr vs)
  from JArr.prems obtain m where n: "n = Suc m" by (cases n) auto
  show ?case
  proof (cases vs)
    case Nil
    with n show ?thesis by (simp add: has_prefix_def)
  next
    case (Cons v ws)
    have i: "parse_items m (join '','' (map json_text vs) @ CHR '']'' # r) = Some (map json_clean vs, r)"
      by (rule parse_items_join) (use JArr n Cons in auto)
    obtain c t where h: "json_text v = c # t" "c \<noteq> CHR '']''" using json_text_head by blast
    have "\<exists>u. join '','' (map json_text vs) = c # u" using Cons h by (cases ws) auto
    then show ?thesis using n i h(2) by (auto simp: has_prefix_def)
  qed
next
  case (JObj kvs)
  from JObj.prems obtain m where n: "n = Suc m" by (cases n) auto
  let ?t = "join '','' (map (\<lambda>(k, v). json_string k @ CHR '':'' # json_text v) kvs)"
  show ?case
  proof (cases kvs)
    case Nil
    with n show ?thesis by (simp add: has_prefix_def)
  next
    case (Cons kv ws)
    have i: "parse_members m (?t @ CHR ''}'' # r) = Some (map (\<lambda>(k, v). (utf8_clean k, json_clean v)) kvs, r)"
      by (rule parse_members_join) (use JObj n Cons in auto)
    have "\<exists>u. ?t = quotation # u" using Cons by (cases ws) (auto simp: json_string_def split: prod.splits)
    then show ?thesis using n i by (auto simp: has_prefix_def)
  qed
qed

lemma join_length:
  "vs \<noteq> [] \<Longrightarrow> sum_list (map (\<lambda>v. Suc (length v)) vs) = Suc (length (join '','' vs))"
  by (induction "'',''" vs rule: join.induct) auto

lemma json_size_less: "json_size v < length (json_text v)"
proof (induction v)
  case (JArr vs)
  show ?case
  proof (cases "vs = []")
    case False
    from JArr have "sum_list (map (\<lambda>v. Suc (Suc (json_size v))) vs) \<le> sum_list (map (\<lambda>v. Suc (length (json_text v))) vs)"
      by (intro sum_list_mono) (simp add: Suc_leI)
    with join_length [of "map json_text vs"] False show ?thesis by (simp add: comp_def)
  qed simp
next
  case (JObj kvs)
  let ?t = "\<lambda>(k, v). json_string k @ CHR '':'' # json_text v"
  show ?case
  proof (cases "kvs = []")
    case False
    have "(\<lambda>(k, v). Suc (Suc (json_size v))) p \<le> Suc (length (?t p))" if "p \<in> set kvs" for p
    proof -
      obtain k v where p: "p = (k, v)" by fastforce
      with JObj that have "json_size v < length (json_text v)" by fastforce
      with p show ?thesis by simp
    qed
    then have "sum_list (map (\<lambda>(k, v). Suc (Suc (json_size v))) kvs) \<le> sum_list (map (\<lambda>p. Suc (length (?t p))) kvs)"
      by (intro sum_list_mono) blast
    with join_length [of "map ?t kvs"] False show ?thesis by (simp add: comp_def)
  qed simp
qed (simp_all add: json_string_def)

lemma receives_json_text: "receives (json_text v) = Some (json_clean v)"
  using parse_json_text [OF json_size_less, of v "[]"] by (simp add: receives_def)

section \<open>Base64\<close>

definition base64_digit :: "nat \<Rightarrow> char" where
  "base64_digit n = char_of (if n < 26 then 65 + n else if n < 52 then 71 + n else if n < 62 then n - 4
     else if n = 62 then 43 else 47)"

fun base64 :: "bytes \<Rightarrow> string" where
  "base64 [] = []"
| "base64 [a] = [base64_digit (byte a div 4), base64_digit (byte a mod 4 * 16), CHR ''='', CHR ''='']"
| "base64 [a, b] = [base64_digit (byte a div 4), base64_digit (byte a mod 4 * 16 + byte b div 16),
     base64_digit (byte b mod 16 * 4), CHR ''='']"
| "base64 (a # b # c # s) = base64_digit (byte a div 4) # base64_digit (byte a mod 4 * 16 + byte b div 16) #
     base64_digit (byte b mod 16 * 4 + byte c div 64) # base64_digit (byte c mod 64) # base64 s"

definition base64_val :: "char \<Rightarrow> nat" where
  "base64_val c = (if byte c = 43 then 62 else if byte c = 47 then 63 else if byte c < 58 then byte c + 4
     else if byte c < 91 then byte c - 65 else byte c - 71)"

fun unbase64 :: "string \<Rightarrow> bytes" where
  "unbase64 (p # q # r # t # s) =
     (let a = base64_val p; b = base64_val q; c = base64_val r; d = base64_val t
      in if r = CHR ''='' then [char_of (a * 4 + b div 16)]
         else if t = CHR ''='' then [char_of (a * 4 + b div 16), char_of (b mod 16 * 16 + c div 4)]
         else char_of (a * 4 + b div 16) # char_of (b mod 16 * 16 + c div 4) # char_of (c mod 4 * 64 + d) # unbase64 s)"
| "unbase64 _ = []"

lemma base64_val_digit [simp]: "n < 64 \<Longrightarrow> base64_val (base64_digit n) = n"
  by (auto simp: base64_val_def base64_digit_def byte_char_of)

lemma base64_digit_not_pad: "n < 64 \<Longrightarrow> base64_digit n \<noteq> CHR ''=''"
  by (auto simp: base64_digit_def byte_char_of dest!: arg_cong [of _ _ byte]) (simp_all add: byte_def)

lemma byte_pieces:
  "byte c div 4 < 64" "byte c div 16 < 16" "byte c div 64 < 4" "byte c mod 4 * 16 < 64" "byte c mod 16 * 4 < 64"
  using byte_lt_256 [of c] by (simp_all add: less_mult_imp_div_less)

lemma pack:
  fixes x y k :: nat
  assumes "y < k"
  shows "(x * k + y) div k = x" "(x * k + y) mod k = y"
  using assms by simp_all

lemma pack_less: "y < 16 \<Longrightarrow> x mod 4 * 16 + y < (64 :: nat)" "y < 4 \<Longrightarrow> x mod 16 * 4 + y < (64 :: nat)"
proof -
  have "x mod 4 < 4" "x mod 16 < 16" by simp_all
  then show "y < 16 \<Longrightarrow> x mod 4 * 16 + y < (64 :: nat)" "y < 4 \<Longrightarrow> x mod 16 * 4 + y < (64 :: nat)" by linarith+
qed

lemma unbase64_base64: "unbase64 (base64 s) = s"
proof (induction s rule: base64.induct)
  case (2 a)
  show ?case by (simp add: byte_pieces)
next
  case (3 a b)
  note p = byte_pieces [of a] byte_pieces [of b] pack [OF byte_pieces(2) [of b]] pack_less(1) [OF byte_pieces(2) [of b]]
  show ?case by (simp add: p base64_digit_not_pad)
next
  case (4 a b c s)
  note p = byte_pieces [of a] byte_pieces [of b] byte_pieces [of c] pack [OF byte_pieces(2) [of b]]
    pack_less(1) [OF byte_pieces(2) [of b]] pack [OF byte_pieces(3) [of c]] pack_less(2) [OF byte_pieces(3) [of c]]
  show ?case by (simp add: p 4 base64_digit_not_pad)
qed simp

end
