(* ===== verification/SigV4.thy ===== *)
theory SigV4
  imports Spam_Checks "HOL-Library.Char_ord" "HOL-Library.List_Lexorder"
begin

text \<open>
  \<open>core/transport/awssigv4.go\<close>: signing one HTTP request for AWS. SHA-256 and HMAC are
  parameters, the two renderings of the time are given, the rest is concrete. The canonical
  request is what the signature is computed over, so its injectivity says what a signature
  fixes.
\<close>

section \<open>URI encoding\<close>

definition unreserved :: "char \<Rightarrow> bool" where
  "unreserved c \<longleftrightarrow> 65 \<le> byte c \<and> byte c \<le> 90 \<or> 97 \<le> byte c \<and> byte c \<le> 122 \<or> 48 \<le> byte c \<and> byte c \<le> 57 \<or>
     c \<in> {CHR ''-'', CHR ''_'', CHR ''.'', CHR ''~''}"

definition upper_hex :: "nat \<Rightarrow> char" where
  "upper_hex n = ''0123456789ABCDEF'' ! n"

fun aws_uri_encode :: "string \<Rightarrow> bool \<Rightarrow> string" where
  "aws_uri_encode [] encode_path = []"
| "aws_uri_encode (c # s) encode_path =
     (if unreserved c then [c]
      else if c = CHR ''/'' \<and> encode_path then [c]
      else [CHR ''%'', upper_hex (byte c div 16), upper_hex (byte c mod 16)]) @ aws_uri_encode s encode_path"

section \<open>The canonical request\<close>

text \<open>A request as the signer sees it: \<open>URL.EscapedPath\<close>, the parsed query, \<open>Host\<close> and the header map.\<close>

record sig_request =
  sg_method :: string
  sg_path :: string
  sg_query :: "(string \<times> string list) list"
  sg_host :: string
  sg_headers :: "(string \<times> string list) list"

definition newline :: char where
  "newline = CHR 0x0A"

definition sorted_query :: "(string \<times> string list) list \<Rightarrow> (string \<times> string) list" where
  "sorted_query q = concat (map (\<lambda>(k, vs). map (Pair k) (sort vs)) (sort_key fst q))"

definition canonical_query :: "(string \<times> string list) list \<Rightarrow> string" where
  "canonical_query q =
     join ''&'' (map (\<lambda>(k, v). aws_uri_encode k False @ CHR ''='' # aws_uri_encode v False) (sorted_query q))"

definition canonical_headers :: "sig_request \<Rightarrow> (string \<times> string) list" where
  "canonical_headers rq = sort_key fst
     ((''host'', sg_host rq) #
      filter (\<lambda>(k, v). k \<noteq> ''host'')
        (map (\<lambda>(k, vs). (map ascii_lower_char k, trim_space (join '','' vs))) (sg_headers rq)))"

definition canonical_uri :: "sig_request \<Rightarrow> string" where
  "canonical_uri rq = (if sg_path rq = [] then ''/'' else sg_path rq)"

definition canonical_request :: "sig_request \<Rightarrow> string \<Rightarrow> string \<times> string" where
  "canonical_request rq body_hash =
     (let hs = canonical_headers rq;
          signed = join '';'' (map fst hs)
      in (join [newline]
            [sg_method rq, canonical_uri rq, canonical_query (sg_query rq),
             concat (map (\<lambda>(k, v). k @ CHR '':'' # v @ [newline]) hs), signed, body_hash],
          signed))"

section \<open>Signing\<close>

record sig_crypto =
  sha256 :: "bytes \<Rightarrow> bytes"
  hmac_sha256 :: mac   \<comment> \<open>message, then key\<close>

record sig_credentials =
  access_key_id :: string
  secret_access_key :: string

definition sha256_hex :: "sig_crypto \<Rightarrow> bytes \<Rightarrow> string" where
  "sha256_hex C data = hex_encode (sha256 C data)"

definition credential_scope :: "string \<Rightarrow> string \<Rightarrow> string \<Rightarrow> string" where
  "credential_scope date region service = date @ ''/'' @ region @ ''/'' @ service @ ''/aws4_request''"

definition derive_signing_key :: "sig_crypto \<Rightarrow> string \<Rightarrow> string \<Rightarrow> string \<Rightarrow> string \<Rightarrow> bytes" where
  "derive_signing_key C secret date region service =
     (let k_date = hmac_sha256 C date (''AWS4'' @ secret);
          k_region = hmac_sha256 C region k_date;
          k_service = hmac_sha256 C service k_region
      in hmac_sha256 C ''aws4_request'' k_service)"

text \<open>\<open>Header.Set\<close> on the header map.\<close>

definition set_value :: "string \<Rightarrow> string \<Rightarrow> (string \<times> string list) list \<Rightarrow> (string \<times> string list) list" where
  "set_value k v hs = filter (\<lambda>(n, _). n \<noteq> k) hs @ [(k, [v])]"

text \<open>\<open>date\<close> and \<open>amz_date\<close> are the time in UTC as \<open>20060102\<close> and \<open>20060102T150405Z\<close>.\<close>

definition sign_request ::
  "sig_crypto \<Rightarrow> sig_request \<Rightarrow> bytes \<Rightarrow> sig_credentials \<Rightarrow> string \<Rightarrow> string \<Rightarrow> string \<Rightarrow> string \<Rightarrow> sig_request" where
  "sign_request C rq body creds region service date amz_date =
     (let body_hash = sha256_hex C body;
          rq1 = rq\<lparr>sg_headers := set_value ''X-Amz-Content-Sha256'' body_hash (set_value ''X-Amz-Date'' amz_date (sg_headers rq))\<rparr>;
          (canonical, signed) = canonical_request rq1 body_hash;
          scope = credential_scope date region service;
          string_to_sign = join [newline] [''AWS4-HMAC-SHA256'', amz_date, scope, sha256_hex C canonical];
          key = derive_signing_key C (secret_access_key creds) date region service;
          signature = hex_encode (hmac_sha256 C string_to_sign key)
      in rq1\<lparr>sg_headers := set_value ''Authorization''
          (''AWS4-HMAC-SHA256 Credential='' @ access_key_id creds @ ''/'' @ scope @
           '', SignedHeaders='' @ signed @ '', Signature='' @ signature) (sg_headers rq1)\<rparr>)"

section \<open>Decoding\<close>

fun percent_decode :: "string \<Rightarrow> string" where
  "percent_decode (c # a # b # s) =
     (if c = CHR ''%'' then
        (case (hex_value a, hex_value b) of
           (Some x, Some y) \<Rightarrow> char_of (16 * x + y) # percent_decode s
         | _ \<Rightarrow> c # percent_decode (a # b # s))
      else c # percent_decode (a # b # s))"
| "percent_decode s = s"

lemma hex_value_upper: "n < 16 \<Longrightarrow> hex_value (upper_hex n) = Some n"
proof -
  have "list_all (\<lambda>n. hex_value (upper_hex n) = Some n) [0..<16]" by code_simp
  then show "n < 16 \<Longrightarrow> ?thesis" by (auto simp: list_all_iff)
qed

lemma byte_nibbles: "byte c div 16 < 16" "byte c mod 16 < 16" "16 * (byte c div 16) + byte c mod 16 = byte c"
  using byte_lt_256 [of c] by (simp_all add: less_mult_imp_div_less)

lemma percent_decode_Cons: "c \<noteq> CHR ''%'' \<Longrightarrow> percent_decode (c # s) = c # percent_decode s"
  by (cases s; cases "tl s") auto

lemma unreserved_not_percent: "unreserved c \<Longrightarrow> c \<noteq> CHR ''%''"
  by (auto simp: unreserved_def byte_def)

lemma percent_decode_encode: "percent_decode (aws_uri_encode s p) = s"
proof (induction s)
  case (Cons c s)
  then show ?case
    using byte_nibbles [of c]
    by (auto simp: percent_decode_Cons unreserved_not_percent hex_value_upper byte_def)
qed simp

lemma aws_uri_chars:
  assumes "c \<in> set (aws_uri_encode s p)"
  shows "unreserved c \<or> c = CHR ''%'' \<or> c = CHR ''/'' \<and> p"
proof -
  have u: "n < 16 \<Longrightarrow> unreserved (upper_hex n)" for n
  proof -
    have "list_all (\<lambda>n. unreserved (upper_hex n)) [0..<16]" by code_simp
    then show "n < 16 \<Longrightarrow> ?thesis" by (auto simp: list_all_iff)
  qed
  from assms show ?thesis by (induction s) (auto simp: u byte_nibbles split: if_splits)
qed

section \<open>What a signature fixes\<close>

lemma canonical_query_chars:
  assumes "c \<in> set (canonical_query q)"
  shows "unreserved c \<or> c \<in> {CHR ''%'', CHR ''='', CHR ''&''}"
proof -
  have "c \<in> set (join sep ss) \<Longrightarrow> c \<in> set sep \<or> (\<exists>s \<in> set ss. c \<in> set s)" for sep and ss :: "string list"
    by (induction sep ss rule: join.induct) auto
  with assms show ?thesis by (fastforce simp: canonical_query_def dest!: aws_uri_chars)
qed

lemma not_unreserved: "\<not> unreserved newline" "\<not> unreserved (CHR ''&'')" "\<not> unreserved (CHR ''='')"
  by code_simp+

lemma canonical_query_inj:
  assumes "canonical_query q = canonical_query r"
  shows "sorted_query q = sorted_query r"
proof -
  let ?f = "\<lambda>(k, v). aws_uri_encode k False @ CHR ''='' # aws_uri_encode v False"
  have cut: "cut_byte (CHR ''='') (?f p) = Some (aws_uri_encode (fst p) False, aws_uri_encode (snd p) False)" for p
  proof -
    have "CHR ''='' \<notin> set (aws_uri_encode (fst p) False)" using aws_uri_chars not_unreserved(3) by force
    then show ?thesis by (simp add: cut_byte_append case_prod_beta)
  qed
  have "?f p = ?f p' \<Longrightarrow> p = p'" for p p'
    using cut [of p] cut [of p'] percent_decode_encode by (metis option.inject prod.collapse prod.inject)
  then have inj: "inj ?f" by (intro injI) blast
  have amp: "CHR ''&'' \<notin> set (?f p)" for p
    using aws_uri_chars [of "CHR ''&''"] not_unreserved(2) by (auto simp: case_prod_beta)
  have ne: "?f p \<noteq> []" for p by (simp add: case_prod_beta)
  have empty: "xs = []" if "join ''&'' (map ?f xs) = []" for xs
    using that ne by (cases xs; cases "tl xs") auto
  show ?thesis
  proof (cases "sorted_query q = [] \<or> sorted_query r = []")
    case True
    with assms empty [of "sorted_query q"] empty [of "sorted_query r"] show ?thesis
      unfolding canonical_query_def by auto
  next
    case False
    then have "map ?f (sorted_query q) = map ?f (sorted_query r)"
      using assms amp unfolding canonical_query_def by (intro join_inj [of "CHR ''&''"]) auto
    with inj show ?thesis by (metis inj_map_eq_map)
  qed
qed

text \<open>
  Header fields as \<open>net/http\<close> lets them through: a name has no colon, no semicolon and no
  line break, a value no line break; nor does the request line.
\<close>

definition signable :: "sig_request \<Rightarrow> bool" where
  "signable rq \<longleftrightarrow> newline \<notin> set (sg_method rq) \<and> newline \<notin> set (sg_path rq) \<and>
     list_all (\<lambda>(k, v). list_all (\<lambda>c. c \<noteq> newline \<and> c \<noteq> CHR '':'' \<and> c \<noteq> CHR '';'') k \<and> newline \<notin> set v) (canonical_headers rq)"

lemma split_byte_lines:
  "\<forall>x \<in> set xs. c \<notin> set (f x) \<Longrightarrow>
     split_byte c (concat (map (\<lambda>x. f x @ [c]) xs) @ t) = map f xs @ split_byte c t"
  by (induction xs) (simp_all add: split_byte_sep)

definition header_line :: "string \<times> string \<Rightarrow> string" where
  "header_line = (\<lambda>(k, v). k @ CHR '':'' # v)"

lemma header_line_inj:
  assumes "header_line x = header_line y" "CHR '':'' \<notin> set (fst x)" "CHR '':'' \<notin> set (fst y)"
  shows "x = y"
  using assms cut_byte_append by (metis (no_types, lifting) case_prod_beta header_line_def option.inject prod.collapse prod.inject)

lemma canonical_request_split:
  assumes "signable rq" "newline \<notin> set h"
  shows "split_byte newline (fst (canonical_request rq h)) =
    [sg_method rq, canonical_uri rq, canonical_query (sg_query rq)] @ map header_line (canonical_headers rq) @
    [[], join '';'' (map fst (canonical_headers rq)), h]"
proof -
  let ?hs = "canonical_headers rq"
  have hs: "newline \<notin> set k" "newline \<notin> set v" if "(k, v) \<in> set ?hs" for k v
    using assms(1) that unfolding signable_def list_all_iff by blast+
  have line: "\<forall>x \<in> set ?hs. newline \<notin> set (header_line x)" using hs by (auto simp: header_line_def) (simp_all add: newline_def)
  have uri: "newline \<notin> set (canonical_uri rq)" using assms(1) by (auto simp: signable_def canonical_uri_def newline_def)
  have query: "newline \<notin> set (canonical_query (sg_query rq))"
    using canonical_query_chars [of newline] not_unreserved(1) by (auto simp: newline_def)
  have semicolons: "newline \<notin> set (join '';'' ks)" if "\<forall>k \<in> set ks. newline \<notin> set k" for ks
    using that by (induction "'';''" ks rule: join.induct) (auto simp: newline_def)
  have signed: "newline \<notin> set (join '';'' (map fst ?hs))" by (rule semicolons) (use hs(1) in auto)
  have "concat (map (\<lambda>(k, v). k @ CHR '':'' # v @ [newline]) ?hs) = concat (map (\<lambda>x. header_line x @ [newline]) ?hs)"
    by (rule arg_cong [of _ _ concat]) (simp add: header_line_def case_prod_beta)
  then show ?thesis using assms uri query signed line
    by (simp add: canonical_request_def Let_def split_byte_sep split_byte_lines split_byte_no_sep signable_def
      split_byte_sep [of newline "[]", simplified])
qed

lemma signable_name:
  assumes "signable rq" "x \<in> set (canonical_headers rq)"
  shows "CHR '':'' \<notin> set (fst x)"
proof -
  from assms(1) have "list_all (\<lambda>(k, v). list_all (\<lambda>c. c \<noteq> newline \<and> c \<noteq> CHR '':'' \<and> c \<noteq> CHR '';'') k \<and> newline \<notin> set v)
      (canonical_headers rq)" by (simp add: signable_def)
  from this [unfolded list_all_iff, THEN bspec, OF assms(2)]
  have "\<forall>c \<in> set (fst x). c \<noteq> newline \<and> c \<noteq> CHR '':'' \<and> c \<noteq> CHR '';''" by (simp only: case_prod_beta) (elim conjE)
  then show ?thesis by blast
qed

text \<open>
  C38: what a signature fixes. Two requests with the same canonical request, the text that is
  hashed and signed, agree on the method, the path, every query parameter, the host, every
  header's name and trimmed value, and the hash of the body: no part of a request can be
  changed, moved to another field or dropped without changing what is signed.
\<close>

theorem canonical_request_binds:
  assumes "signable a" "signable b" "newline \<notin> set h" "newline \<notin> set h'"
    and "fst (canonical_request a h) = fst (canonical_request b h')"
  shows "sg_method a = sg_method b \<and> canonical_uri a = canonical_uri b \<and>
    sorted_query (sg_query a) = sorted_query (sg_query b) \<and>
    canonical_headers a = canonical_headers b \<and> h = h'"
proof -
  let ?l = "\<lambda>rq. map header_line (canonical_headers rq)"
  have e: "[sg_method a, canonical_uri a, canonical_query (sg_query a)] @ ?l a @
        [[], join '';'' (map fst (canonical_headers a)), h] =
      [sg_method b, canonical_uri b, canonical_query (sg_query b)] @ ?l b @
        [[], join '';'' (map fst (canonical_headers b)), h']"
    using arg_cong [OF assms(5), of "split_byte newline"]
    unfolding canonical_request_split [OF assms(1,3)] canonical_request_split [OF assms(2,4)] .
  then have m: "sg_method a = sg_method b" "canonical_uri a = canonical_uri b"
    "canonical_query (sg_query a) = canonical_query (sg_query b)"
    by (simp_all only: append_Cons list.inject)
  from e have "?l a @ [[], join '';'' (map fst (canonical_headers a)), h] =
      ?l b @ [[], join '';'' (map fst (canonical_headers b)), h']" by (simp only: append_Cons append_Nil list.inject)
  then have both: "?l a = ?l b \<and> [[], join '';'' (map fst (canonical_headers a)), h] =
      [[], join '';'' (map fst (canonical_headers b)), h']"
    by (rule iffD1 [OF append_eq_append_conv, rotated]) simp
  note l = both [THEN conjunct1]
  from both [THEN conjunct2] have h: "h = h'" by (simp only: list.inject)
  note colon = signable_name [OF assms(1)] signable_name [OF assms(2)]
  have "inj_on header_line (set (canonical_headers a) \<union> set (canonical_headers b))"
  proof (rule inj_onI)
    fix x y
    assume "x \<in> set (canonical_headers a) \<union> set (canonical_headers b)"
      "y \<in> set (canonical_headers a) \<union> set (canonical_headers b)" and eq: "header_line x = header_line y"
    then have "CHR '':'' \<notin> set (fst x)" "CHR '':'' \<notin> set (fst y)" using colon by (metis UnE)+
    with eq show "x = y" by (rule header_line_inj)
  qed
  with l have "canonical_headers a = canonical_headers b" by (rule map_inj_on)
  with m h canonical_query_inj [OF m(3)] show ?thesis by blast
qed

definition demo_sig_request :: sig_request where
  "demo_sig_request = \<lparr>sg_method = ''POST'', sg_path = ''/v2/email/outbound-emails'', sg_query = [(''a'', [''x y''])],
     sg_host = ''email.us-east-1.amazonaws.com'', sg_headers = [(''Content-Type'', [''application/json''])]\<rparr>"

theorem canonical_request_binds_witness:
  "canonical_headers demo_sig_request =
     [(''content-type'', ''application/json''), (''host'', ''email.us-east-1.amazonaws.com'')] \<and>
   sg_method demo_sig_request = ''POST''"
proof -
  let ?r = "demo_sig_request\<lparr>sg_headers := [(''CONTENT-TYPE'', ['' application/json''])]\<rparr>"
  have "signable demo_sig_request" "signable ?r" "newline \<notin> set ''ab''"
    "fst (canonical_request demo_sig_request ''ab'') = fst (canonical_request ?r ''ab'')"
    "canonical_headers ?r = [(''content-type'', ''application/json''), (''host'', ''email.us-east-1.amazonaws.com'')]"
    "sg_method ?r = ''POST''" by code_simp+
  with canonical_request_binds [of demo_sig_request ?r "''ab''" "''ab''"] show ?thesis by simp
qed

end
