(* ===== verification/Providers.thy ===== *)
theory Providers
  imports SMTP_Out JSON_Body SigV4 "HOL-Library.AList"
begin

text \<open>
  \<open>core/transport\<close>: the provider transports \<open>postmark.go\<close>, \<open>resend.go\<close>, \<open>mailgun.go\<close>,
  \<open>ses.go\<close> and \<open>webhook.go\<close>, and the registry that maps a configured type to the functions
  validating its settings and building it. A send builds one HTTP request, has it answered and
  classifies the answer; request and outcome are both returned. The network, the decoding of a
  provider's reply, \<open>mime.FormatMediaType\<close>, URL parsing, the hash functions and the clock are
  parameters.
\<close>

section \<open>HTTP\<close>

record out_request =
  out_url :: string
  out_headers :: "(string \<times> string) list"
  out_body :: bytes

datatype http_answer =
  NoRequest string      \<comment> \<open>\<open>http.NewRequest\<close> failed, nothing was sent\<close>
| NoResponse string     \<comment> \<open>\<open>Client.Do\<close> failed\<close>
| Response int bytes

text \<open>
  \<open>he_unmarshal struct body\<close> is \<open>json.Unmarshal\<close> into that struct: the decoded string fields,
  empty when absent, or \<open>None\<close> on an error. \<open>he_split_url\<close> gives the escaped path, the query
  and the host.
\<close>

record http_env =
  he_render :: "header_error \<Rightarrow> string"
  he_answer :: "out_request \<Rightarrow> http_answer"
  he_unmarshal :: "string \<Rightarrow> bytes \<Rightarrow> (string \<Rightarrow> string) option"
  he_form_file :: "string \<Rightarrow> string"
  he_boundary :: string
  he_split_url :: "string \<Rightarrow> string \<times> (string \<times> string list) list \<times> string"
  he_crypto :: sig_crypto
  he_date :: string
  he_amz_date :: string
  he_parse_url :: "string \<Rightarrow> (string \<times> string) option"

definition set_header :: "string \<Rightarrow> string \<Rightarrow> (string \<times> string) list \<Rightarrow> (string \<times> string) list" where
  "set_header k v hs = filter (\<lambda>(n, _). n \<noteq> canonical_key k) hs @ [(canonical_key k, v)]"

definition response_limit :: nat where
  "response_limit = 65536"

definition provider_error :: "error_class \<Rightarrow> int \<Rightarrow> string option \<Rightarrow> string \<Rightarrow> send_error" where
  "provider_error cls status cause msg =
     TransportErr \<lparr>te_class = cls, te_status = status, te_cause = cause, te_message = msg\<rparr>"

text \<open>One exchange: the outcome, and the request if one was sent.\<close>

definition exchange ::
  "http_env \<Rightarrow> string \<Rightarrow> out_request \<Rightarrow> (int \<Rightarrow> bytes \<Rightarrow> send_outcome) \<Rightarrow> send_outcome \<times> out_request option" where
  "exchange H name rq classify =
     (case he_answer H rq of
        NoRequest c \<Rightarrow> (Inl (provider_error ErrTerminal 0 (Some c) (''build '' @ name @ '' request'')), None)
      | NoResponse c \<Rightarrow> (Inl (provider_error ErrTransient 0 (Some c) (name @ '' request failed'')), Some rq)
      | Response status body \<Rightarrow> (classify status (take response_limit body), Some rq))"

text \<open>The status switch of the four mail providers.\<close>

definition classify_status ::
  "string \<Rightarrow> (int \<Rightarrow> bool) \<Rightarrow> (bytes \<Rightarrow> string) \<Rightarrow> (bytes \<Rightarrow> string \<Rightarrow> string) \<Rightarrow> int \<Rightarrow> bytes \<Rightarrow> send_outcome" where
  "classify_status name accepted message_id error_message status body =
     (if accepted status then Inr (message_id body)
      else if status = 429 then
        Inl (provider_error ErrRateLimited status None (error_message body (name @ '' rate limit'')))
      else if status \<ge> 500 then
        Inl (provider_error ErrTransient status None (error_message body (name @ '' server error'')))
      else if status \<ge> 400 then
        Inl (provider_error ErrTerminal status None (error_message body (name @ '' rejected request'')))
      else Inl (provider_error ErrTerminal status None (''unexpected '' @ name @ '' status '' @ show_int status)))"

definition response_field :: "http_env \<Rightarrow> string \<Rightarrow> string \<Rightarrow> bytes \<Rightarrow> string" where
  "response_field H struct field body = (case he_unmarshal H struct body of None \<Rightarrow> [] | Some f \<Rightarrow> f field)"

definition response_message :: "http_env \<Rightarrow> string \<Rightarrow> string \<Rightarrow> bytes \<Rightarrow> string \<Rightarrow> string" where
  "response_message H struct field body fallback =
     (let s = response_field H struct field body in if s = [] then fallback else s)"

section \<open>JSON payloads\<close>

text \<open>Struct fields: \<open>omitempty\<close> leaves the zero value out; a nil slice is \<open>null\<close>.\<close>

definition opt_str :: "string \<Rightarrow> string \<Rightarrow> (string \<times> json) list" where
  "opt_str k s = (if s = [] then [] else [(k, JStr s)])"

definition opt_arr :: "string \<Rightarrow> json list \<Rightarrow> (string \<times> json) list" where
  "opt_arr k vs = (if vs = [] then [] else [(k, JArr vs)])"

definition json_strings :: "string list \<Rightarrow> json" where
  "json_strings ss = (if ss = [] then JNull else JArr (map JStr ss))"

definition header_json :: "header \<Rightarrow> json" where
  "header_json h = JObj [(''Name'', JStr (hdr_name h)), (''Value'', JStr (hdr_value h))]"

definition json_request :: "string \<Rightarrow> json \<Rightarrow> (string \<times> string) list \<Rightarrow> out_request" where
  "json_request url payload hs = \<lparr>out_url = url,
     out_headers = fold (\<lambda>(k, v). set_header k v) hs [], out_body = json_text payload\<rparr>"

section \<open>Postmark\<close>

record postmark =
  pm_api_key :: string
  pm_base_url :: string

definition new_postmark :: "string \<Rightarrow> string \<Rightarrow> postmark" where
  "new_postmark key base_url = \<lparr>pm_api_key = key,
     pm_base_url = (if base_url = [] then ''https://api.postmarkapp.com'' else base_url)\<rparr>"

definition postmark_payload :: "message \<Rightarrow> json" where
  "postmark_payload m = JObj
     ([(''From'', JStr (msg_from m)), (''To'', JStr (join '', '' (msg_to m)))] @
      opt_str ''ReplyTo'' (msg_reply_to m) @
      [(''Subject'', JStr (msg_subject m)), (''TextBody'', JStr (msg_body_text m))] @
      opt_str ''HtmlBody'' (msg_body_html m) @
      opt_arr ''Attachments'' (map (\<lambda>a. JObj [(''Name'', JStr (att_filename a)),
        (''Content'', JStr (base64 (att_data a))), (''ContentType'', JStr (att_content_type a))]) (msg_attachments m)) @
      opt_arr ''Headers'' (map header_json (msg_headers m)))"

definition postmark_request :: "postmark \<Rightarrow> message \<Rightarrow> out_request" where
  "postmark_request p m = json_request (pm_base_url p @ ''/email'') (postmark_payload m)
     [(''Content-Type'', ''application/json''), (''Accept'', ''application/json''),
      (''X-Postmark-Server-Token'', pm_api_key p)]"

definition postmark_send :: "http_env \<Rightarrow> postmark \<Rightarrow> message \<Rightarrow> send_outcome \<times> out_request option" where
  "postmark_send H p m =
     (case check_headers (he_render H) m of
        Some e \<Rightarrow> (Inl e, None)
      | None \<Rightarrow>
          exchange H ''postmark''
            (postmark_request p m)
            (classify_status ''postmark'' (\<lambda>s. s = 200 \<or> s = 202)
              (response_field H ''postmarkResponse'' ''MessageID'') (response_message H ''postmarkResponse'' ''Message'')))"

section \<open>Resend\<close>

record resend =
  rs_api_key :: string
  rs_base_url :: string

definition new_resend :: "string \<Rightarrow> string \<Rightarrow> resend" where
  "new_resend key base_url = \<lparr>rs_api_key = key,
     rs_base_url = (if base_url = [] then ''https://api.resend.com'' else base_url)\<rparr>"

text \<open>A map is marshalled in key order.\<close>

definition resend_headers :: "header list \<Rightarrow> (string \<times> string) list" where
  "resend_headers hs = sort_key fst (fold (\<lambda>h. AList.update (hdr_name h) (hdr_value h)) hs [])"

definition resend_payload :: "message \<Rightarrow> json" where
  "resend_payload m = JObj
     ([(''from'', JStr (msg_from m)), (''to'', json_strings (msg_to m))] @
      opt_str ''reply_to'' (msg_reply_to m) @
      [(''subject'', JStr (msg_subject m)), (''text'', JStr (msg_body_text m))] @
      opt_str ''html'' (msg_body_html m) @
      opt_arr ''attachments'' (map (\<lambda>a. JObj ([(''filename'', JStr (att_filename a)),
        (''content'', JStr (base64 (att_data a)))] @ opt_str ''content_type'' (att_content_type a))) (msg_attachments m)) @
      (if msg_headers m = [] then []
       else [(''headers'', JObj (map (\<lambda>(k, v). (k, JStr v)) (resend_headers (msg_headers m))))]))"

definition resend_request :: "resend \<Rightarrow> message \<Rightarrow> out_request" where
  "resend_request r m = json_request (rs_base_url r @ ''/emails'') (resend_payload m)
     [(''Content-Type'', ''application/json''), (''Accept'', ''application/json''),
      (''Authorization'', ''Bearer '' @ rs_api_key r)]"

definition resend_send :: "http_env \<Rightarrow> resend \<Rightarrow> message \<Rightarrow> send_outcome \<times> out_request option" where
  "resend_send H r m =
     (case check_headers (he_render H) m of
        Some e \<Rightarrow> (Inl e, None)
      | None \<Rightarrow>
          exchange H ''resend''
            (resend_request r m)
            (classify_status ''resend'' (\<lambda>s. s = 200)
              (response_field H ''resendSuccessResponse'' ''id'') (response_message H ''resendErrorResponse'' ''message'')))"

section \<open>Mailgun\<close>

record mailgun =
  mg_api_key :: string
  mg_domain :: string
  mg_base_url :: string

definition new_mailgun :: "string \<Rightarrow> string \<Rightarrow> string \<Rightarrow> mailgun" where
  "new_mailgun key domain base_url = \<lparr>mg_api_key = key, mg_domain = domain,
     mg_base_url = (if base_url = [] then ''https://api.mailgun.net'' else base_url)\<rparr>"

text \<open>\<open>WriteField\<close>; the names in use are constants and allowlisted header names, which need no quoting.\<close>

definition form_field :: "string \<Rightarrow> string \<Rightarrow> part" where
  "form_field name v = ([(''Content-Disposition'', ''form-data; name=\"'' @ name @ ''\"'')], v)"

definition mailgun_parts :: "http_env \<Rightarrow> message \<Rightarrow> part list" where
  "mailgun_parts H m =
     form_field ''from'' (msg_from m) # map (form_field ''to'') (msg_to m) @
     (if msg_reply_to m = [] then [] else [form_field ''h:Reply-To'' (msg_reply_to m)]) @
     [form_field ''subject'' (msg_subject m), form_field ''text'' (msg_body_text m)] @
     (if msg_body_html m = [] then [] else [form_field ''html'' (msg_body_html m)]) @
     map (\<lambda>h. form_field (''h:'' @ hdr_name h) (hdr_value h)) (msg_headers m) @
     map (\<lambda>a. ([(''Content-Disposition'', he_form_file H (att_filename a)), (''Content-Type'', att_content_type a)],
       att_data a)) (msg_attachments m)"

definition mailgun_request :: "http_env \<Rightarrow> mailgun \<Rightarrow> message \<Rightarrow> out_request" where
  "mailgun_request H g m =
     \<lparr>out_url = mg_base_url g @ ''/v3/'' @ mg_domain g @ ''/messages'',
      out_headers = fold (\<lambda>(k, v). set_header k v)
        [(''Content-Type'', ''multipart/form-data; boundary='' @ he_boundary H), (''Accept'', ''application/json''),
         (''Authorization'', ''Basic '' @ base64 (''api:'' @ mg_api_key g))] [],
      out_body = write_multipart (he_boundary H) (mailgun_parts H m)\<rparr>"

definition mailgun_send :: "http_env \<Rightarrow> mailgun \<Rightarrow> message \<Rightarrow> send_outcome \<times> out_request option" where
  "mailgun_send H g m =
     (case check_headers (he_render H) m of
        Some e \<Rightarrow> (Inl e, None)
      | None \<Rightarrow>
          exchange H ''mailgun''
            (mailgun_request H g m)
            (classify_status ''mailgun'' (\<lambda>s. s = 200)
              (response_field H ''mailgunSuccessResponse'' ''id'') (response_message H ''mailgunErrorResponse'' ''message'')))"

section \<open>AWS SES\<close>

record ses =
  se_credentials :: sig_credentials
  se_region :: string
  se_base_url :: string

definition new_ses :: "string \<Rightarrow> string \<Rightarrow> string \<Rightarrow> string \<Rightarrow> ses" where
  "new_ses akid secret region base_url = \<lparr>se_credentials = \<lparr>access_key_id = akid, secret_access_key = secret\<rparr>,
     se_region = region,
     se_base_url = (if base_url = [] then ''https://email.'' @ region @ ''.amazonaws.com'' else base_url)\<rparr>"

definition data_field :: "string \<Rightarrow> json" where
  "data_field s = JObj [(''Data'', JStr s)]"

definition ses_payload :: "message \<Rightarrow> json" where
  "ses_payload m = JObj
     ([(''FromEmailAddress'', JStr (msg_from m)),
       (''Destination'', JObj [(''ToAddresses'', json_strings (msg_to m))])] @
      (if msg_reply_to m = [] then [] else [(''ReplyToAddresses'', JArr [JStr (msg_reply_to m)])]) @
      [(''Content'', JObj [(''Simple'', JObj
         ([(''Subject'', data_field (msg_subject m)),
           (''Body'', JObj ((''Text'', data_field (msg_body_text m)) #
             (if msg_body_html m = [] then [] else [(''Html'', data_field (msg_body_html m))])))] @
          opt_arr ''Attachments'' (map (\<lambda>a. JObj ([(''RawContent'', JStr (base64 (att_data a))),
            (''FileName'', JStr (att_filename a))] @ opt_str ''ContentType'' (att_content_type a))) (msg_attachments m)) @
          opt_arr ''Headers'' (map header_json (msg_headers m))))])])"

definition ses_error_message :: "http_env \<Rightarrow> bytes \<Rightarrow> string \<Rightarrow> string" where
  "ses_error_message H body fallback =
     response_message H ''sesErrorResponse'' ''message'' body (response_message H ''sesErrorResponse'' ''Message'' body fallback)"

definition ses_request :: "http_env \<Rightarrow> ses \<Rightarrow> message \<Rightarrow> out_request" where
  "ses_request H s m =
     (let url = se_base_url s @ ''/v2/email/outbound-emails'';
          body = json_text (ses_payload m);
          (path, query, host) = he_split_url H url;
          signed = sign_request (he_crypto H)
            \<lparr>sg_method = ''POST'', sg_path = path, sg_query = query, sg_host = host,
             sg_headers = [(''Content-Type'', [''application/json'']), (''Accept'', [''application/json''])]\<rparr>
            body (se_credentials s) (se_region s) ''ses'' (he_date H) (he_amz_date H)
      in \<lparr>out_url = url, out_headers = map (\<lambda>(k, vs). (k, join '','' vs)) (sg_headers signed), out_body = body\<rparr>)"

definition ses_send :: "http_env \<Rightarrow> ses \<Rightarrow> message \<Rightarrow> send_outcome \<times> out_request option" where
  "ses_send H s m =
     (case check_headers (he_render H) m of
        Some e \<Rightarrow> (Inl e, None)
      | None \<Rightarrow>
          exchange H ''ses'' (ses_request H s m)
            (classify_status ''ses'' (\<lambda>st. st = 200)
              (response_field H ''sesSuccessResponse'' ''MessageId'') (ses_error_message H)))"

section \<open>Webhook\<close>

text \<open>The static headers in the order the map is walked, which Go leaves open.\<close>

record webhook_out =
  wo_url :: string
  wo_secret :: string
  wo_headers :: "(string \<times> string) list"

definition webhook_signature_header :: string where
  "webhook_signature_header = ''X-Posthorn-Signature''"

definition webhook_payload :: "message \<Rightarrow> json" where
  "webhook_payload m = JObj
     ([(''submission_id'', JStr (msg_submission_id m)), (''from'', JStr (msg_from m)), (''to'', json_strings (msg_to m))] @
      opt_str ''reply_to'' (msg_reply_to m) @
      [(''subject'', JStr (msg_subject m)), (''body_text'', JStr (msg_body_text m))] @
      opt_str ''body_html'' (msg_body_html m) @
      (if msg_fields m = [] then []
       else [(''fields'', JObj (map (\<lambda>(k, vs). (k, json_strings vs)) (sort_key fst (AList.clearjunk (msg_fields m)))))]))"

definition webhook_request :: "http_env \<Rightarrow> webhook_out \<Rightarrow> message \<Rightarrow> out_request" where
  "webhook_request H t m =
     (let body = json_text (webhook_payload m)
      in json_request (wo_url t) (webhook_payload m)
           ((''Content-Type'', ''application/json'') # wo_headers t @
            [(webhook_signature_header, ''sha256='' @ hex_encode (hmac_sha256 (he_crypto H) body (wo_secret t)))]))"

definition webhook_send :: "http_env \<Rightarrow> webhook_out \<Rightarrow> message \<Rightarrow> send_outcome \<times> out_request option" where
  "webhook_send H t m = exchange H ''webhook'' (webhook_request H t m)
     (\<lambda>status body.
        if 200 \<le> status \<and> status < 300 then Inr []
        else if status = 429 then Inl (provider_error ErrRateLimited status None ''webhook receiver rate limit'')
        else if status \<ge> 500 then Inl (provider_error ErrTransient status None ''webhook receiver server error'')
        else Inl (provider_error ErrTerminal status None ''webhook receiver rejected request''))"

end
