(* ===== verification/Transports.thy ===== *)
theory Transports
  imports Providers
begin

text \<open>
  The six transports behind the \<open>Transport\<close> interface, the settings each accepts and how it is
  built from them (\<open>validate...Settings\<close>, \<open>build...FromSettings\<close>), and the registry
  (\<open>registry.go\<close>) they enter at start-up. \<open>mail_provider\<close> is what the four header-carrying
  HTTP transports share; its lemmas are proved once and interpreted for each.
\<close>

section \<open>Settings\<close>

datatype transport =
  PostmarkT postmark | ResendT resend | MailgunT mailgun | SesT ses | WebhookT webhook_out | SmtpT smtp_out

definition validate_postmark :: "settings \<Rightarrow> string option" where
  "validate_postmark S = check (str_setting S ''api_key'' = []) ''postmark transport requires settings.api_key''"

definition build_postmark :: "settings \<Rightarrow> string + transport" where
  "build_postmark S =
     (if str_setting S ''api_key'' = [] then Inl ''postmark: api_key is empty''
      else Inr (PostmarkT (new_postmark (str_setting S ''api_key'') (str_setting S ''base_url''))))"

definition validate_resend :: "settings \<Rightarrow> string option" where
  "validate_resend S = check (str_setting S ''api_key'' = []) ''resend transport requires settings.api_key''"

definition build_resend :: "settings \<Rightarrow> string + transport" where
  "build_resend S =
     (if str_setting S ''api_key'' = [] then Inl ''resend: api_key is empty''
      else Inr (ResendT (new_resend (str_setting S ''api_key'') (str_setting S ''base_url''))))"

definition validate_mailgun :: "settings \<Rightarrow> string option" where
  "validate_mailgun S = first_some
     [check (str_setting S ''api_key'' = []) ''mailgun transport requires settings.api_key'',
      check (str_setting S ''domain'' = []) ''mailgun transport requires settings.domain'']"

definition build_mailgun :: "settings \<Rightarrow> string + transport" where
  "build_mailgun S =
     (if str_setting S ''api_key'' = [] then Inl ''mailgun: api_key is empty''
      else if str_setting S ''domain'' = [] then Inl ''mailgun: domain is empty''
      else Inr (MailgunT (new_mailgun (str_setting S ''api_key'') (str_setting S ''domain'') (str_setting S ''base_url''))))"

definition validate_ses :: "settings \<Rightarrow> string option" where
  "validate_ses S = first_some
     [check (str_setting S ''access_key_id'' = []) ''ses transport requires settings.access_key_id'',
      check (str_setting S ''secret_access_key'' = []) ''ses transport requires settings.secret_access_key'',
      check (str_setting S ''region'' = []) ''ses transport requires settings.region'']"

definition build_ses :: "settings \<Rightarrow> string + transport" where
  "build_ses S =
     (let akid = str_setting S ''access_key_id''; sak = str_setting S ''secret_access_key''; region = str_setting S ''region''
      in if akid = [] \<or> sak = [] \<or> region = [] then
           Inl ''ses: access_key_id, secret_access_key, and region all required''
         else Inr (SesT (new_ses akid sak region (str_setting S ''base_url''))))"

definition reserved_webhook_headers :: "string list" where
  "reserved_webhook_headers = [canonical_key webhook_signature_header, ''Content-Type'']"

fun check_webhook_headers :: "(string \<times> toml) list \<Rightarrow> string option" where
  "check_webhook_headers [] = None"
| "check_webhook_headers ((k, v) # hs) =
     (case v of
        TStr s \<Rightarrow>
          if canonical_key k \<in> set reserved_webhook_headers
          then Some (''webhook transport settings.headers['' @ k @ ''] is reserved'')
          else check_webhook_headers hs
      | _ \<Rightarrow> Some (''webhook transport settings.headers['' @ k @ ''] must be a string''))"

definition validate_webhook :: "http_env \<Rightarrow> settings \<Rightarrow> string option" where
  "validate_webhook H S = first_some
     [check (str_setting S ''url'' = []) ''webhook transport requires settings.url'',
      check (case he_parse_url H (str_setting S ''url'') of
          None \<Rightarrow> True
        | Some (scheme, host) \<Rightarrow> scheme \<noteq> ''http'' \<and> scheme \<noteq> ''https'' \<or> host = [])
        ''webhook transport url must be an absolute http(s) URL'',
      check (length (str_setting S ''secret'') < 16) ''webhook transport requires settings.secret of at least 16 bytes'',
      (case map_of S ''headers'' of
         None \<Rightarrow> None
       | Some (TTable hs) \<Rightarrow> check_webhook_headers hs
       | Some _ \<Rightarrow> Some ''webhook transport settings.headers must be a table of string values'')]"

definition header_settings :: "settings \<Rightarrow> (string \<times> string) list" where
  "header_settings S = (case map_of S ''headers'' of
      Some (TTable hs) \<Rightarrow> map (\<lambda>(k, v). (k, case v of TStr s \<Rightarrow> s | _ \<Rightarrow> [])) hs
    | _ \<Rightarrow> [])"

definition build_webhook :: "http_env \<Rightarrow> settings \<Rightarrow> string + transport" where
  "build_webhook H S =
     (case validate_webhook H S of
        Some e \<Rightarrow> Inl e
      | None \<Rightarrow> Inr (WebhookT \<lparr>wo_url = str_setting S ''url'', wo_secret = str_setting S ''secret'',
          wo_headers = header_settings S\<rparr>))"

section \<open>The registry\<close>

record provider_registration = registration +
  rg_build :: "settings \<Rightarrow> string + transport"

type_synonym providers = "(string \<times> provider_registration) list"

text \<open>\<open>Register\<close>: the left side is the panic of a programming error.\<close>

definition register :: "string \<Rightarrow> provider_registration \<Rightarrow> providers \<Rightarrow> string + providers" where
  "register typ reg R =
     (if typ = [] then Inl ''transport.Register: Type must not be empty''
      else if typ \<in> fst ` set R then Inl (''transport.Register: duplicate registration for '' @ typ)
      else Inr ((typ, reg) # R))"

definition known_types :: "providers \<Rightarrow> string list" where
  "known_types R = sort (map fst R)"

definition unknown_type_error :: "(string \<Rightarrow> string) \<Rightarrow> providers \<Rightarrow> string \<Rightarrow> string" where
  "unknown_type_error quote_go R typ =
     (if known_types R = [] then ''unknown transport type '' @ quote_go typ @ '' (no transports registered)''
      else ''unknown transport type '' @ quote_go typ @ '' (known: ['' @ join '' '' (known_types R) @ ''])'')"

definition provider_inits :: "http_env \<Rightarrow> providers" where
  "provider_inits H =
     [(''mailgun'', \<lparr>rg_validate = validate_mailgun, rg_carries_headers = True, rg_build = build_mailgun\<rparr>),
      (''postmark'', \<lparr>rg_validate = validate_postmark, rg_carries_headers = True, rg_build = build_postmark\<rparr>),
      (''resend'', \<lparr>rg_validate = validate_resend, rg_carries_headers = True, rg_build = build_resend\<rparr>),
      (''ses'', \<lparr>rg_validate = validate_ses, rg_carries_headers = True, rg_build = build_ses\<rparr>),
      (''smtp'', \<lparr>rg_validate = validate_smtp_out_settings, rg_carries_headers = True,
         rg_build = (\<lambda>S. map_sum id SmtpT (build_smtp_out S))\<rparr>),
      (''webhook'', \<lparr>rg_validate = validate_webhook H, rg_carries_headers = False, rg_build = build_webhook H\<rparr>)]"

fun register_all :: "providers \<Rightarrow> providers \<Rightarrow> string + providers" where
  "register_all [] R = Inr R"
| "register_all ((typ, reg) # inits) R =
     (case register typ reg R of Inl panic \<Rightarrow> Inl panic | Inr R1 \<Rightarrow> register_all inits R1)"

text \<open>What the configuration layer sees of it.\<close>

definition config_registry :: "providers \<Rightarrow> registry" where
  "config_registry R = map (\<lambda>(typ, reg). (typ, registration.truncate reg)) R"

section \<open>Sending\<close>

record transport_env =
  tp_http :: http_env
  tp_mime :: mime_env
  tp_relay :: relay

text \<open>What left the process: nothing, an HTTP request, or the commands of an SMTP session.\<close>

datatype traffic = NoTraffic | HttpTraffic out_request | SmtpTraffic "relay_cmd list"

definition over_http :: "send_outcome \<times> out_request option \<Rightarrow> send_outcome \<times> traffic" where
  "over_http x = (fst x, case snd x of None \<Rightarrow> NoTraffic | Some rq \<Rightarrow> HttpTraffic rq)"

definition transport_send :: "transport_env \<Rightarrow> transport \<Rightarrow> message \<Rightarrow> send_outcome \<times> traffic" where
  "transport_send E t m =
     (case t of
        PostmarkT p \<Rightarrow> over_http (postmark_send (tp_http E) p m)
      | ResendT r \<Rightarrow> over_http (resend_send (tp_http E) r m)
      | MailgunT g \<Rightarrow> over_http (mailgun_send (tp_http E) g m)
      | SesT s \<Rightarrow> over_http (ses_send (tp_http E) s m)
      | WebhookT w \<Rightarrow> over_http (webhook_send (tp_http E) w m)
      | SmtpT s \<Rightarrow> (case smtp_send s (tp_mime E) (tp_relay E) m of
            (r, cmds) \<Rightarrow> (r, if cmds = [] then NoTraffic else SmtpTraffic cmds)))"

section \<open>What the HTTP providers share\<close>

lemma over_http_eq:
  "over_http x = (r, w) \<longleftrightarrow> (w = NoTraffic \<and> x = (r, None) \<or> (\<exists>rq. w = HttpTraffic rq \<and> x = (r, Some rq)))"
  by (cases x) (auto simp: over_http_def split: option.splits)

text \<open>How an outcome relates to the traffic of an HTTP transport, given the statuses it accepts.\<close>

definition classified :: "http_env \<Rightarrow> (int \<Rightarrow> bool) \<Rightarrow> send_outcome \<Rightarrow> traffic \<Rightarrow> bool" where
  "classified H ok r w \<longleftrightarrow>
     (\<forall>rq status body. w = HttpTraffic rq \<and> he_answer H rq = Response status body \<longrightarrow>
        ((\<exists>mid. r = Inr mid) \<longleftrightarrow> ok status) \<and>
        (\<forall>e. r = Inl e \<longrightarrow> (is_retryable e \<longleftrightarrow> status = 429 \<or> status \<ge> 500) \<and>
          (\<exists>te. e = TransportErr te \<and> te_status te = status))) \<and>
     (\<forall>rq c. w = HttpTraffic rq \<and> he_answer H rq = NoResponse c \<longrightarrow> (\<exists>e. r = Inl e \<and> is_retryable e)) \<and>
     (w = NoTraffic \<longrightarrow> (\<exists>e. r = Inl e \<and> \<not> is_retryable e))"

lemma classified_exchange:
  assumes "over_http (exchange H name rq f) = (r, w)"
    and "\<And>status body. f status body = (if ok status then Inr (mid body)
      else Inl (provider_error (if status = 429 then ErrRateLimited else if status \<ge> 500 then ErrTransient else ErrTerminal)
        status None (msg status body)))"
  shows "classified H ok r w"
  using assms(1) by (cases "he_answer H rq")
    (auto simp: classified_def over_http_def exchange_def assms(2) provider_error_def split: if_splits)

locale mail_provider =
  fixes H :: http_env and name :: string and send :: "message \<Rightarrow> send_outcome \<times> out_request option"
    and request :: "message \<Rightarrow> out_request" and accepted :: "int \<Rightarrow> bool"
    and message_id :: "bytes \<Rightarrow> string" and error_message :: "bytes \<Rightarrow> string \<Rightarrow> string"
  assumes send_shape: "send m = (case check_headers (he_render H) m of
      Some e \<Rightarrow> (Inl e, None)
    | None \<Rightarrow> exchange H name (request m) (classify_status name accepted message_id error_message))"
begin

lemma request_sent:
  assumes "send m = (r, Some rq)"
  shows "validate_headers (msg_headers m) = None" "rq = request m"
  using assms by (auto simp: send_shape check_headers_def exchange_def split: option.splits http_answer.splits)

lemma nothing_sent:
  assumes "send m = (r, None)"
  shows "\<exists>e. r = Inl (TransportErr e) \<and> te_class e = ErrTerminal"
  using assms by (auto simp: send_shape check_headers_def exchange_def provider_error_def
    split: option.splits http_answer.splits)

lemma outcome:
  assumes "over_http (send m) = (r, w)"
  shows "classified H accepted r w"
proof (cases "check_headers (he_render H) m")
  case None
  then have "over_http (exchange H name (request m) (classify_status name accepted message_id error_message)) = (r, w)"
    using assms by (simp add: send_shape)
  then show ?thesis
    by (rule classified_exchange [where mid = message_id and msg = "\<lambda>status body.
          if status = 429 then error_message body (name @ '' rate limit'')
          else if status \<ge> 500 then error_message body (name @ '' server error'')
          else if status \<ge> 400 then error_message body (name @ '' rejected request'')
          else ''unexpected '' @ name @ '' status '' @ show_int status"])
      (simp add: classify_status_def)
next
  case (Some e)
  with assms show ?thesis
    by (auto simp: send_shape over_http_def classified_def check_headers_def split: option.splits)
qed

end

interpretation pm: mail_provider H "''postmark''" "postmark_send H p" "postmark_request p"
  "\<lambda>s. s = 200 \<or> s = 202" "response_field H ''postmarkResponse'' ''MessageID''"
  "response_message H ''postmarkResponse'' ''Message''" for H p
  by unfold_locales (simp add: postmark_send_def)

interpretation rs: mail_provider H "''resend''" "resend_send H p" "resend_request p"
  "\<lambda>s. s = 200" "response_field H ''resendSuccessResponse'' ''id''"
  "response_message H ''resendErrorResponse'' ''message''" for H p
  by unfold_locales (simp add: resend_send_def)

interpretation mg: mail_provider H "''mailgun''" "mailgun_send H p" "mailgun_request H p"
  "\<lambda>s. s = 200" "response_field H ''mailgunSuccessResponse'' ''id''"
  "response_message H ''mailgunErrorResponse'' ''message''" for H p
  by unfold_locales (simp add: mailgun_send_def)

interpretation se: mail_provider H "''ses''" "ses_send H p" "ses_request H p"
  "\<lambda>s. s = 200" "response_field H ''sesSuccessResponse'' ''MessageId''" "ses_error_message H" for H p
  by unfold_locales (simp add: ses_send_def)

text \<open>The one request an HTTP transport makes for a message.\<close>

definition http_request :: "http_env \<Rightarrow> transport \<Rightarrow> message \<Rightarrow> out_request option" where
  "http_request H t m =
     (case t of
        PostmarkT p \<Rightarrow> Some (postmark_request p m)
      | ResendT r \<Rightarrow> Some (resend_request r m)
      | MailgunT g \<Rightarrow> Some (mailgun_request H g m)
      | SesT s \<Rightarrow> Some (ses_request H s m)
      | WebhookT w \<Rightarrow> Some (webhook_request H w m)
      | SmtpT _ \<Rightarrow> None)"

lemma request_made:
  "transport_send E t m = (r, HttpTraffic rq) \<Longrightarrow> http_request (tp_http E) t m = Some rq"
  by (auto simp: transport_send_def over_http_eq http_request_def webhook_send_def exchange_def
    dest: pm.request_sent(2) rs.request_sent(2) mg.request_sent(2) se.request_sent(2)
    split: transport.splits prod.splits if_splits http_answer.splits)

lemma webhook_outcome:
  assumes "over_http (webhook_send H t m) = (r, w)"
  shows "classified H (\<lambda>status. 200 \<le> status \<and> status < 300) r w"
  using assms unfolding webhook_send_def
  by (rule classified_exchange [where mid = "\<lambda>_. []" and msg = "\<lambda>status _.
        if status = 429 then ''webhook receiver rate limit''
        else if status \<ge> 500 then ''webhook receiver server error'' else ''webhook receiver rejected request''"]) simp

section \<open>Outcomes\<close>

fun accepts :: "transport \<Rightarrow> int \<Rightarrow> bool" where
  "accepts (PostmarkT _) status \<longleftrightarrow> status = 200 \<or> status = 202"
| "accepts (WebhookT _) status \<longleftrightarrow> 200 \<le> status \<and> status < 300"
| "accepts _ status \<longleftrightarrow> status = 200"

lemma accepts_fun:
  "accepts (PostmarkT p) = (\<lambda>s. s = 200 \<or> s = 202)" "accepts (WebhookT x) = (\<lambda>s. 200 \<le> s \<and> s < 300)"
  "accepts (ResendT q) = (\<lambda>s. s = 200)" "accepts (MailgunT g) = (\<lambda>s. s = 200)" "accepts (SesT e) = (\<lambda>s. s = 200)"
  by (simp_all add: fun_eq_iff)

text \<open>
  C35: how an HTTP provider's answer is classified. A status the provider uses for acceptance
  is a success and nothing else is; a refusal is retryable exactly for 429 and 5xx and keeps
  its status; a request that got no answer is retryable; when no request left the process the
  failure is not. A message with a passthrough header that fails validation never leaves by a
  transport that carries headers.
\<close>

theorem provider_outcomes:
  assumes "transport_send E t m = (r, w)" "\<forall>s. t \<noteq> SmtpT s"
  shows "(\<forall>rq status body. w = HttpTraffic rq \<and> he_answer (tp_http E) rq = Response status body \<longrightarrow>
      ((\<exists>mid. r = Inr mid) \<longleftrightarrow> accepts t status) \<and>
      (\<forall>e. r = Inl e \<longrightarrow> (is_retryable e \<longleftrightarrow> status = 429 \<or> status \<ge> 500) \<and>
        (\<exists>te. e = TransportErr te \<and> te_status te = status))) \<and>
    (\<forall>rq c. w = HttpTraffic rq \<and> he_answer (tp_http E) rq = NoResponse c \<longrightarrow> (\<exists>e. r = Inl e \<and> is_retryable e)) \<and>
    (w = NoTraffic \<longrightarrow> (\<exists>e. r = Inl e \<and> \<not> is_retryable e)) \<and>
    (validate_headers (msg_headers m) \<noteq> None \<and> (\<forall>x. t \<noteq> WebhookT x) \<longrightarrow> w = NoTraffic)"
proof -
  have "classified (tp_http E) (accepts t) r w"
    using assms by (cases t) (auto simp: transport_send_def accepts_fun
      intro: pm.outcome rs.outcome mg.outcome se.outcome webhook_outcome)
  moreover have "w = NoTraffic" if "validate_headers (msg_headers m) \<noteq> None" "\<forall>x. t \<noteq> WebhookT x"
  proof (cases w)
    case (HttpTraffic rq)
    with assms that show ?thesis
      using pm.request_sent(1) rs.request_sent(1) mg.request_sent(1) se.request_sent(1)
      by (cases t) (auto simp: transport_send_def over_http_eq)
  qed (use assms in \<open>auto simp: transport_send_def over_http_def split: transport.splits option.splits\<close>)
  ultimately show ?thesis unfolding classified_def by blast
qed

text \<open>A provider that answers 503 to everything.\<close>

definition demo_http :: http_env where
  "demo_http = \<lparr>he_render = (\<lambda>_. []), he_answer = (\<lambda>_. Response 503 []), he_unmarshal = (\<lambda>_ _. None),
     he_form_file = (\<lambda>_. []), he_boundary = ''b'', he_split_url = (\<lambda>_. (''/'', [], ''h'')),
     he_crypto = \<lparr>sha256 = (\<lambda>_. ''h''), hmac_sha256 = (\<lambda>_ _. ''m'')\<rparr>, he_date = ''20240101'',
     he_amz_date = ''20240101T000000Z'', he_parse_url = (\<lambda>_. Some (''https'', ''h''))\<rparr>"

definition demo_env :: transport_env where
  "demo_env = \<lparr>tp_http = demo_http, tp_mime = demo_mime_env, tp_relay = demo_relay\<rparr>"

theorem provider_outcomes_witness:
  "\<exists>e. fst (transport_send demo_env (PostmarkT (new_postmark ''key'' [])) demo_out_message) = Inl e \<and> is_retryable e"
proof -
  let ?t = "PostmarkT (new_postmark ''key'' [])"
  let ?s = "transport_send demo_env ?t demo_out_message"
  have "check_headers (he_render demo_http) demo_out_message = None"
    by (simp add: check_headers_def validate_headers_def demo_out_message_def empty_message_def)
  then have w: "snd ?s = HttpTraffic (postmark_request (new_postmark ''key'' []) demo_out_message)"
    "fst ?s \<noteq> Inr mid" for mid
    by (simp_all add: transport_send_def over_http_def postmark_send_def exchange_def demo_env_def demo_http_def
      classify_status_def)
  have a: "he_answer (tp_http demo_env) rq = Response 503 []" for rq by (simp add: demo_env_def demo_http_def)
  from w(2) obtain e where e: "fst ?s = Inl e" by (cases "fst ?s") auto
  have "is_retryable e \<longleftrightarrow> (503 :: int) = 429 \<or> (503 :: int) \<ge> 500"
    using provider_outcomes [OF prod.collapse [symmetric], of ?t demo_env demo_out_message,
        THEN conjunct1, THEN spec, THEN spec, THEN spec, THEN mp, OF _ conjI [OF w(1) a]] e by simp
  with e show ?thesis by simp
qed

section \<open>What a provider receives\<close>

fun json_payload :: "transport \<Rightarrow> message \<Rightarrow> json option" where
  "json_payload (PostmarkT _) m = Some (postmark_payload m)"
| "json_payload (ResendT _) m = Some (resend_payload m)"
| "json_payload (SesT _) m = Some (ses_payload m)"
| "json_payload (WebhookT _) m = Some (webhook_payload m)"
| "json_payload _ m = None"

lemma set_header_names: "map fst hs = map fst hs' \<Longrightarrow> map fst (set_header k v hs) = map fst (set_header k v' hs')"
proof -
  have "map fst (filter (\<lambda>(n, _). n \<noteq> x) hs) = filter (\<lambda>n. n \<noteq> x) (map fst hs)" for x and hs :: "(string \<times> string) list"
    by (induction hs) auto
  then show "map fst hs = map fst hs' \<Longrightarrow> ?thesis" by (simp add: set_header_def)
qed

lemma ses_header_names: "map fst (out_headers (ses_request H s m)) = map fst (out_headers (ses_request H s m'))"
  by (simp add: ses_request_def sign_request_def Let_def set_value_def case_prod_beta)



section \<open>Credentials\<close>

fun auth_header :: "transport \<Rightarrow> string" where
  "auth_header (PostmarkT _) = ''X-Postmark-Server-Token''"
| "auth_header (WebhookT _) = webhook_signature_header"
| "auth_header _ = ''Authorization''"

text \<open>Two transports that differ at most in their secret.\<close>

fun same_but_secret :: "transport \<Rightarrow> transport \<Rightarrow> bool" where
  "same_but_secret (PostmarkT p) (PostmarkT q) \<longleftrightarrow> pm_base_url p = pm_base_url q"
| "same_but_secret (ResendT p) (ResendT q) \<longleftrightarrow> rs_base_url p = rs_base_url q"
| "same_but_secret (MailgunT p) (MailgunT q) \<longleftrightarrow> mg_base_url p = mg_base_url q \<and> mg_domain p = mg_domain q"
| "same_but_secret (SesT p) (SesT q) \<longleftrightarrow> se_base_url p = se_base_url q \<and> se_region p = se_region q \<and>
     access_key_id (se_credentials p) = access_key_id (se_credentials q)"
| "same_but_secret (WebhookT p) (WebhookT q) \<longleftrightarrow> wo_url p = wo_url q \<and> wo_headers p = wo_headers q"
| "same_but_secret _ _ \<longleftrightarrow> False"

definition other_headers :: "string \<Rightarrow> out_request \<Rightarrow> (string \<times> string) list" where
  "other_headers h rq = filter (\<lambda>(k, _). k \<noteq> h) (out_headers rq)"

lemma filter_set_header:
  "canonical_key k = k \<Longrightarrow> filter (\<lambda>(n, _). n \<noteq> k) (set_header k v hs) = filter (\<lambda>(n, _). n \<noteq> k) hs"
  by (simp add: set_header_def)

lemma canonical_auth_headers:
  "canonical_key ''X-Postmark-Server-Token'' = ''X-Postmark-Server-Token''"
  "canonical_key ''Authorization'' = ''Authorization''"
  "canonical_key webhook_signature_header = webhook_signature_header"
  by code_simp+

text \<open>
  C37: a secret travels only in its own header. Sending the same message through two transports
  that differ only in the API key, the AWS secret or the webhook secret makes requests with
  the same URL, the same body and the same headers apart from the one that authenticates.
\<close>

theorem secret_confined:
  assumes "transport_send E t m = (r, HttpTraffic rq)" "transport_send E t' m = (r', HttpTraffic rq')"
    and "same_but_secret t t'"
  shows "out_url rq = out_url rq' \<and> out_body rq = out_body rq' \<and>
    other_headers (auth_header t) rq = other_headers (auth_header t) rq'"
proof -
  note made = request_made [OF assms(1)] request_made [OF assms(2)]
  show ?thesis
  proof (cases t)
    case (SesT p)
    with assms(3) obtain q where q: "t' = SesT q" "se_base_url p = se_base_url q" "se_region p = se_region q"
      "access_key_id (se_credentials p) = access_key_id (se_credentials q)" by (cases t') auto
    have "map (\<lambda>(k, vs). (k, join '','' vs)) (filter (\<lambda>(k, _). k \<noteq> x) hs) =
        filter (\<lambda>(k, _). k \<noteq> x) (map (\<lambda>(k, vs). (k, join '','' vs)) hs)" for x and hs :: "(string \<times> string list) list"
      by (induction hs) auto
    with made SesT q show ?thesis
      by (auto simp: http_request_def ses_request_def sign_request_def Let_def set_value_def other_headers_def
        case_prod_beta)
  qed (use made assms(3) in \<open>cases t'; auto simp: http_request_def postmark_request_def resend_request_def
    mailgun_request_def webhook_request_def json_request_def other_headers_def Let_def canonical_auth_headers
    filter_set_header simp del: canonical_key_def\<close>)+
qed

lemma demo_postmark_sent:
  "snd (transport_send demo_env (PostmarkT p) demo_out_message) = HttpTraffic (postmark_request p demo_out_message)"
proof -
  have "check_headers (he_render demo_http) demo_out_message = None"
    by (simp add: check_headers_def validate_headers_def demo_out_message_def empty_message_def)
  then show ?thesis
    by (simp add: transport_send_def over_http_def postmark_send_def exchange_def demo_env_def demo_http_def)
qed

theorem secret_confined_witness:
  "other_headers ''X-Postmark-Server-Token'' (postmark_request (new_postmark ''key-1'' []) demo_out_message) =
     other_headers ''X-Postmark-Server-Token'' (postmark_request (new_postmark ''key-2'' []) demo_out_message)"
proof -
  have "transport_send demo_env (PostmarkT p) demo_out_message = (fst (transport_send demo_env (PostmarkT p) demo_out_message),
      HttpTraffic (postmark_request p demo_out_message))" for p
    using demo_postmark_sent [of p] by (metis prod.collapse)
  from secret_confined [OF this this, of "new_postmark ''key-1'' []" "new_postmark ''key-2'' []"]
  show ?thesis by (simp add: new_postmark_def)
qed

section \<open>The registered transports\<close>

definition all_providers :: "http_env \<Rightarrow> providers" where
  "all_providers H = rev (provider_inits H)"

lemma register_all_inits: "register_all (provider_inits H) [] = Inr (all_providers H)"
  by (simp add: provider_inits_def all_providers_def register_def)

lemma smtp_out_builds:
  assumes "validate_smtp_out_settings S = None"
  shows "\<exists>t. build_smtp_out S = Inr t"
proof -
  from assms have "str_setting S ''host'' \<noteq> []" "str_setting S ''username'' \<noteq> []" "str_setting S ''password'' \<noteq> []"
    "\<exists>mode. smtp_tls_mode_from_settings S = Inr mode"
    "\<exists>v n. map_of S ''port'' = Some v \<and> coerce_int v = Some n \<and> 0 < n"
    by (auto simp: validate_smtp_out_settings_def first_some_None check_None split: option.splits sum.splits)
  then show ?thesis by (auto simp: build_smtp_out_def Let_def)
qed

fun transport_type :: "transport \<Rightarrow> string" where
  "transport_type (PostmarkT _) = ''postmark''"
| "transport_type (ResendT _) = ''resend''"
| "transport_type (MailgunT _) = ''mailgun''"
| "transport_type (SesT _) = ''ses''"
| "transport_type (WebhookT _) = ''webhook''"
| "transport_type (SmtpT _) = ''smtp''"

text \<open>
  What validates builds. The registrations of the six transport files do not collide, the
  types are the six names in order, and settings a registered type's \<open>Validate\<close> accepts are
  always built by its \<open>Build\<close>, into a transport of that type.
\<close>

theorem valid_settings_build:
  "\<exists>R. register_all (provider_inits H) [] = Inr R \<and>
     known_types R = [''mailgun'', ''postmark'', ''resend'', ''ses'', ''smtp'', ''webhook''] \<and>
     (\<forall>typ reg S. map_of R typ = Some reg \<and> rg_validate reg S = None \<longrightarrow>
        (\<exists>t. rg_build reg S = Inr t \<and> transport_type t = typ))"
proof (rule exI [of _ "all_providers H"], intro conjI allI impI)
  show "register_all (provider_inits H) [] = Inr (all_providers H)" by (rule register_all_inits)
  have "map fst (all_providers H) = [''webhook'', ''smtp'', ''ses'', ''resend'', ''postmark'', ''mailgun'']"
    by (simp add: all_providers_def provider_inits_def)
  moreover have "sort [''webhook'', ''smtp'', ''ses'', ''resend'', ''postmark'', ''mailgun''] =
      [''mailgun'', ''postmark'', ''resend'', ''ses'', ''smtp'', ''webhook'']" by code_simp
  ultimately show "known_types (all_providers H) = [''mailgun'', ''postmark'', ''resend'', ''ses'', ''smtp'', ''webhook'']"
    by (simp only: known_types_def)
next
  fix ty reg S
  assume a: "map_of (all_providers H) ty = Some reg \<and> rg_validate reg S = None"
  then have "(ty, reg) \<in> set (provider_inits H)" by (metis all_providers_def map_of_SomeD set_rev)
  with a show "\<exists>t. rg_build reg S = Inr t \<and> transport_type t = ty"
    using smtp_out_builds [of S]
    by (auto simp: provider_inits_def validate_postmark_def build_postmark_def validate_resend_def build_resend_def
      validate_mailgun_def build_mailgun_def validate_ses_def build_ses_def build_webhook_def first_some_None check_None)
qed

theorem valid_settings_build_witness:
  "\<exists>t. build_postmark [(''api_key'', TStr ''k'')] = Inr t \<and> transport_type t = ''postmark''"
proof -
  let ?S = "[(''api_key'', TStr ''k'')]"
  from valid_settings_build [of demo_http] obtain R where
    R: "register_all (provider_inits demo_http) [] = Inr R" and
    b: "\<forall>ty reg S. map_of R ty = Some reg \<and> rg_validate reg S = None \<longrightarrow> (\<exists>t. rg_build reg S = Inr t \<and> transport_type t = ty)"
    by blast
  from R have "R = all_providers demo_http" by (simp add: register_all_inits)
  then have "map_of R ''postmark'' =
      Some \<lparr>rg_validate = validate_postmark, rg_carries_headers = True, rg_build = build_postmark\<rparr>"
    by (simp add: all_providers_def provider_inits_def)
  moreover have "validate_postmark ?S = None" by (simp add: validate_postmark_def str_setting_def check_def)
  ultimately show ?thesis using b by fastforce
qed

end
