(* ===== verification/Metrics.thy ===== *)
theory Metrics
  imports Prelude Go_Float "HOL-Library.AList" "HOL-Library.List_Lexorder" "HOL-Library.Signed_Division"
begin

text \<open>
  \<open>core/metrics\<close>: counters, gauges and histograms keyed by label values, their text exposition,
  the registry, and the recorder the rest of the program calls. A panic is the left side of a
  sum, or \<open>None\<close> where the text of an exposition is built. Locks and writer errors are not
  modelled; \<open>fmt_g\<close> is the \<open>%g\<close> rendering of a float.
\<close>

section \<open>Labels\<close>

abbreviation nl :: char where
  "nl \<equiv> CHR 0x0A"

definition label_separator :: char where
  "label_separator = CHR 0x00"

definition encode_label_values :: "string list \<Rightarrow> string" where
  "encode_label_values vs = join [label_separator] vs"

definition decode_label_values :: "string \<Rightarrow> string list" where
  "decode_label_values key = (if key = [] then [] else split_byte label_separator key)"

fun escape_label_value :: "string \<Rightarrow> string" where
  "escape_label_value [] = []"
| "escape_label_value (c # s) =
     (if c = CHR 0x22 then [CHR 0x5C, CHR 0x22]
      else if c = CHR 0x5C then [CHR 0x5C, CHR 0x5C]
      else if c = nl then [CHR 0x5C, CHR ''n'']
      else [c]) @ escape_label_value s"

fun escape_help :: "string \<Rightarrow> string" where
  "escape_help [] = []"
| "escape_help (c # s) =
     (if c = CHR 0x5C then [CHR 0x5C, CHR 0x5C] else if c = nl then [CHR 0x5C, CHR ''n''] else [c]) @ escape_help s"

definition label_pair :: "string \<Rightarrow> string \<Rightarrow> string" where
  "label_pair name v = name @ [CHR ''='', CHR 0x22] @ escape_label_value v @ [CHR 0x22]"

text \<open>\<open>values[i]\<close> for every label name: out of range is a panic.\<close>

fun label_pairs :: "string list \<Rightarrow> string list \<Rightarrow> string list option" where
  "label_pairs [] vs = Some []"
| "label_pairs (n # ns) [] = None"
| "label_pairs (n # ns) (v # vs) = map_option ((#) (label_pair n v)) (label_pairs ns vs)"

definition render_labels_with_values :: "string list \<Rightarrow> string list \<Rightarrow> string option" where
  "render_labels_with_values names vs =
     (if names = [] then Some []
      else map_option (\<lambda>ps. CHR ''{'' # join '','' ps @ ''}'') (label_pairs names vs))"

definition render_labels :: "string list \<Rightarrow> string \<Rightarrow> string option" where
  "render_labels names key =
     (if names = [] then Some [] else render_labels_with_values names (decode_label_values key))"

definition render_labels_with_extra :: "string list \<Rightarrow> string list \<Rightarrow> string \<Rightarrow> string \<Rightarrow> string option" where
  "render_labels_with_extra names vs extra_key extra_value =
     map_option (\<lambda>ps. CHR ''{'' # concat (map (\<lambda>p. p @ '','') ps) @ label_pair extra_key extra_value @ ''}'')
       (label_pairs names vs)"

section \<open>Counters, gauges and histograms\<close>

record counter =
  ct_name :: string
  ct_help :: string
  ct_labels :: "string list"
  ct_values :: "(string \<times> int64) list"

record gauge =
  ga_name :: string
  ga_help :: string
  ga_labels :: "string list"
  ga_values :: "(string \<times> rat) list"

record histogram_series =
  hs_buckets :: "int64 list"
  hs_sum :: rat
  hs_count :: int64

record histogram =
  hi_name :: string
  hi_help :: string
  hi_labels :: "string list"
  hi_buckets :: "rat list"
  hi_series :: "(string \<times> histogram_series) list"

definition new_counter :: "string \<Rightarrow> string \<Rightarrow> string list \<Rightarrow> counter" where
  "new_counter name help labels = \<lparr>ct_name = name, ct_help = help, ct_labels = labels, ct_values = []\<rparr>"

definition new_gauge :: "string \<Rightarrow> string \<Rightarrow> string list \<Rightarrow> gauge" where
  "new_gauge name help labels = \<lparr>ga_name = name, ga_help = help, ga_labels = labels, ga_values = []\<rparr>"

definition new_histogram :: "string \<Rightarrow> string \<Rightarrow> rat list \<Rightarrow> string list \<Rightarrow> string + histogram" where
  "new_histogram name help buckets labels =
     (if \<not> sorted_wrt (<) buckets then
        Inl (''metrics.NewHistogram '' @ name @ '': buckets must be sorted ascending'')
      else Inr \<lparr>hi_name = name, hi_help = help, hi_labels = labels, hi_buckets = buckets, hi_series = []\<rparr>)"

definition label_mismatch :: "string \<Rightarrow> string \<Rightarrow> string list \<Rightarrow> string list \<Rightarrow> string" where
  "label_mismatch kind name got want =
     ''metrics.'' @ kind @ '' '' @ name @ '': got '' @ show_int (int (length got)) @ '' label values, want '' @
     show_int (int (length want))"

definition counter_add :: "int64 \<Rightarrow> string list \<Rightarrow> counter \<Rightarrow> string + counter" where
  "counter_add delta vs c =
     (if sint delta < 0 then Inl ''metrics.Counter: negative delta''
      else if length vs \<noteq> length (ct_labels c) then Inl (label_mismatch ''Counter'' (ct_name c) vs (ct_labels c))
      else Inr (c\<lparr>ct_values := AList.map_default (encode_label_values vs) delta (\<lambda>n. n + delta) (ct_values c)\<rparr>))"

definition counter_inc :: "string list \<Rightarrow> counter \<Rightarrow> string + counter" where
  "counter_inc vs c = counter_add 1 vs c"

definition gauge_set :: "rat \<Rightarrow> string list \<Rightarrow> gauge \<Rightarrow> string + gauge" where
  "gauge_set v vs g =
     (if length vs \<noteq> length (ga_labels g) then Inl (label_mismatch ''Gauge'' (ga_name g) vs (ga_labels g))
      else Inr (g\<lparr>ga_values := AList.update (encode_label_values vs) v (ga_values g)\<rparr>))"

definition observe_series :: "rat list \<Rightarrow> rat \<Rightarrow> histogram_series \<Rightarrow> histogram_series" where
  "observe_series buckets x s =
     s\<lparr>hs_count := hs_count s + 1, hs_sum := rnd64 (hs_sum s + x),
       hs_buckets := map2 (\<lambda>ub n. if x \<le> ub then n + 1 else n) buckets (hs_buckets s)\<rparr>"

definition empty_series :: "rat list \<Rightarrow> histogram_series" where
  "empty_series buckets = \<lparr>hs_buckets = map (\<lambda>_. 0) buckets, hs_sum = 0, hs_count = 0\<rparr>"

definition histogram_observe :: "rat \<Rightarrow> string list \<Rightarrow> histogram \<Rightarrow> string + histogram" where
  "histogram_observe x vs h =
     (if length vs \<noteq> length (hi_labels h) then Inl (label_mismatch ''Histogram'' (hi_name h) vs (hi_labels h))
      else Inr (h\<lparr>hi_series := AList.map_default (encode_label_values vs)
        (observe_series (hi_buckets h) x (empty_series (hi_buckets h)))
        (observe_series (hi_buckets h) x) (hi_series h)\<rparr>))"

section \<open>Exposition\<close>

definition family_header :: "string \<Rightarrow> string \<Rightarrow> string \<Rightarrow> string" where
  "family_header name help kind =
     ''# HELP '' @ name @ '' '' @ escape_help help @ [nl] @ ''# TYPE '' @ name @ '' '' @ kind @ [nl]"

definition sample_line :: "string \<Rightarrow> string \<Rightarrow> string \<Rightarrow> string" where
  "sample_line name labels v = name @ labels @ '' '' @ v @ [nl]"

definition show_int64 :: "int64 \<Rightarrow> string" where
  "show_int64 n = show_int (sint n)"

fun concat_all :: "string option list \<Rightarrow> string option" where
  "concat_all [] = Some []"
| "concat_all (x # xs) = (case x of None \<Rightarrow> None | Some s \<Rightarrow> map_option ((@) s) (concat_all xs))"

definition sorted_series :: "(string \<times> 'v) list \<Rightarrow> (string \<times> 'v) list" where
  "sorted_series al = sort_key fst al"

definition emit_counter :: "counter \<Rightarrow> string option" where
  "emit_counter c = map_option ((@) (family_header (ct_name c) (ct_help c) ''counter''))
     (concat_all (map (\<lambda>(k, n). map_option (\<lambda>l. sample_line (ct_name c) l (show_int64 n)) (render_labels (ct_labels c) k))
       (sorted_series (ct_values c))))"

definition emit_gauge :: "(rat \<Rightarrow> string) \<Rightarrow> gauge \<Rightarrow> string option" where
  "emit_gauge fmt_g g = map_option ((@) (family_header (ga_name g) (ga_help g) ''gauge''))
     (concat_all (map (\<lambda>(k, v). map_option (\<lambda>l. sample_line (ga_name g) l (fmt_g v)) (render_labels (ga_labels g) k))
       (sorted_series (ga_values g))))"

definition emit_series :: "(rat \<Rightarrow> string) \<Rightarrow> histogram \<Rightarrow> string \<times> histogram_series \<Rightarrow> string option" where
  "emit_series fmt_g h ks =
     (let (k, s) = ks; vs = decode_label_values k;
          bucket = (\<lambda>bound n. map_option (\<lambda>l. sample_line (hi_name h @ ''_bucket'') l (show_int64 n))
            (render_labels_with_extra (hi_labels h) vs ''le'' bound))
      in concat_all (map2 (\<lambda>ub n. bucket (fmt_g ub) n) (hi_buckets h) (hs_buckets s) @
           [bucket ''+Inf'' (hs_count s),
            map_option (\<lambda>l. sample_line (hi_name h @ ''_sum'') l (fmt_g (hs_sum s))) (render_labels (hi_labels h) k),
            map_option (\<lambda>l. sample_line (hi_name h @ ''_count'') l (show_int64 (hs_count s))) (render_labels (hi_labels h) k)]))"

definition emit_histogram :: "(rat \<Rightarrow> string) \<Rightarrow> histogram \<Rightarrow> string option" where
  "emit_histogram fmt_g h = map_option ((@) (family_header (hi_name h) (hi_help h) ''histogram''))
     (concat_all (map (emit_series fmt_g h) (sorted_series (hi_series h))))"

section \<open>The registry\<close>

datatype collector = CounterC counter | GaugeC gauge | HistogramC histogram

fun collector_name :: "collector \<Rightarrow> string" where
  "collector_name (CounterC c) = ct_name c"
| "collector_name (GaugeC g) = ga_name g"
| "collector_name (HistogramC h) = hi_name h"

fun emit_collector :: "(rat \<Rightarrow> string) \<Rightarrow> collector \<Rightarrow> string option" where
  "emit_collector fmt_g (CounterC c) = emit_counter c"
| "emit_collector fmt_g (GaugeC g) = emit_gauge fmt_g g"
| "emit_collector fmt_g (HistogramC h) = emit_histogram fmt_g h"

definition register_metric :: "collector \<Rightarrow> collector list \<Rightarrow> string + collector list" where
  "register_metric c R =
     (if list_ex (\<lambda>x. collector_name x = collector_name c) R
      then Inl (''metrics.Register: duplicate metric name '' @ collector_name c)
      else Inr (R @ [c]))"

definition emit_registry :: "(rat \<Rightarrow> string) \<Rightarrow> collector list \<Rightarrow> string option" where
  "emit_registry fmt_g R = concat_all (map (emit_collector fmt_g) (sort_key collector_name R))"

section \<open>Handlers\<close>

text \<open>Content type and body; the status is always 200.\<close>

definition healthz :: "bool option \<Rightarrow> string \<times> string" where
  "healthz storage_healthy =
     (case storage_healthy of
        None \<Rightarrow> (''text/plain; charset=utf-8'', ''ok'')
      | Some healthy \<Rightarrow> (''application/json'',
          ''{\"status\":\"ok\",\"storage\":\"'' @ (if healthy then ''ok'' else ''degraded'') @ ''\"}''))"

definition metrics_page :: "(rat \<Rightarrow> string) \<Rightarrow> collector list \<Rightarrow> string \<times> string option" where
  "metrics_page fmt_g R = (''text/plain; version=0.0.4; charset=utf-8'', emit_registry fmt_g R)"

section \<open>Reading an exposition back\<close>

text \<open>A scraper's reading of a quoted label value, up to the closing quote.\<close>

fun read_label_value :: "string \<Rightarrow> (string \<times> string) option" where
  "read_label_value [] = None"
| "read_label_value (c # s) =
     (if c = CHR 0x22 then Some ([], s)
      else if c \<noteq> CHR 0x5C then (if c = nl then None else map_option (apfst ((#) c)) (read_label_value s))
      else case s of
        [] \<Rightarrow> None
      | x # t \<Rightarrow> map_option (apfst ((#) (if x = CHR ''n'' then nl else x))) (read_label_value t))"

text \<open>Label pairs up to the closing brace.\<close>

fun read_labels :: "nat \<Rightarrow> string \<Rightarrow> ((string \<times> string) list \<times> string) option" where
  "read_labels 0 s = None"
| "read_labels (Suc n) s =
     (case cut_byte (CHR ''='') s of
        Some (name, q # t) \<Rightarrow>
          if q \<noteq> CHR 0x22 then None
          else (case read_label_value t of
              Some (v, c # u) \<Rightarrow>
                if c = CHR '','' then map_option (apfst ((#) (name, v))) (read_labels n u)
                else if c = CHR ''}'' then Some ([(name, v)], u) else None
            | _ \<Rightarrow> None)
      | _ \<Rightarrow> None)"

lemma read_escape_label: "read_label_value (escape_label_value v @ CHR 0x22 # r) = Some (v, r)"
  by (induction v) auto

lemma read_label_pairs:
  "\<lbrakk>label_pairs ns vs = Some ps; ns \<noteq> []; \<forall>n \<in> set ns. CHR ''='' \<notin> set n; length ns \<le> k\<rbrakk> \<Longrightarrow>
     read_labels k (join '','' ps @ CHR ''}'' # r) = Some (zip ns vs, r)"
proof (induction ns vs arbitrary: ps k rule: label_pairs.induct)
  case (3 n ns v vs)
  from "3.prems"(1) obtain qs where q: "label_pairs ns vs = Some qs" and ps: "ps = label_pair n v # qs" by auto
  from "3.prems"(4) obtain j where k: "k = Suc j" "length ns \<le> j" by (cases k) auto
  have cut: "cut_byte (CHR ''='') (label_pair n v @ t) = Some (n, CHR 0x22 # escape_label_value v @ CHR 0x22 # t)" for t
    using "3.prems"(3) cut_byte_append [of "CHR ''=''" n] by (simp add: label_pair_def)
  show ?case
  proof (cases ns)
    case Nil
    with q ps k cut show ?thesis by (auto simp: read_escape_label)
  next
    case (Cons m ms)
    with q obtain w ws where "qs = w # ws" by (cases vs) auto
    moreover have "read_labels j (join '','' qs @ CHR ''}'' # r) = Some (zip ns vs, r)"
      using "3.IH" [OF q _ _ k(2)] "3.prems"(3) Cons by simp
    ultimately show ?thesis using ps k(1) cut by (simp add: read_escape_label)
  qed
qed simp_all

lemma label_pairs_total: "length ns = length vs \<Longrightarrow> \<exists>ps. label_pairs ns vs = Some ps"
  by (induction ns vs rule: label_pairs.induct) auto

lemma label_pairs_snoc:
  "\<lbrakk>label_pairs ns vs = Some ps; length ns = length vs\<rbrakk> \<Longrightarrow>
     label_pairs (ns @ [n]) (vs @ [v]) = Some (ps @ [label_pair n v])"
  by (induction ns vs arbitrary: ps rule: label_pairs.induct) auto

lemma join_snoc: "concat (map (\<lambda>p. p @ '','') ps) @ x = join '','' (ps @ [x])"
proof (induction ps)
  case (Cons p ps)
  then show ?case by (cases "ps @ [x]") auto
qed simp

lemma set_join: "set (join sep ss) \<subseteq> set sep \<union> \<Union> (set ` set ss)"
  by (induction sep ss rule: join.induct) auto

lemma nl_escape: "nl \<notin> set (escape_label_value v)"
  by (induction v) auto

lemma nl_label_pairs:
  "\<lbrakk>label_pairs ns vs = Some ps; \<forall>n \<in> set ns. nl \<notin> set n\<rbrakk> \<Longrightarrow> \<forall>p \<in> set ps. nl \<notin> set p"
  by (induction ns vs arbitrary: ps rule: label_pairs.induct) (auto simp: label_pair_def nl_escape)

lemma decode_encode:
  assumes "\<forall>v \<in> set vs. label_separator \<notin> set v" "vs \<noteq> []" "vs \<noteq> [[]]"
  shows "decode_label_values (encode_label_values vs) = vs"
proof -
  have "encode_label_values vs \<noteq> []"
    using assms(2,3) by (cases vs; cases "tl vs") (auto simp: encode_label_values_def)
  then show ?thesis using assms by (simp add: decode_label_values_def encode_label_values_def split_byte_join)
qed

text \<open>
  Label values cannot break out of a sample line. Whatever the values are, the label block
  of a series is read back as exactly the label names with the values they were recorded with,
  a line feed never appears in it, and an \<open>le\<close> label appended for a histogram bucket stays
  the last one.
\<close>

theorem labels_read_back:
  assumes "\<forall>n \<in> set names. CHR ''='' \<notin> set n \<and> nl \<notin> set n" "names \<noteq> []" "length vs = length names"
    and "\<forall>v \<in> set vs. label_separator \<notin> set v" "vs \<noteq> [[]]"
  shows "\<exists>block. render_labels names (encode_label_values vs) = Some (CHR ''{'' # block) \<and> nl \<notin> set block \<and>
      read_labels (length names) (block @ rest) = Some (zip names vs, rest) \<and>
    (\<exists>block'. render_labels_with_extra names vs ''le'' bound = Some (CHR ''{'' # block') \<and>
      read_labels (Suc (length names)) (block' @ rest) = Some (zip names vs @ [(''le'', bound)], rest))"
proof -
  from assms(2,3) have ne: "vs \<noteq> []" by auto
  obtain ps where ps: "label_pairs names vs = Some ps" using label_pairs_total assms(3) by metis
  let ?b = "join '','' ps @ ''}''" and ?b' = "join '','' (ps @ [label_pair ''le'' bound]) @ ''}''"
  have "render_labels names (encode_label_values vs) = Some (CHR ''{'' # ?b)"
    using assms ne ps by (simp add: render_labels_def render_labels_with_values_def decode_encode)
  moreover have "nl \<notin> set ?b"
    using set_join [of "'',''" ps] nl_label_pairs [OF ps] assms(1) by auto
  moreover have "read_labels (length names) (?b @ rest) = Some (zip names vs, rest)"
    using read_label_pairs [OF ps, of "length names" rest] assms by simp
  moreover have "render_labels_with_extra names vs ''le'' bound = Some (CHR ''{'' # ?b')"
    using ps by (simp add: render_labels_with_extra_def flip: join_snoc)
  moreover have "read_labels (Suc (length names)) (?b' @ rest) = Some (zip names vs @ [(''le'', bound)], rest)"
    using read_label_pairs [OF label_pairs_snoc [OF ps], of "''le''" "Suc (length names)" bound rest] assms by simp
  ultimately show ?thesis by blast
qed

theorem labels_read_back_witness:
  "\<exists>block. render_labels [''endpoint''] ''/a\"b'' = Some (CHR ''{'' # block) \<and> read_labels 1 block = Some ([(''endpoint'', ''/a\"b'')], [])"
proof -
  have n: "\<forall>n \<in> set [''endpoint'']. CHR ''='' \<notin> set n \<and> nl \<notin> set n" by simp
  have v: "\<forall>v \<in> set [''/a\"b'']. label_separator \<notin> set v" by (simp add: label_separator_def)
  show ?thesis using labels_read_back [OF n _ _ v, of "[]" "[]"] by (auto simp: encode_label_values_def)
qed

section \<open>What the series hold\<close>

fun add_all :: "(int64 \<times> string list) list \<Rightarrow> counter \<Rightarrow> string + counter" where
  "add_all [] c = Inr c"
| "add_all ((d, vs) # calls) c = (case counter_add d vs c of Inl panic \<Rightarrow> Inl panic | Inr c1 \<Rightarrow> add_all calls c1)"

fun observe_all :: "(rat \<times> string list) list \<Rightarrow> histogram \<Rightarrow> string + histogram" where
  "observe_all [] h = Inr h"
| "observe_all ((x, vs) # calls) h =
     (case histogram_observe x vs h of Inl panic \<Rightarrow> Inl panic | Inr h1 \<Rightarrow> observe_all calls h1)"

definition counter_value :: "counter \<Rightarrow> string list \<Rightarrow> int64" where
  "counter_value c vs = (case map_of (ct_values c) (encode_label_values vs) of None \<Rightarrow> 0 | Some n \<Rightarrow> n)"

definition series_of :: "histogram \<Rightarrow> string list \<Rightarrow> histogram_series" where
  "series_of h vs =
     (case map_of (hi_series h) (encode_label_values vs) of None \<Rightarrow> empty_series (hi_buckets h) | Some s \<Rightarrow> s)"

text \<open>Label values for \<open>n\<close> names, none of them with the separator.\<close>

definition label_values :: "nat \<Rightarrow> string list \<Rightarrow> bool" where
  "label_values n vs \<longleftrightarrow> length vs = n \<and> (\<forall>v \<in> set vs. label_separator \<notin> set v)"

lemma map_of_map_default:
  "map_of (AList.map_default k v f al) k' =
     (if k' = k then Some (case map_of al k of None \<Rightarrow> v | Some x \<Rightarrow> f x) else map_of al k')"
  by (induction k v f al rule: AList.map_default.induct) auto

lemma encode_inj:
  assumes "label_values n vs" "label_values n ws"
  shows "encode_label_values vs = encode_label_values ws \<longleftrightarrow> vs = ws"
proof (cases n)
  case (Suc m)
  with assms have "vs \<noteq> []" "ws \<noteq> []" by (auto simp: label_values_def)
  with assms show ?thesis unfolding encode_label_values_def label_values_def by (metis join_inj)
qed (use assms in \<open>simp add: label_values_def\<close>)

lemma add_all_total:
  assumes "\<forall>(d, vs) \<in> set calls. 0 \<le> sint d \<and> label_values (length (ct_labels c)) vs"
  shows "\<exists>c'. add_all calls c = Inr c' \<and> (\<forall>ws. label_values (length (ct_labels c)) ws \<longrightarrow>
    counter_value c' ws = counter_value c ws + sum_list (map fst (filter (\<lambda>(d, vs). vs = ws) calls)))"
  using assms
proof (induction calls arbitrary: c)
  case (Cons call calls)
  obtain d vs where c: "call = (d, vs)" by fastforce
  with Cons.prems have v: "0 \<le> sint d" "label_values (length (ct_labels c)) vs" by auto
  let ?c = "c\<lparr>ct_values := AList.map_default (encode_label_values vs) d (\<lambda>n. n + d) (ct_values c)\<rparr>"
  have a: "counter_add d vs c = Inr ?c" using v by (simp add: counter_add_def label_values_def)
  have s: "counter_value ?c ws = counter_value c ws + (if vs = ws then d else 0)"
    if "label_values (length (ct_labels c)) ws" for ws
    by (cases "ws = vs"; cases "map_of (ct_values c) (encode_label_values vs)")
      (simp_all add: counter_value_def map_of_map_default encode_inj [OF that v(2)])
  have "\<forall>(d, vs) \<in> set calls. 0 \<le> sint d \<and> label_values (length (ct_labels ?c)) vs" using Cons.prems by simp
  from Cons.IH [OF this] obtain c' where c': "add_all calls ?c = Inr c'"
    and v': "\<And>ws. label_values (length (ct_labels c)) ws \<Longrightarrow>
      counter_value c' ws = counter_value ?c ws + sum_list (map fst (filter (\<lambda>(d, vs). vs = ws) calls))" by auto
  have "counter_value c' ws = counter_value c ws + sum_list (map fst (filter (\<lambda>(d, vs). vs = ws) (call # calls)))"
    if "label_values (length (ct_labels c)) ws" for ws
    unfolding v' [OF that] s [OF that] c by (simp add: add.assoc)
  moreover have "add_all (call # calls) c = Inr c'" unfolding c add_all.simps a using c' by simp
  ultimately show ?case by blast
qed simp

lemma observe_all_total:
  assumes "\<forall>(x, vs) \<in> set calls. label_values (length (hi_labels h)) vs"
  shows "\<exists>h'. observe_all calls h = Inr h' \<and> (\<forall>ws. label_values (length (hi_labels h)) ws \<longrightarrow>
    series_of h' ws = fold (observe_series (hi_buckets h)) (map fst (filter (\<lambda>(x, vs). vs = ws) calls)) (series_of h ws))"
  using assms
proof (induction calls arbitrary: h)
  case (Cons call calls)
  obtain x vs where c: "call = (x, vs)" by fastforce
  with Cons.prems have v: "label_values (length (hi_labels h)) vs" by auto
  let ?h = "h\<lparr>hi_series := AList.map_default (encode_label_values vs)
        (observe_series (hi_buckets h) x (empty_series (hi_buckets h)))
        (observe_series (hi_buckets h) x) (hi_series h)\<rparr>"
  have a: "histogram_observe x vs h = Inr ?h" using v by (simp add: histogram_observe_def label_values_def)
  have s: "series_of ?h ws = (if vs = ws then observe_series (hi_buckets h) x (series_of h ws) else series_of h ws)"
    if "label_values (length (hi_labels h)) ws" for ws
    by (cases "ws = vs"; cases "map_of (hi_series h) (encode_label_values vs)")
      (simp_all add: series_of_def map_of_map_default encode_inj [OF that v] split: option.split)
  have "\<forall>(x, vs) \<in> set calls. label_values (length (hi_labels ?h)) vs" using Cons.prems by simp
  from Cons.IH [OF this] obtain h' where h': "observe_all calls ?h = Inr h'"
    and v': "\<And>ws. label_values (length (hi_labels h)) ws \<Longrightarrow> series_of h' ws =
      fold (observe_series (hi_buckets h)) (map fst (filter (\<lambda>(x, vs). vs = ws) calls)) (series_of ?h ws)" by auto
  have "series_of h' ws =
      fold (observe_series (hi_buckets h)) (map fst (filter (\<lambda>(x, vs). vs = ws) (call # calls))) (series_of h ws)"
    if "label_values (length (hi_labels h)) ws" for ws
    unfolding v' [OF that] s [OF that] c by simp
  moreover have "observe_all (call # calls) h = Inr h'" unfolding c observe_all.simps a using h' by simp
  ultimately show ?case by blast
qed simp

lemma map2_map2: "map2 f bs (map2 g bs ns) = map2 (\<lambda>b n. f b (g b n)) bs ns"
proof (induction bs arbitrary: ns)
  case (Cons b bs)
  then show ?case by (cases ns) auto
qed simp

lemma map2_zero: "map2 (\<lambda>b n. n + f b) bs (map (\<lambda>_. 0) bs) = map f bs" for f :: "rat \<Rightarrow> int64"
  by (induction bs) auto

lemma observe_series_sel:
  "hs_buckets (observe_series bs x s) = map2 (\<lambda>b n. if x \<le> b then n + 1 else n) bs (hs_buckets s)"
  "hs_sum (observe_series bs x s) = rnd64 (hs_sum s + x)" "hs_count (observe_series bs x s) = hs_count s + 1"
  by (simp_all add: observe_series_def)

lemma fold_observe_series:
  assumes "length (hs_buckets s) = length bs"
  shows "fold (observe_series bs) xs s =
    \<lparr>hs_buckets = map2 (\<lambda>b n. n + of_nat (length (filter (\<lambda>x. x \<le> b) xs))) bs (hs_buckets s),
     hs_sum = foldl (\<lambda>u x. rnd64 (u + x)) (hs_sum s) xs, hs_count = hs_count s + of_nat (length xs)\<rparr>"
  using assms
proof (induction xs arbitrary: s)
  case Nil
  have "map2 (\<lambda>b n. n) bs ns = ns" if "length ns = length bs" for ns :: "int64 list"
    using that by (induction bs arbitrary: ns) (auto simp: length_Suc_conv)
  with Nil show ?case by simp
next
  case (Cons x xs)
  have "length (hs_buckets (observe_series bs x s)) = length bs" using Cons.prems by (simp add: observe_series_def)
  from Cons.IH [OF this] show ?case
    unfolding fold_simps observe_series_sel map2_map2 by (simp add: add.assoc) (auto simp: add.assoc intro!: map_cong)
qed

text \<open>
  C39: what the series count. Whatever calls were made in whatever order, a counter's series holds
  the sum of the amounts added under exactly its label values, and a histogram's series holds
  their number, their float sum in call order, and for each bound the number of observations at
  most that bound (so the buckets are cumulative): no call is counted under another series, and
  none panics. The counts are 64-bit.
\<close>

theorem series_totals:
  assumes "\<forall>(d, vs) \<in> set adds. 0 \<le> sint d \<and> label_values (length names) vs"
    and "\<forall>(x, vs) \<in> set obs. label_values (length names) vs"
    and "new_histogram name help bounds names = Inr h0" "label_values (length names) ws"
  shows "\<exists>c h. add_all adds (new_counter name help names) = Inr c \<and> observe_all obs h0 = Inr h \<and>
    counter_value c ws = sum_list (map fst (filter (\<lambda>(d, vs). vs = ws) adds)) \<and>
    (let xs = map fst (filter (\<lambda>(x, vs). vs = ws) obs)
     in series_of h ws = \<lparr>hs_buckets = map (\<lambda>b. of_nat (length (filter (\<lambda>x. x \<le> b) xs))) bounds,
       hs_sum = foldl (\<lambda>u x. rnd64 (u + x)) 0 xs, hs_count = of_nat (length xs)\<rparr>)"
proof -
  have h0: "hi_labels h0 = names" "hi_buckets h0 = bounds" "series_of h0 ws = empty_series bounds"
    using assms(3) by (auto simp: new_histogram_def series_of_def split: if_splits)
  have c0: "ct_labels (new_counter name help names) = names" "counter_value (new_counter name help names) ws = 0"
    by (simp_all add: new_counter_def counter_value_def)
  obtain c where c: "add_all adds (new_counter name help names) = Inr c"
    "counter_value c ws = sum_list (map fst (filter (\<lambda>(d, vs). vs = ws) adds))"
    using add_all_total [of adds "new_counter name help names", unfolded c0, OF assms(1)] assms(4) c0(2) by auto
  obtain h where h: "observe_all obs h0 = Inr h"
    "series_of h ws = fold (observe_series bounds) (map fst (filter (\<lambda>(x, vs). vs = ws) obs)) (empty_series bounds)"
    using observe_all_total [of obs h0, unfolded h0, OF assms(2)] assms(4) h0(3) by auto
  have "fold (observe_series bounds) xs (empty_series bounds) =
      \<lparr>hs_buckets = map (\<lambda>b. of_nat (length (filter (\<lambda>x. x \<le> b) xs))) bounds,
       hs_sum = foldl (\<lambda>u x. rnd64 (u + x)) 0 xs, hs_count = of_nat (length xs)\<rparr>" for xs
    by (subst fold_observe_series) (simp_all add: empty_series_def map2_zero)
  with c h show ?thesis by (auto simp: Let_def)
qed


theorem series_totals_witness:
  "\<exists>c. add_all [(1, [''/a'']), (2, [''/b'']), (3, [''/a''])] (new_counter ''c'' [] [''endpoint'']) = Inr c \<and>
     counter_value c [''/a''] = 4"
proof -
  let ?adds = "[(1, [''/a'']), (2, [''/b'']), (3, [''/a''])] :: (int64 \<times> string list) list"
  have v: "label_values (length [''endpoint'']) [''/a'']" "label_values (length [''endpoint'']) [''/b'']"
    by (simp_all add: label_values_def label_separator_def)
  have a: "\<forall>(d, vs) \<in> set ?adds. 0 \<le> sint d \<and> label_values (length [''endpoint'']) vs" using v by simp
  have h: "new_histogram ''c'' [] [] [''endpoint''] = Inr \<lparr>hi_name = ''c'', hi_help = [], hi_labels = [''endpoint''],
      hi_buckets = [], hi_series = []\<rparr>" by (simp add: new_histogram_def)
  from series_totals [OF a _ h v(1), of "[]"] show ?thesis by auto
qed

end
