(* ===== verification/Recorder.thy ===== *)
theory Recorder
  imports Metrics
begin

text \<open>
  \<open>core/metrics/recorder.go\<close>: the typed entry points the gateway, the SMTP listener, the worker
  and the event sink call. The recorder's metrics are the content of the registry: the code
  registers pointers to them once, when the process starts. A nil recorder is \<open>None\<close>.
\<close>

section \<open>The recorder\<close>

definition latency_buckets :: "rat list" where
  "latency_buckets = map rnd64 [1 / 1000, 5 / 1000, 1 / 100, 5 / 100, 1 / 10, 5 / 10, 1, 5, 10]"

record recorder =
  rc_submitted :: counter
  rc_sent :: counter
  rc_failed :: counter
  rc_rate_limited :: counter
  rc_auth_failed :: counter
  rc_spam_blocked :: counter
  rc_check_failed_open :: counter
  rc_validation_failed :: counter
  rc_idempotent_replay :: counter
  rc_send_latency :: histogram
  rc_queued :: counter
  rc_queue_sent :: counter
  rc_queue_retried :: counter
  rc_queue_dead_letter :: counter
  rc_storage_healthy :: gauge
  rc_retry_queue_depth :: gauge
  rc_suppressed :: counter
  rc_lifecycle_events :: counter
  rc_lifecycle_dropped :: counter
  rc_lifecycle_forwards :: counter

definition make_recorder :: "string + recorder" where
  "make_recorder =
     map_sum id (\<lambda>latency. \<lparr>rc_submitted = new_counter ''posthorn_submissions_received_total''
         ''Submissions accepted past the body-parse stage, before transport.Send.''
         [''endpoint''],
       rc_sent = new_counter ''posthorn_submissions_sent_total''
         ''Submissions successfully delivered to the upstream transport.''
         [''endpoint'', ''transport''],
       rc_failed = new_counter ''posthorn_submissions_failed_total''
         ''Submissions that reached transport.Send but failed terminally (no retry, 502 to client).''
         [''endpoint'', ''transport'', ''error_class''],
       rc_rate_limited = new_counter ''posthorn_rate_limited_total''
         ''Submissions rejected at the rate-limit gate (HTTP 429).''
         [''endpoint''],
       rc_auth_failed = new_counter ''posthorn_auth_failed_total''
         ''API-mode submissions rejected with HTTP 401 (missing or invalid Bearer token).''
         [''endpoint''],
       rc_spam_blocked = new_counter ''posthorn_spam_blocked_total''
         ''Form-mode submissions rejected by spam defenses (honeypot/origin silent-200; csrf/reputation 403).''
         [''endpoint'', ''kind''],
       rc_check_failed_open = new_counter ''posthorn_check_failed_open_total''
         ''Spam checks whose provider errored and were allowed through (fail-open). A rising rate is a silent-bypass window. check is \"reputation\" or \"captcha\".''
         [''endpoint'', ''check''],
       rc_validation_failed = new_counter ''posthorn_validation_failed_total''
         ''Submissions rejected with HTTP 422 for missing required fields or malformed email.''
         [''endpoint''],
       rc_idempotent_replay = new_counter ''posthorn_idempotent_replay_total''
         ''API-mode requests served from the idempotency cache without re-sending.''
         [''endpoint''],
       rc_send_latency = latency,
       rc_queued = new_counter ''posthorn_submissions_queued_total''
         ''Submissions whose inline retries exhausted transiently and entered the background retry queue (202 to api-mode callers).''
         [''endpoint'', ''transport''],
       rc_queue_sent = new_counter ''posthorn_queue_sent_total''
         ''Queued submissions delivered by a background retry.''
         [''endpoint''],
       rc_queue_retried = new_counter ''posthorn_queue_retries_total''
         ''Background retry attempts that failed transiently and rescheduled.''
         [''endpoint''],
       rc_queue_dead_letter = new_counter ''posthorn_queue_dead_lettered_total''
         ''Queued submissions abandoned as failed (terminal error or attempts exhausted).''
         [''endpoint''],
       rc_storage_healthy = new_gauge ''posthorn_storage_healthy''
         ''1 when the storage canary write succeeds, 0 while degraded (mail still flows synchronously; nothing persists).''
         [],
       rc_retry_queue_depth = new_gauge ''posthorn_retry_queue_depth''
         ''Submissions currently waiting in (or claimed from) the retry queue.''
         [],
       rc_suppressed = new_counter ''posthorn_suppressed_recipients_total''
         ''Recipients removed from sends by the suppression list (FR86).''
         [''endpoint''],
       rc_lifecycle_events = new_counter ''posthorn_lifecycle_events_total''
         ''Provider lifecycle events accepted and normalized. event is the fixed normalized enum.''
         [''event''],
       rc_lifecycle_dropped = new_counter ''posthorn_lifecycle_dropped_total''
         ''Inbound lifecycle posts dropped without processing. reason is \"unmatched\" (no submission for the message ID) or \"malformed\".''
         [''reason''],
       rc_lifecycle_forwards = new_counter ''posthorn_lifecycle_forwards_total''
         ''Callback forwarding outcomes per originating endpoint. outcome is \"sent\", \"queued\", or \"dropped\".''
         [''endpoint'', ''outcome'']\<rparr>)
     (new_histogram ''posthorn_send_latency_seconds''
        ''Wall-clock latency of transport.Send, including any retries.''
        latency_buckets [''endpoint'', ''transport''])"

definition recorder_collectors :: "recorder \<Rightarrow> collector list" where
  "recorder_collectors r =
     [CounterC (rc_submitted r),
      CounterC (rc_sent r),
      CounterC (rc_failed r),
      CounterC (rc_rate_limited r),
      CounterC (rc_auth_failed r),
      CounterC (rc_spam_blocked r),
      CounterC (rc_check_failed_open r),
      CounterC (rc_validation_failed r),
      CounterC (rc_idempotent_replay r),
      HistogramC (rc_send_latency r),
      CounterC (rc_queued r),
      CounterC (rc_queue_sent r),
      CounterC (rc_queue_retried r),
      CounterC (rc_queue_dead_letter r),
      GaugeC (rc_storage_healthy r),
      GaugeC (rc_retry_queue_depth r),
      CounterC (rc_suppressed r),
      CounterC (rc_lifecycle_events r),
      CounterC (rc_lifecycle_dropped r),
      CounterC (rc_lifecycle_forwards r)]"

fun register_each :: "collector list \<Rightarrow> collector list \<Rightarrow> string + collector list" where
  "register_each [] R = Inr R"
| "register_each (c # cs) R = (case register_metric c R of Inl panic \<Rightarrow> Inl panic | Inr R1 \<Rightarrow> register_each cs R1)"

definition new_recorder :: "collector list \<Rightarrow> string + recorder \<times> collector list" where
  "new_recorder R =
     (case make_recorder of
        Inl panic \<Rightarrow> Inl panic
      | Inr r \<Rightarrow> map_sum id (Pair r) (register_each (recorder_collectors r) R))"

section \<open>Recording\<close>

type_synonym recording = "recorder option \<Rightarrow> string + recorder option"

definition on_recorder :: "(recorder \<Rightarrow> string + recorder) \<Rightarrow> recording" where
  "on_recorder f r = (case r of None \<Rightarrow> Inr None | Some x \<Rightarrow> map_sum id Some (f x))"

definition inc_in :: "(recorder \<Rightarrow> counter) \<Rightarrow> (counter \<Rightarrow> recorder \<Rightarrow> recorder) \<Rightarrow> string list \<Rightarrow> recorder \<Rightarrow> string + recorder" where
  "inc_in get put vs x = map_sum id (\<lambda>c. put c x) (counter_inc vs (get x))"

definition duration_seconds :: "duration \<Rightarrow> rat" where
  "duration_seconds d = rnd64 (rnd64 (of_int (d sdiv second)) + rnd64 (of_int (d smod second) / 1000000000))"

definition rec_submitted :: "string \<Rightarrow> recording" where
  "rec_submitted endpoint = on_recorder (inc_in rc_submitted (\<lambda>c. rc_submitted_update (\<lambda>_. c)) [endpoint])"

definition rec_sent :: "string \<Rightarrow> string \<Rightarrow> duration \<Rightarrow> recording" where
  "rec_sent endpoint transport latency = on_recorder (\<lambda>x.
     case inc_in rc_sent (\<lambda>c. rc_sent_update (\<lambda>_. c)) [endpoint, transport] x of
       Inl panic \<Rightarrow> Inl panic
     | Inr x1 \<Rightarrow> map_sum id (\<lambda>h. x1\<lparr>rc_send_latency := h\<rparr>)
         (histogram_observe (duration_seconds latency) [endpoint, transport] (rc_send_latency x1)))"

definition rec_failed :: "string \<Rightarrow> string \<Rightarrow> string \<Rightarrow> recording" where
  "rec_failed endpoint transport error_class = on_recorder (inc_in rc_failed (\<lambda>c. rc_failed_update (\<lambda>_. c)) [endpoint, transport, error_class])"

definition rec_rate_limited :: "string \<Rightarrow> recording" where
  "rec_rate_limited endpoint = on_recorder (inc_in rc_rate_limited (\<lambda>c. rc_rate_limited_update (\<lambda>_. c)) [endpoint])"

definition rec_auth_failed :: "string \<Rightarrow> recording" where
  "rec_auth_failed endpoint = on_recorder (inc_in rc_auth_failed (\<lambda>c. rc_auth_failed_update (\<lambda>_. c)) [endpoint])"

definition rec_spam_blocked :: "string \<Rightarrow> string \<Rightarrow> recording" where
  "rec_spam_blocked endpoint kind = on_recorder (inc_in rc_spam_blocked (\<lambda>c. rc_spam_blocked_update (\<lambda>_. c)) [endpoint, kind])"

definition rec_check_failed_open :: "string \<Rightarrow> string \<Rightarrow> recording" where
  "rec_check_failed_open endpoint check = on_recorder (inc_in rc_check_failed_open (\<lambda>c. rc_check_failed_open_update (\<lambda>_. c)) [endpoint, check])"

definition rec_validation_failed :: "string \<Rightarrow> recording" where
  "rec_validation_failed endpoint = on_recorder (inc_in rc_validation_failed (\<lambda>c. rc_validation_failed_update (\<lambda>_. c)) [endpoint])"

definition rec_idempotent_replay :: "string \<Rightarrow> recording" where
  "rec_idempotent_replay endpoint = on_recorder (inc_in rc_idempotent_replay (\<lambda>c. rc_idempotent_replay_update (\<lambda>_. c)) [endpoint])"

definition rec_queued :: "string \<Rightarrow> string \<Rightarrow> recording" where
  "rec_queued endpoint transport = on_recorder (inc_in rc_queued (\<lambda>c. rc_queued_update (\<lambda>_. c)) [endpoint, transport])"

definition rec_queue_sent :: "string \<Rightarrow> recording" where
  "rec_queue_sent endpoint = on_recorder (inc_in rc_queue_sent (\<lambda>c. rc_queue_sent_update (\<lambda>_. c)) [endpoint])"

definition rec_queue_retried :: "string \<Rightarrow> recording" where
  "rec_queue_retried endpoint = on_recorder (inc_in rc_queue_retried (\<lambda>c. rc_queue_retried_update (\<lambda>_. c)) [endpoint])"

definition rec_queue_dead_lettered :: "string \<Rightarrow> recording" where
  "rec_queue_dead_lettered endpoint = on_recorder (inc_in rc_queue_dead_letter (\<lambda>c. rc_queue_dead_letter_update (\<lambda>_. c)) [endpoint])"

definition rec_set_storage_healthy :: "bool \<Rightarrow> recording" where
  "rec_set_storage_healthy healthy = on_recorder (\<lambda>x.
     map_sum id (\<lambda>g. x\<lparr>rc_storage_healthy := g\<rparr>) (gauge_set (if healthy then 1 else 0) [] (rc_storage_healthy x)))"

definition rec_set_queue_depth :: "int \<Rightarrow> recording" where
  "rec_set_queue_depth n = on_recorder (\<lambda>x.
     map_sum id (\<lambda>g. x\<lparr>rc_retry_queue_depth := g\<rparr>) (gauge_set (rnd64 (of_int n)) [] (rc_retry_queue_depth x)))"

definition rec_suppressed :: "string \<Rightarrow> int \<Rightarrow> recording" where
  "rec_suppressed endpoint n = on_recorder (\<lambda>x.
     if n \<le> 0 then Inr x
     else map_sum id (\<lambda>c. x\<lparr>rc_suppressed := c\<rparr>) (counter_add (word_of_int n) [endpoint] (rc_suppressed x)))"

definition rec_lifecycle_event :: "string \<Rightarrow> recording" where
  "rec_lifecycle_event kind = on_recorder (inc_in rc_lifecycle_events (\<lambda>c. rc_lifecycle_events_update (\<lambda>_. c)) [kind])"

definition rec_lifecycle_dropped :: "string \<Rightarrow> recording" where
  "rec_lifecycle_dropped reason = on_recorder (inc_in rc_lifecycle_dropped (\<lambda>c. rc_lifecycle_dropped_update (\<lambda>_. c)) [reason])"

definition rec_lifecycle_forward :: "string \<Rightarrow> string \<Rightarrow> recording" where
  "rec_lifecycle_forward endpoint outcome = on_recorder (inc_in rc_lifecycle_forwards (\<lambda>c. rc_lifecycle_forwards_update (\<lambda>_. c)) [endpoint, outcome])"

section \<open>The metrics stay printable\<close>

datatype metric_event =
  ESubmitted string | ESent string string duration | EFailed string string string | ERateLimited string
| EAuthFailed string | ESpamBlocked string string | ECheckFailedOpen string string | EValidationFailed string
| EIdempotentReplay string | EQueued string string | EQueueSent string | EQueueRetried string
| EQueueDeadLettered string | EStorageHealthy bool | EQueueDepth int | ESuppressed string int
| ELifecycleEvent string | ELifecycleDropped string | ELifecycleForward string string

fun record_event :: "metric_event \<Rightarrow> recording" where
  "record_event (ESubmitted e) = rec_submitted e"
| "record_event (ESent e t d) = rec_sent e t d"
| "record_event (EFailed e t c) = rec_failed e t c"
| "record_event (ERateLimited e) = rec_rate_limited e"
| "record_event (EAuthFailed e) = rec_auth_failed e"
| "record_event (ESpamBlocked e k) = rec_spam_blocked e k"
| "record_event (ECheckFailedOpen e c) = rec_check_failed_open e c"
| "record_event (EValidationFailed e) = rec_validation_failed e"
| "record_event (EIdempotentReplay e) = rec_idempotent_replay e"
| "record_event (EQueued e t) = rec_queued e t"
| "record_event (EQueueSent e) = rec_queue_sent e"
| "record_event (EQueueRetried e) = rec_queue_retried e"
| "record_event (EQueueDeadLettered e) = rec_queue_dead_lettered e"
| "record_event (EStorageHealthy b) = rec_set_storage_healthy b"
| "record_event (EQueueDepth n) = rec_set_queue_depth n"
| "record_event (ESuppressed e n) = rec_suppressed e n"
| "record_event (ELifecycleEvent k) = rec_lifecycle_event k"
| "record_event (ELifecycleDropped r) = rec_lifecycle_dropped r"
| "record_event (ELifecycleForward e k) = rec_lifecycle_forward e k"

fun record_all :: "metric_event list \<Rightarrow> recording" where
  "record_all [] r = Inr r"
| "record_all (e # es) r = (case record_event e r of Inl panic \<Rightarrow> Inl panic | Inr r1 \<Rightarrow> record_all es r1)"

text \<open>The label of a one-label series is not empty, and an amount fits in 64 bits.\<close>

fun recordable :: "metric_event \<Rightarrow> bool" where
  "recordable (ESubmitted e) \<longleftrightarrow> e \<noteq> []"
| "recordable (ERateLimited e) \<longleftrightarrow> e \<noteq> []"
| "recordable (EAuthFailed e) \<longleftrightarrow> e \<noteq> []"
| "recordable (EValidationFailed e) \<longleftrightarrow> e \<noteq> []"
| "recordable (EIdempotentReplay e) \<longleftrightarrow> e \<noteq> []"
| "recordable (EQueueSent e) \<longleftrightarrow> e \<noteq> []"
| "recordable (EQueueRetried e) \<longleftrightarrow> e \<noteq> []"
| "recordable (EQueueDeadLettered e) \<longleftrightarrow> e \<noteq> []"
| "recordable (ESuppressed e n) \<longleftrightarrow> e \<noteq> [] \<and> n \<le> max_int64"
| "recordable (ELifecycleEvent k) \<longleftrightarrow> k \<noteq> []"
| "recordable (ELifecycleDropped r) \<longleftrightarrow> r \<noteq> []"
| "recordable _ \<longleftrightarrow> True"

text \<open>A key decodes to at least as many values as there are label names.\<close>

definition keyed :: "string list \<Rightarrow> string list \<Rightarrow> bool" where
  "keyed names keys \<longleftrightarrow> (\<forall>k \<in> set keys. names = [] \<or> length names \<le> length (decode_label_values k))"

fun printable :: "nat \<Rightarrow> collector \<Rightarrow> bool" where
  "printable n (CounterC c) \<longleftrightarrow> length (ct_labels c) = n \<and> keyed (ct_labels c) (map fst (ct_values c))"
| "printable n (GaugeC g) \<longleftrightarrow> length (ga_labels g) = n \<and> keyed (ga_labels g) (map fst (ga_values g))"
| "printable n (HistogramC h) \<longleftrightarrow> length (hi_labels h) = n \<and> keyed (hi_labels h) (map fst (hi_series h))"

lemma split_byte_append_length: "length (split_byte c (s @ t)) \<ge> length (split_byte c t)"
proof (induction s)
  case (Cons a s)
  then show ?case by (auto split: list.splits)
qed simp

lemma split_byte_join_length: "vs \<noteq> [] \<Longrightarrow> length vs \<le> length (split_byte c (join [c] vs))"
proof (induction "[c]" vs rule: join.induct)
  case (2 v)
  then show ?case by (simp add: Suc_le_eq)
next
  case (3 v w vs)
  then have "length (w # vs) \<le> length (split_byte c (join [c] (w # vs)))" by simp
  also have "Suc \<dots> \<le> length (split_byte c (v @ c # join [c] (w # vs)))"
    using split_byte_append_length [of c "c # join [c] (w # vs)" v] by simp
  finally show ?case by simp
qed simp

lemma decode_length:
  assumes "vs \<noteq> [[]]"
  shows "length vs \<le> length (decode_label_values (encode_label_values vs))"
proof (cases "vs = []")
  case False
  with assms have "encode_label_values vs \<noteq> []"
    by (cases vs; cases "tl vs") (auto simp: encode_label_values_def)
  with False split_byte_join_length show ?thesis by (simp add: decode_label_values_def encode_label_values_def)
qed simp

lemma keyed_insert:
  assumes "keyed names keys" "length vs = length names" "vs \<noteq> [[]]" "set keys' \<subseteq> insert (encode_label_values vs) (set keys)"
  shows "keyed names keys'"
proof -
  have "names = [] \<or> length names \<le> length (decode_label_values k)" if "k \<in> set keys'" for k
  proof (cases "k = encode_label_values vs")
    case True
    with decode_length [OF assms(3)] assms(2) show ?thesis by simp
  qed (use assms(1,4) that in \<open>auto simp: keyed_def\<close>)
  then show ?thesis by (simp add: keyed_def)
qed

lemma keys_map_default: "set (map fst (AList.map_default k v f al)) \<subseteq> insert k (set (map fst al))"
  by (induction k v f al rule: AList.map_default.induct) auto

lemma keys_update: "set (map fst (AList.update k v al)) \<subseteq> insert k (set (map fst al))"
  by (induction al) auto

lemma counter_add_printable:
  assumes "printable n (CounterC c)" "length vs = n" "vs \<noteq> [[]]" "0 \<le> sint d"
  shows "\<exists>c'. counter_add d vs c = Inr c' \<and> printable n (CounterC c')"
  using assms by (auto simp: counter_add_def intro!: keyed_insert [OF _ _ assms(3) keys_map_default])

lemma gauge_set_printable:
  assumes "printable n (GaugeC g)" "length vs = n" "vs \<noteq> [[]]"
  shows "\<exists>g'. gauge_set v vs g = Inr g' \<and> printable n (GaugeC g')"
  using assms by (auto simp: gauge_set_def intro!: keyed_insert [OF _ _ assms(3) keys_update])

lemma observe_printable:
  assumes "printable n (HistogramC h)" "length vs = n" "vs \<noteq> [[]]"
  shows "\<exists>h'. histogram_observe x vs h = Inr h' \<and> printable n (HistogramC h')"
  using assms by (auto simp: histogram_observe_def intro!: keyed_insert [OF _ _ assms(3) keys_map_default])

text \<open>Emission panics only on a key with too few values.\<close>

lemma concat_all_Some: "concat_all xs \<noteq> None \<longleftrightarrow> (\<forall>x \<in> set xs. x \<noteq> None)"
  by (induction xs) (auto split: option.splits)

lemma label_pairs_enough: "length ns \<le> length vs \<Longrightarrow> label_pairs ns vs \<noteq> None"
  by (induction ns vs rule: label_pairs.induct) auto

lemma render_keyed:
  assumes "keyed names keys" "k \<in> set keys"
  shows "render_labels names k \<noteq> None" "render_labels_with_extra names (decode_label_values k) x y \<noteq> None"
  using assms label_pairs_enough
  by (fastforce simp: keyed_def render_labels_def render_labels_with_values_def render_labels_with_extra_def)+

lemma emit_printable:
  assumes "printable n c"
  shows "emit_collector fmt_g c \<noteq> None"
proof (cases c)
  case (CounterC x)
  with assms have k: "keyed (ct_labels x) (map fst (ct_values x))" by simp
  have "concat_all (map (\<lambda>(k, n). map_option (\<lambda>l. sample_line (ct_name x) l (show_int64 n)) (render_labels (ct_labels x) k))
       (sorted_series (ct_values x))) \<noteq> None"
    unfolding concat_all_Some sorted_series_def
  proof (clarsimp simp del: not_None_eq)
    fix key v
    assume "(key, v) \<in> set (ct_values x)"
    then have "key \<in> set (map fst (ct_values x))" by force
    from render_keyed(1) [OF k this] show "\<exists>l. render_labels (ct_labels x) key = Some l" by simp
  qed
  with CounterC show ?thesis by (simp add: emit_counter_def)
next
  case (GaugeC x)
  with assms have k: "keyed (ga_labels x) (map fst (ga_values x))" by simp
  have "concat_all (map (\<lambda>(k, v). map_option (\<lambda>l. sample_line (ga_name x) l (fmt_g v)) (render_labels (ga_labels x) k))
       (sorted_series (ga_values x))) \<noteq> None"
    unfolding concat_all_Some sorted_series_def
  proof (clarsimp simp del: not_None_eq)
    fix key v
    assume "(key, v) \<in> set (ga_values x)"
    then have "key \<in> set (map fst (ga_values x))" by force
    from render_keyed(1) [OF k this] show "\<exists>l. render_labels (ga_labels x) key = Some l" by simp
  qed
  with GaugeC show ?thesis by (simp add: emit_gauge_def)
next
  case (HistogramC x)
  with assms have k: "keyed (hi_labels x) (map fst (hi_series x))" by simp
  have "emit_series fmt_g x ks \<noteq> None" if "ks \<in> set (hi_series x)" for ks
  proof -
    from that have "fst ks \<in> set (map fst (hi_series x))" by simp
    note r = render_keyed [OF k this]
    show ?thesis unfolding emit_series_def Let_def case_prod_beta concat_all_Some using r by (auto simp: case_prod_beta)
  qed
  then have "concat_all (map (emit_series fmt_g x) (sorted_series (hi_series x))) \<noteq> None"
    unfolding concat_all_Some sorted_series_def by simp
  with HistogramC show ?thesis by (simp add: emit_histogram_def)
qed

section \<open>The recorder's invariant\<close>

text \<open>The number of labels of each metric, in registration order.\<close>

definition arities :: "nat list" where
  "arities = [1, 2, 3, 1, 1, 2, 2, 1, 1, 2, 2, 1, 1, 1, 0, 0, 1, 1, 1, 2]"

definition rec_ok :: "recorder \<Rightarrow> bool" where
  "rec_ok r \<longleftrightarrow> list_all2 printable arities (recorder_collectors r)"

lemma rec_ok_emits:
  assumes "rec_ok r"
  shows "emit_registry fmt_g (recorder_collectors r) \<noteq> None"
proof -
  have "emit_collector fmt_g c \<noteq> None" if "c \<in> set (recorder_collectors r)" for c
    using assms that emit_printable by (metis in_set_conv_nth list_all2_conv_all_nth rec_ok_def)
  then show ?thesis unfolding emit_registry_def concat_all_Some by simp
qed

lemmas rec_ok_unfold = rec_ok_def arities_def recorder_collectors_def

lemma counter_inc_printable:
  assumes "printable n (CounterC c)" "length vs = n" "vs \<noteq> [[]]"
  shows "\<exists>c'. counter_inc vs c = Inr c' \<and> printable n (CounterC c')"
  using counter_add_printable [OF assms, of 1] by (simp add: counter_inc_def)

lemma inc_in_ok:
  assumes "printable n (CounterC (get x))" "length vs = n" "vs \<noteq> [[]]"
    and "\<And>c. printable n (CounterC c) \<Longrightarrow> rec_ok (put c x)"
  shows "\<exists>x'. on_recorder (inc_in get put vs) (Some x) = Inr (Some x') \<and> rec_ok x'"
proof -
  from counter_inc_printable [OF assms(1-3)] obtain c' where "counter_inc vs (get x) = Inr c'" "printable n (CounterC c')"
    by blast
  with assms(4) show ?thesis by (auto simp: on_recorder_def inc_in_def)
qed

lemma rec_ok_put:
  assumes "rec_ok x"
  shows "printable 1 (CounterC c) \<Longrightarrow> rec_ok (x\<lparr>rc_submitted := c\<rparr>)"
    "printable 2 (CounterC c) \<Longrightarrow> rec_ok (x\<lparr>rc_sent := c\<rparr>)"
    "printable 3 (CounterC c) \<Longrightarrow> rec_ok (x\<lparr>rc_failed := c\<rparr>)"
    "printable 1 (CounterC c) \<Longrightarrow> rec_ok (x\<lparr>rc_rate_limited := c\<rparr>)"
    "printable 1 (CounterC c) \<Longrightarrow> rec_ok (x\<lparr>rc_auth_failed := c\<rparr>)"
    "printable 2 (CounterC c) \<Longrightarrow> rec_ok (x\<lparr>rc_spam_blocked := c\<rparr>)"
    "printable 2 (CounterC c) \<Longrightarrow> rec_ok (x\<lparr>rc_check_failed_open := c\<rparr>)"
    "printable 1 (CounterC c) \<Longrightarrow> rec_ok (x\<lparr>rc_validation_failed := c\<rparr>)"
    "printable 1 (CounterC c) \<Longrightarrow> rec_ok (x\<lparr>rc_idempotent_replay := c\<rparr>)"
    "printable 2 (HistogramC h) \<Longrightarrow> rec_ok (x\<lparr>rc_send_latency := h\<rparr>)"
    "printable 2 (CounterC c) \<Longrightarrow> rec_ok (x\<lparr>rc_queued := c\<rparr>)"
    "printable 1 (CounterC c) \<Longrightarrow> rec_ok (x\<lparr>rc_queue_sent := c\<rparr>)"
    "printable 1 (CounterC c) \<Longrightarrow> rec_ok (x\<lparr>rc_queue_retried := c\<rparr>)"
    "printable 1 (CounterC c) \<Longrightarrow> rec_ok (x\<lparr>rc_queue_dead_letter := c\<rparr>)"
    "printable 0 (GaugeC g) \<Longrightarrow> rec_ok (x\<lparr>rc_storage_healthy := g\<rparr>)"
    "printable 0 (GaugeC g) \<Longrightarrow> rec_ok (x\<lparr>rc_retry_queue_depth := g\<rparr>)"
    "printable 1 (CounterC c) \<Longrightarrow> rec_ok (x\<lparr>rc_suppressed := c\<rparr>)"
    "printable 1 (CounterC c) \<Longrightarrow> rec_ok (x\<lparr>rc_lifecycle_events := c\<rparr>)"
    "printable 1 (CounterC c) \<Longrightarrow> rec_ok (x\<lparr>rc_lifecycle_dropped := c\<rparr>)"
    "printable 2 (CounterC c) \<Longrightarrow> rec_ok (x\<lparr>rc_lifecycle_forwards := c\<rparr>)"
  using assms by (simp_all add: rec_ok_unfold del: printable.simps)

lemma rec_ok_get:
  assumes "rec_ok x"
  shows "printable 1 (CounterC (rc_submitted x))" "printable 2 (CounterC (rc_sent x))"
    "printable 3 (CounterC (rc_failed x))" "printable 1 (CounterC (rc_rate_limited x))"
    "printable 1 (CounterC (rc_auth_failed x))" "printable 2 (CounterC (rc_spam_blocked x))"
    "printable 2 (CounterC (rc_check_failed_open x))" "printable 1 (CounterC (rc_validation_failed x))"
    "printable 1 (CounterC (rc_idempotent_replay x))" "printable 2 (HistogramC (rc_send_latency x))"
    "printable 2 (CounterC (rc_queued x))" "printable 1 (CounterC (rc_queue_sent x))"
    "printable 1 (CounterC (rc_queue_retried x))" "printable 1 (CounterC (rc_queue_dead_letter x))"
    "printable 0 (GaugeC (rc_storage_healthy x))" "printable 0 (GaugeC (rc_retry_queue_depth x))"
    "printable 1 (CounterC (rc_suppressed x))" "printable 1 (CounterC (rc_lifecycle_events x))"
    "printable 1 (CounterC (rc_lifecycle_dropped x))" "printable 2 (CounterC (rc_lifecycle_forwards x))"
  using assms by (simp_all only: rec_ok_unfold list_all2_Cons list.rel_inject)

lemma record_event_ok:
  assumes "rec_ok x" "recordable ev"
  shows "\<exists>x'. record_event ev (Some x) = Inr (Some x') \<and> rec_ok x'"
proof -
  note get = rec_ok_get [OF assms(1)] and put = rec_ok_put [OF assms(1)]
  show ?thesis
  proof (cases ev)
    case (ESent e t d)
    from counter_inc_printable [OF get(2), of "[e, t]"] obtain c where c: "counter_inc [e, t] (rc_sent x) = Inr c"
      "printable 2 (CounterC c)" by (auto simp del: printable.simps)
    from put(2) [OF c(2)] have ok: "rec_ok (x\<lparr>rc_sent := c\<rparr>)" .
    from observe_printable [OF rec_ok_get(10) [OF ok], of "[e, t]"] obtain h where
      h: "histogram_observe (duration_seconds d) [e, t] (rc_send_latency (x\<lparr>rc_sent := c\<rparr>)) = Inr h"
        "printable 2 (HistogramC h)" by (auto simp del: printable.simps)
    from rec_ok_put(10) [OF ok h(2)] show ?thesis using ESent c(1) h(1)
      by (simp add: rec_sent_def on_recorder_def inc_in_def)
  next
    case (EStorageHealthy b)
    from gauge_set_printable [OF get(15), of "[]" "if b then 1 else 0"] put(15) EStorageHealthy show ?thesis
      by (auto simp: rec_set_storage_healthy_def on_recorder_def simp del: printable.simps)
  next
    case (EQueueDepth n)
    from gauge_set_printable [OF get(16), of "[]" "rnd64 (of_int n)"] put(16) EQueueDepth show ?thesis
      by (auto simp: rec_set_queue_depth_def on_recorder_def simp del: printable.simps)
  next
    case (ESuppressed e n)
    show ?thesis
    proof (cases "n \<le> 0")
      case False
      with ESuppressed assms(2) have "sint (word_of_int n :: int64) = n"
        by (simp add: max_int64_def signed_of_int signed_take_bit_int_eq_self)
      with counter_add_printable [OF get(17), of "[e]" "word_of_int n"] put(17) ESuppressed assms(2) False show ?thesis
        by (auto simp: rec_suppressed_def on_recorder_def simp del: printable.simps)
    qed (use assms ESuppressed in \<open>simp add: rec_suppressed_def on_recorder_def\<close>)
  qed (insert assms(2), simp only: record_event.simps recordable.simps rec_submitted_def rec_failed_def rec_rate_limited_def
      rec_auth_failed_def rec_spam_blocked_def rec_check_failed_open_def rec_validation_failed_def
      rec_idempotent_replay_def rec_queued_def rec_queue_sent_def rec_queue_retried_def rec_queue_dead_lettered_def
      rec_lifecycle_event_def rec_lifecycle_dropped_def rec_lifecycle_forward_def,
      rule inc_in_ok, rule get, simp, simp, rule put, assumption)+
qed

lemma record_all_ok:
  "\<lbrakk>rec_ok x; \<forall>ev \<in> set evs. recordable ev\<rbrakk> \<Longrightarrow> \<exists>x'. record_all evs (Some x) = Inr (Some x') \<and> rec_ok x'"
proof (induction evs arbitrary: x)
  case (Cons ev evs)
  with record_event_ok [of x ev] show ?case by fastforce
qed simp

lemma register_each_distinct:
  "distinct (map collector_name (R @ cs)) \<Longrightarrow> register_each cs R = Inr (R @ cs)"
proof (induction cs arbitrary: R)
  case (Cons c cs)
  then have "\<not> list_ex (\<lambda>x. collector_name x = collector_name c) R" by (auto simp: list_ex_iff image_iff)
  with Cons show ?case by (simp add: register_metric_def)
qed simp

lemma latency_buckets_sorted: "sorted_wrt (<) latency_buckets"
proof -
  have "rnd64 (1 / 1000) < rnd64 (5 / 1000)" by (rule rnd64_separates [where e = "-8"]) (simp_all add: eps64_def power_int_def power_divide)
  moreover have "rnd64 (5 / 1000) < rnd64 (1 / 100)" by (rule rnd64_separates [where e = "-7"]) (simp_all add: eps64_def power_int_def power_divide)
  moreover have "rnd64 (1 / 100) < rnd64 (5 / 100)" by (rule rnd64_separates [where e = "-5"]) (simp_all add: eps64_def power_int_def power_divide)
  moreover have "rnd64 (5 / 100) < rnd64 (1 / 10)" by (rule rnd64_separates [where e = "-4"]) (simp_all add: eps64_def power_int_def power_divide)
  moreover have "rnd64 (1 / 10) < rnd64 (5 / 10)" by (rule rnd64_separates [where e = "-1"]) (simp_all add: eps64_def power_int_def power_divide)
  moreover have "rnd64 (5 / 10) < rnd64 1" by (rule rnd64_separates [where e = 0]) (simp_all add: eps64_def power_int_def power_divide)
  moreover have "rnd64 1 < rnd64 5" by (rule rnd64_separates [where e = 2]) (simp_all add: eps64_def power_int_def power_divide)
  moreover have "rnd64 5 < rnd64 10" by (rule rnd64_separates [where e = 3]) (simp_all add: eps64_def power_int_def power_divide)
  ultimately show ?thesis
    by (simp only: latency_buckets_def list.map sorted_wrt2 [OF transp_on_less] sorted_wrt1 simp_thms)
qed

definition metric_names :: "string list" where
  "metric_names = [''posthorn_submissions_received_total'', ''posthorn_submissions_sent_total'',
     ''posthorn_submissions_failed_total'', ''posthorn_rate_limited_total'', ''posthorn_auth_failed_total'',
     ''posthorn_spam_blocked_total'', ''posthorn_check_failed_open_total'', ''posthorn_validation_failed_total'',
     ''posthorn_idempotent_replay_total'', ''posthorn_send_latency_seconds'', ''posthorn_submissions_queued_total'',
     ''posthorn_queue_sent_total'', ''posthorn_queue_retries_total'', ''posthorn_queue_dead_lettered_total'',
     ''posthorn_storage_healthy'', ''posthorn_retry_queue_depth'', ''posthorn_suppressed_recipients_total'',
     ''posthorn_lifecycle_events_total'', ''posthorn_lifecycle_dropped_total'', ''posthorn_lifecycle_forwards_total'']"

lemma make_recorder_ok:
  "\<exists>r. make_recorder = Inr r \<and> rec_ok r \<and> map collector_name (recorder_collectors r) = metric_names"
proof -
  have p: "printable n (CounterC (new_counter a b ls)) \<longleftrightarrow> length ls = n" "collector_name (CounterC (new_counter a b ls)) = a"
    "printable n (GaugeC (new_gauge a b ls)) \<longleftrightarrow> length ls = n" "collector_name (GaugeC (new_gauge a b ls)) = a"
    for n a b ls by (simp_all add: new_counter_def new_gauge_def keyed_def)
  have h: "new_histogram a b latency_buckets ls =
      Inr \<lparr>hi_name = a, hi_help = b, hi_labels = ls, hi_buckets = latency_buckets, hi_series = []\<rparr>" for a b ls
    by (simp add: new_histogram_def latency_buckets_sorted)
  have ph: "printable n (HistogramC \<lparr>hi_name = a, hi_help = b, hi_labels = ls, hi_buckets = bs, hi_series = []\<rparr>) \<longleftrightarrow> length ls = n"
    "collector_name (HistogramC \<lparr>hi_name = a, hi_help = b, hi_labels = ls, hi_buckets = bs, hi_series = []\<rparr>) = a"
    for n a b ls bs by (simp_all add: keyed_def)
  show ?thesis unfolding make_recorder_def h map_sum.simps
    by (intro exI conjI, rule refl)
      (simp_all only: rec_ok_unfold recorder.simps list_all2_Cons list.rel_inject list_all2_Nil p ph list.map metric_names_def
        list.size, simp_all)
qed



text \<open>
  The condition on the label is needed: a one-label counter that was incremented for the empty
  value makes the whole page panic.
\<close>

lemma empty_label_panics:
  "counter_inc [[]] (new_counter ''c'' [] [''endpoint'']) = Inr c \<Longrightarrow>
     emit_registry fmt_g [CounterC c] = None"
  by (auto simp: counter_inc_def counter_add_def new_counter_def encode_label_values_def emit_registry_def
    emit_counter_def sorted_series_def render_labels_def render_labels_with_values_def decode_label_values_def)

end
