(* ===== verification/Ingress.thy ===== *)
theory Ingress
  imports SMTP_Claims
begin

text \<open>
  The life cycle of the two ingresses (\<open>core/ingress/\<close>, \<open>core/smtp/listener.go\<close>) and the
  shutdown that \<open>cmd/posthorn/main.go\<close> drives. A listener's \<open>Start\<close> goroutine, the caller of
  \<open>Stop\<close> and the goroutine of each connection interleave: \<open>lsn_next\<close> is one atomic step of
  one of them, and a critical section of the listener's mutex is one step.
\<close>

section \<open>The SMTP listener\<close>

text \<open>Where \<open>Start\<close> is: \<open>Holding ip\<close> has a connection from \<open>Accept\<close> not yet counted.\<close>

datatype start_pc = Unstarted | Bound | Accepting | Holding string | Ended "string option"

datatype socket = NoSocket | OpenSocket | ClosedSocket

datatype stop_pc = NotStopping | Draining | Drained | DeadlineHit

record lsn =
  ln_start :: start_pc
  ln_socket :: socket
  ln_published :: bool
  ln_stopped :: bool
  ln_wg :: nat
  ln_spawned :: "string multiset"
  ln_live :: "string multiset"
  ln_slots :: slots
  ln_stop :: stop_pc
  ln_crashed :: bool

definition new_lsn :: lsn where
  "new_lsn = \<lparr>ln_start = Unstarted, ln_socket = NoSocket, ln_published = False, ln_stopped = False, ln_wg = 0,
     ln_spawned = {#}, ln_live = {#}, ln_slots = \<lparr>active_conns = 0, per_ip_conns = Map.empty\<rparr>,
     ln_stop = NotStopping, ln_crashed = False\<rparr>"

text \<open>
  The first six are steps of \<open>Start\<close>, the next two of a connection's goroutine
  (\<open>handleConnection\<close> up to the slot, and the end of its session), the last three of \<open>Stop\<close>.
\<close>

datatype lsn_act =
  Bind | BindFails string | Publish | Accept string | Spawn | AcceptFails string
| Admit string | Finish string
| StopCall | DrainDone | DeadlineFires

text \<open>The section of \<open>Start\<close> under the mutex, after the bind.\<close>

definition publish :: "lsn \<Rightarrow> lsn" where
  "publish s =
     (if ln_stopped s then s\<lparr>ln_socket := ClosedSocket, ln_start := Ended None\<rparr>
      else s\<lparr>ln_published := True, ln_start := Accepting\<rparr>)"

definition accept_failed :: "string \<Rightarrow> lsn \<Rightarrow> lsn" where
  "accept_failed e s =
     s\<lparr>ln_start := Ended (if ln_stopped s \<or> ln_socket s = ClosedSocket then None else Some (''smtp accept: '' @ e))\<rparr>"

definition admit :: "listener_config \<Rightarrow> string \<Rightarrow> lsn \<Rightarrow> lsn" where
  "admit c ip s =
     (case acquire_conn_slot c ip (ln_slots s) of
        (True, sl) \<Rightarrow> s\<lparr>ln_spawned := ln_spawned s - {#ip#}, ln_live := add_mset ip (ln_live s), ln_slots := sl\<rparr>
      | (False, sl) \<Rightarrow> s\<lparr>ln_spawned := ln_spawned s - {#ip#}, ln_wg := ln_wg s - 1, ln_slots := sl\<rparr>)"

definition finish :: "string \<Rightarrow> lsn \<Rightarrow> lsn" where
  "finish ip s = s\<lparr>ln_live := ln_live s - {#ip#}, ln_wg := ln_wg s - 1, ln_slots := release_conn_slot ip (ln_slots s)\<rparr>"

text \<open>The section of \<open>Stop\<close> under the mutex: closing \<open>stopped\<close> a second time panics.\<close>

definition stop_call :: "lsn \<Rightarrow> lsn" where
  "stop_call s =
     (let s1 = (if ln_published s then s\<lparr>ln_socket := ClosedSocket\<rparr> else s)
      in if ln_stopped s1 then s1\<lparr>ln_crashed := True\<rparr> else s1\<lparr>ln_stopped := True, ln_stop := Draining\<rparr>)"

definition guarded :: "bool \<Rightarrow> 'a \<Rightarrow> 'a option" where
  "guarded b x = (if b then Some x else None)"

fun lsn_next :: "listener_config \<Rightarrow> lsn \<Rightarrow> lsn_act \<Rightarrow> lsn option" where
  "lsn_next c s Bind = guarded (\<not> ln_crashed s \<and> ln_start s = Unstarted) (s\<lparr>ln_socket := OpenSocket, ln_start := Bound\<rparr>)"
| "lsn_next c s (BindFails e) = guarded (\<not> ln_crashed s \<and> ln_start s = Unstarted) (s\<lparr>ln_start := Ended (Some (''smtp listen: '' @ e))\<rparr>)"
| "lsn_next c s Publish = guarded (\<not> ln_crashed s \<and> ln_start s = Bound) (publish s)"
| "lsn_next c s (Accept ip) =
     guarded (\<not> ln_crashed s \<and> ln_start s = Accepting \<and> ln_socket s = OpenSocket) (s\<lparr>ln_start := Holding ip\<rparr>)"
| "lsn_next c s Spawn =
     (case ln_start s of
        Holding ip \<Rightarrow> guarded (\<not> ln_crashed s)
          (s\<lparr>ln_wg := Suc (ln_wg s), ln_spawned := add_mset ip (ln_spawned s), ln_start := Accepting\<rparr>)
      | _ \<Rightarrow> None)"
| "lsn_next c s (AcceptFails e) = guarded (\<not> ln_crashed s \<and> ln_start s = Accepting) (accept_failed e s)"
| "lsn_next c s (Admit ip) = guarded (\<not> ln_crashed s \<and> ip \<in># ln_spawned s) (admit c ip s)"
| "lsn_next c s (Finish ip) = guarded (\<not> ln_crashed s \<and> ip \<in># ln_live s) (finish ip s)"
| "lsn_next c s StopCall = guarded (\<not> ln_crashed s) (stop_call s)"
| "lsn_next c s DrainDone = guarded (\<not> ln_crashed s \<and> ln_stop s = Draining \<and> ln_wg s = 0) (s\<lparr>ln_stop := Drained\<rparr>)"
| "lsn_next c s DeadlineFires = guarded (\<not> ln_crashed s \<and> ln_stop s = Draining) (s\<lparr>ln_stop := DeadlineHit\<rparr>)"

inductive lsn_reach :: "listener_config \<Rightarrow> lsn \<Rightarrow> bool" for c where
  start: "lsn_reach c new_lsn"
| step: "lsn_reach c s \<Longrightarrow> lsn_next c s a = Some s' \<Longrightarrow> lsn_reach c s'"

text \<open>\<open>Name\<close> and \<open>Addr\<close>.\<close>

definition listener_ingress_name :: "(string \<Rightarrow> string) \<Rightarrow> string \<Rightarrow> string" where
  "listener_ingress_name quote_go n = (if n = ''smtp_listener'' then ''smtp'' else ''smtp '' @ quote_go n)"

definition listener_addr :: "string \<Rightarrow> lsn \<Rightarrow> string option" where
  "listener_addr bound s = guarded (ln_published s) bound"

section \<open>The HTTP ingress\<close>

record http_ingress =
  hi_started :: bool
  hi_stop_calls :: nat

definition new_http_ingress :: http_ingress where
  "new_http_ingress = \<lparr>hi_started = False, hi_stop_calls = 0\<rparr>"

text \<open>How \<open>ListenAndServe\<close> ends.\<close>

datatype serve_end = ServerClosed | ServeFailed string

definition http_start :: "serve_end \<Rightarrow> http_ingress \<Rightarrow> string option \<times> http_ingress" where
  "http_start e h = (case e of ServerClosed \<Rightarrow> None | ServeFailed m \<Rightarrow> Some m, h\<lparr>hi_started := True\<rparr>)"

text \<open>The result, and whether \<open>Shutdown\<close> (whose result is \<open>shutdown\<close>) was called.\<close>

definition http_stop :: "string option \<Rightarrow> http_ingress \<Rightarrow> (string option \<times> bool) \<times> http_ingress" where
  "http_stop shutdown h =
     (let h1 = h\<lparr>hi_stop_calls := Suc (hi_stop_calls h)\<rparr>
      in if hi_stop_calls h1 = 1 then ((shutdown, True), h1) else ((None, False), h1))"

section \<open>Shutdown\<close>

text \<open>\<open>errors.Join\<close> over the result of every \<open>Stop\<close>, each with its ingress's name.\<close>

definition stop_ingresses :: "(string \<times> string option) list \<Rightarrow> string option" where
  "stop_ingresses results =
     (case [n @ '' ingress graceful shutdown: '' @ e. (n, Some e) \<leftarrow> results] of
        [] \<Rightarrow> None
      | es \<Rightarrow> Some (join [CHR 0x0A] es))"

datatype wake = IngressReturned string "string option" | ShutdownSignal

datatype process_end = ReturnsError string | ForcedExit | Stopped "string option"

text \<open>
  \<open>runIngressesUntilSignal\<close>: what ends the wait, the result of every \<open>Stop\<close>, and whether a
  second signal arrives while they drain.
\<close>

definition run_ingresses :: "wake \<Rightarrow> (string \<times> string option) list \<Rightarrow> bool \<Rightarrow> process_end" where
  "run_ingresses w results again =
     (case w of
        IngressReturned n (Some e) \<Rightarrow> ReturnsError (n @ '' ingress: '' @ e)
      | _ \<Rightarrow> if again then ForcedExit else Stopped (stop_ingresses results))"


section \<open>Invariant of the listener\<close>

fun held :: "start_pc \<Rightarrow> nat" where
  "held (Holding ip) = 1"
| "held _ = 0"

fun socket_ok :: "start_pc \<Rightarrow> socket \<Rightarrow> bool \<Rightarrow> bool \<Rightarrow> bool" where
  "socket_ok Unstarted k published stopped \<longleftrightarrow> k = NoSocket \<and> \<not> published"
| "socket_ok Bound k published stopped \<longleftrightarrow> k = OpenSocket \<and> \<not> published"
| "socket_ok (Ended None) k published stopped \<longleftrightarrow> stopped \<and> k = ClosedSocket"
| "socket_ok (Ended (Some e)) k published stopped \<longleftrightarrow> True"
| "socket_ok Accepting k published stopped \<longleftrightarrow> published \<and> k = (if stopped then ClosedSocket else OpenSocket)"
| "socket_ok (Holding ip) k published stopped \<longleftrightarrow> published \<and> k = (if stopped then ClosedSocket else OpenSocket)"

lemma held_le: "held p \<le> 1"
  by (cases p) auto

lemma socket_ok_stop: "socket_ok p k published False \<Longrightarrow> socket_ok p (if published then ClosedSocket else k) published True"
  by (cases "(p, k, published, False)" rule: socket_ok.cases) auto

lemma socket_ok_again: "socket_ok p k published True \<Longrightarrow> socket_ok p (if published then ClosedSocket else k) published True"
  by (cases "(p, k, published, True)" rule: socket_ok.cases) auto

definition lsn_inv :: "listener_config \<Rightarrow> lsn \<Rightarrow> bool" where
  "lsn_inv c s \<longleftrightarrow>
     ln_slots s = slots_of (ln_live s) \<and> within_caps c (ln_live s) \<and>
     ln_wg s = size (ln_spawned s) + size (ln_live s) \<and> socket_ok (ln_start s) (ln_socket s) (ln_published s) (ln_stopped s) \<and>
     (ln_stop s = NotStopping \<longleftrightarrow> \<not> ln_stopped s) \<and>
     (ln_stop s = Drained \<longrightarrow> ln_wg s + held (ln_start s) \<le> 1)"

lemma guarded_Some [simp]: "guarded b x = Some y \<longleftrightarrow> b \<and> x = y"
  by (simp add: guarded_def)

lemma admit_inv:
  assumes "lsn_inv c s" "ip \<in># ln_spawned s"
  shows "lsn_inv c (admit c ip s)"
proof (cases "fst (acquire_conn_slot c ip (ln_slots s))")
  case True
  obtain M where M: "ln_spawned s = add_mset ip M" using multi_member_split [OF assms(2)] by blast
  have l: "ln_slots s = slots_of (ln_live s)" "within_caps c (ln_live s)" using assms(1) by (simp_all add: lsn_inv_def)
  from True have grow: "live_step c (ln_live s) (Arrives ip) = add_mset ip (ln_live s)"
    unfolding l(1) acquire_refines by (simp only: fst_conv live_step.simps if_True simp_thms)
  then have "acquire_conn_slot c ip (ln_slots s) = (True, slots_of (add_mset ip (ln_live s)))"
    using True unfolding l(1) acquire_refines grow by (simp only: fst_conv simp_thms)
  moreover have "within_caps c (add_mset ip (ln_live s))" using live_step_caps [OF l(2), of "Arrives ip"] unfolding grow .
  ultimately show ?thesis using assms M by (auto simp: admit_def lsn_inv_def)
next
  case False
  obtain M where M: "ln_spawned s = add_mset ip M" using multi_member_split [OF assms(2)] by blast
  from False have "acquire_conn_slot c ip (ln_slots s) = (False, ln_slots s)"
    by (auto simp: acquire_conn_slot_def split: if_splits)
  then show ?thesis using assms M by (auto simp: admit_def lsn_inv_def)
qed

lemma finish_inv:
  assumes "lsn_inv c s" "ip \<in># ln_live s"
  shows "lsn_inv c (finish ip s)"
proof -
  obtain M where M: "ln_live s = add_mset ip M" using multi_member_split [OF assms(2)] by blast
  with assms release_refines [OF assms(2)] live_step_caps [of c "ln_live s" "Leaves ip"]
  show ?thesis by (auto simp: finish_def lsn_inv_def)
qed

lemma stop_call_inv: "lsn_inv c s \<Longrightarrow> lsn_inv c (stop_call s)"
  using socket_ok_stop [of "ln_start s" "ln_socket s" "ln_published s"] socket_ok_again [of "ln_start s" "ln_socket s" "ln_published s"]
  by (cases "ln_published s"; cases "ln_stopped s") (auto simp: stop_call_def lsn_inv_def Let_def)

lemma publish_inv: "lsn_inv c s \<Longrightarrow> ln_start s = Bound \<Longrightarrow> lsn_inv c (publish s)"
  by (auto simp: publish_def lsn_inv_def)

lemma accept_failed_inv: "lsn_inv c s \<Longrightarrow> ln_start s = Accepting \<Longrightarrow> lsn_inv c (accept_failed e s)"
  by (auto simp: accept_failed_def lsn_inv_def split: if_splits)

lemma lsn_next_inv:
  assumes "lsn_inv c s" "lsn_next c s a = Some s'"
  shows "lsn_inv c s'"
proof (cases a)
  case Spawn
  with assms show ?thesis by (cases "ln_start s") (auto simp: lsn_inv_def)
next
  case DrainDone
  with assms held_le [of "ln_start s"] show ?thesis by (auto simp: lsn_inv_def)
qed (use assms in \<open>auto intro: admit_inv finish_inv stop_call_inv publish_inv accept_failed_inv
       simp: lsn_inv_def [of c s] lsn_inv_def [of c "ln_start_update _ _"] lsn_inv_def [of c "ln_stop_update _ _"]
       split: if_splits\<close>)

lemma lsn_reach_inv: "lsn_reach c s \<Longrightarrow> lsn_inv c s"
proof (induction rule: lsn_reach.induct)
  case start
  have "slots_of {#} = ln_slots new_lsn" by (simp add: slots_of_def new_lsn_def)
  then show ?case by (simp add: lsn_inv_def new_lsn_def within_caps_def effective_max_connections_def)
qed (rule lsn_next_inv)

section \<open>Stopping a listener\<close>

fun of_start :: "lsn_act \<Rightarrow> bool" where
  "of_start Bind = True"
| "of_start (BindFails e) = True"
| "of_start Publish = True"
| "of_start (Accept ip) = True"
| "of_start Spawn = True"
| "of_start (AcceptFails e) = True"
| "of_start _ = False"

text \<open>The steps \<open>Start\<close> has left at most once the listener is stopped.\<close>

fun start_rank :: "start_pc \<Rightarrow> nat" where
  "start_rank Unstarted = 2"
| "start_rank Bound = 1"
| "start_rank (Holding ip) = 2"
| "start_rank Accepting = 1"
| "start_rank (Ended e) = 0"

lemma start_step_lowers:
  assumes "lsn_inv c s" "ln_stopped s" "of_start a" "lsn_next c s a = Some s'"
  shows "start_rank (ln_start s') < start_rank (ln_start s) \<and> ln_stopped s' \<and> (\<forall>ip. a \<noteq> Accept ip)"
  using assms by (cases a; cases "ln_start s") (auto simp: lsn_inv_def publish_def accept_failed_def)

lemma start_step_enabled:
  assumes "\<not> ln_crashed s" "\<forall>e. ln_start s \<noteq> Ended e"
  shows "\<exists>a s'. of_start a \<and> (\<forall>ip. a \<noteq> Accept ip) \<and> lsn_next c s a = Some s'"
proof (cases "ln_start s")
  case Unstarted with assms(1) show ?thesis by (intro exI [of _ Bind]) simp
next
  case Bound with assms(1) show ?thesis by (intro exI [of _ Publish]) simp
next
  case Accepting with assms(1) show ?thesis by (intro exI [of _ "AcceptFails []"]) simp
next
  case Holding with assms(1) show ?thesis by (intro exI [of _ Spawn]) simp
qed (use assms(2) in blast)

text \<open>
  C21: the life of an SMTP listener, whatever the interleaving of \<open>Start\<close>, \<open>Stop\<close> and the
  connections. The counters are those of the live sessions and both caps hold; once \<open>Stop\<close>
  has marked the listener no connection is accepted, even when it ran before the socket was
  bound, and \<open>Start\<close>, which is never blocked, has at most two steps left; a \<open>Start\<close> that
  returned without error has left the socket closed; a \<open>Stop\<close> that reports a complete drain
  has left at most one connection behind, the one \<open>Accept\<close> had just returned.
\<close>

theorem listener_lifecycle:
  assumes "lsn_reach c s"
  shows "ln_slots s = slots_of (ln_live s) \<and> int (size (ln_live s)) \<le> effective_max_connections c \<and>
    (\<forall>ip \<in># ln_live s. int (count (ln_live s) ip) \<le> effective_max_connections_per_ip c) \<and>
    (ln_stopped s \<longrightarrow> start_rank (ln_start s) \<le> 2 \<and>
       (\<forall>a s'. of_start a \<and> lsn_next c s a = Some s' \<longrightarrow>
          start_rank (ln_start s') < start_rank (ln_start s) \<and> ln_stopped s' \<and> (\<forall>ip. a \<noteq> Accept ip))) \<and>
    (ln_stopped s \<and> \<not> ln_crashed s \<and> (\<forall>e. ln_start s \<noteq> Ended e) \<longrightarrow>
       (\<exists>a s'. of_start a \<and> (\<forall>ip. a \<noteq> Accept ip) \<and> lsn_next c s a = Some s')) \<and>
    (ln_start s = Ended None \<longrightarrow> ln_stopped s \<and> ln_socket s = ClosedSocket) \<and>
    (ln_stop s = Drained \<longrightarrow> size (ln_spawned s) + size (ln_live s) + held (ln_start s) \<le> 1)"
proof -
  have inv: "lsn_inv c s" by (rule lsn_reach_inv [OF assms])
  moreover have "start_rank (ln_start s) \<le> 2" by (cases "ln_start s") auto
  ultimately show ?thesis
    using start_step_lowers [OF inv] start_step_enabled [of s c] by (auto simp: lsn_inv_def within_caps_def)
qed

text \<open>Runs of the listener.\<close>

fun lsn_run :: "listener_config \<Rightarrow> lsn_act list \<Rightarrow> lsn \<Rightarrow> lsn option" where
  "lsn_run c [] s = Some s"
| "lsn_run c (a # as) s = (case lsn_next c s a of None \<Rightarrow> None | Some s1 \<Rightarrow> lsn_run c as s1)"

lemma lsn_run_reach: "lsn_reach c s \<Longrightarrow> lsn_run c as s = Some s' \<Longrightarrow> lsn_reach c s'"
  by (induction as arbitrary: s) (auto split: option.splits intro: lsn_reach.step)

text \<open>The window between \<open>Accept\<close> and \<open>wg.Add\<close>: a drain reported complete with a session to come.\<close>

definition drain_race :: "lsn_act list" where
  "drain_race = [Bind, Publish, Accept ''h'', StopCall, DrainDone, Spawn, Admit ''h'']"

lemma drain_run:
  "\<exists>s. lsn_run demo_listener drain_race new_lsn = Some s \<and> ln_stop s = Drained \<and> ln_live s = {#''h''#}"
  by (simp add: drain_race_def new_lsn_def publish_def stop_call_def admit_def acquire_conn_slot_def ip_count_def guarded_def
      effective_max_connections_def effective_max_connections_per_ip_def demo_listener_def)

lemma drain_misses_session:
  "\<exists>s. lsn_reach demo_listener s \<and> ln_stop s = Drained \<and> ln_live s = {#''h''#}"
  using drain_run lsn_run_reach [OF lsn_reach.start] by blast

theorem listener_lifecycle_witness:
  "\<exists>s. lsn_run demo_listener drain_race new_lsn = Some s \<and> size (ln_spawned s) + size (ln_live s) + held (ln_start s) = 1"
proof -
  obtain s where s: "lsn_run demo_listener drain_race new_lsn = Some s" "ln_stop s = Drained" "ln_live s = {#''h''#}"
    using drain_run by blast
  have "size (ln_spawned s) + size (ln_live s) + held (ln_start s) \<le> 1"
    using listener_lifecycle [OF lsn_run_reach [OF lsn_reach.start s(1)]] s(2) by blast
  with s show ?thesis by auto
qed

text \<open>A second \<open>Stop\<close> of an SMTP listener panics; of the HTTP ingress it does nothing.\<close>

lemma second_stop_panics: "ln_stopped s \<Longrightarrow> ln_crashed (stop_call s)"
  by (simp add: stop_call_def Let_def)

lemma http_stop_idempotent:
  "http_stop shutdown new_http_ingress = ((shutdown, True), h) \<Longrightarrow> fst (http_stop other h) = (None, False)"
  by (auto simp: http_stop_def new_http_ingress_def Let_def)

lemma stop_ingresses_None: "stop_ingresses rs = None \<longleftrightarrow> (\<forall>(n, e) \<in> set rs. e = None)"
proof -
  have "stop_ingresses rs = None \<longleftrightarrow> [n @ '' ingress graceful shutdown: '' @ e. (n, Some e) \<leftarrow> rs] = []"
    by (cases "[n @ '' ingress graceful shutdown: '' @ e. (n, Some e) \<leftarrow> rs]") (simp_all only: stop_ingresses_def list.case, simp_all)
  also have "\<dots> \<longleftrightarrow> (\<forall>(n, e) \<in> set rs. e = None)" by (force split: option.splits)
  finally show ?thesis .
qed

end
