(* ===== verification/Wiring.thy ===== *)
theory Wiring
  imports Transports Gateway SMTP_Session Config Retry_Worker Lifecycle
begin

text \<open>
  \<open>core/cmd/posthorn/\<close>: how \<open>serve\<close> builds the process from a configuration (a handler per
  endpoint on the mux, a listener per SMTP block, the map from a queued submission's endpoint
  to its transport), what \<open>validate\<close> builds to check it, and the \<open>suppressions\<close> command.

  The provider behind a transport is \<open>wr_env k\<close> for the \<open>k\<close>-th call. \<open>http.ServeMux\<close> is the two
  predicates \<open>Handle\<close> panics on; \<open>os.ReadFile\<close>, \<open>tls.LoadX509KeyPair\<close> and
  \<open>AppendCertsFromPEM\<close> are parameters too.
\<close>

section \<open>The environment\<close>

record ('c, 'i, 'r, 'a, 'p) wiring =
  wr_gw :: "('c, 'i, 'r, 'a, 'p) gw_env"
  wr_providers :: providers
  wr_env :: "nat \<Rightarrow> transport_env"
  wr_new_idem :: "int \<Rightarrow> string + 'i"
  wr_no_idem :: 'i
  wr_durable :: "gate \<Rightarrow> string \<Rightarrow> 'i"
  wr_quote :: "string \<Rightarrow> string"
  wr_pattern_ok :: "string \<Rightarrow> bool"
  wr_conflict :: "string \<Rightarrow> string \<Rightarrow> bool"
  wr_key_pair :: "string \<Rightarrow> string \<Rightarrow> string option"
  wr_read_file :: "string \<Rightarrow> bytes option"
  wr_has_certs :: "bytes \<Rightarrow> bool"

section \<open>Logging\<close>

datatype level = LevelDebug | LevelInfo | LevelWarn | LevelError

definition parse_level :: "string \<Rightarrow> level" where
  "parse_level s =
     (if s = ''debug'' then LevelDebug
      else if s = ''warn'' then LevelWarn
      else if s = ''error'' then LevelError
      else if s = ''info'' \<or> s = [] then LevelInfo
      else LevelInfo)"

definition build_logger :: "string \<Rightarrow> level" where
  "build_logger configured =
     (if configured = ''debug'' then LevelDebug
      else if configured = ''warn'' then LevelWarn
      else if configured = ''error'' then LevelError
      else LevelInfo)"

text \<open>The numbers of \<open>log/slog\<close>; a handler of level \<open>l\<close> writes the records of \<open>l\<close> and above.\<close>

fun level_value :: "level \<Rightarrow> int" where
  "level_value LevelDebug = -4"
| "level_value LevelInfo = 0"
| "level_value LevelWarn = 4"
| "level_value LevelError = 8"

lemma level_value_inject: "level_value a = level_value b \<longleftrightarrow> a = b"
  by (cases a; cases b) simp_all

instantiation level :: linorder
begin

definition less_eq_level :: "level \<Rightarrow> level \<Rightarrow> bool" where
  "less_eq_level a b \<longleftrightarrow> level_value a \<le> level_value b"

definition less_level :: "level \<Rightarrow> level \<Rightarrow> bool" where
  "less_level a b \<longleftrightarrow> level_value a < level_value b"

instance
  by standard (auto simp: less_eq_level_def less_level_def level_value_inject)

end

definition emits :: "string \<Rightarrow> level \<Rightarrow> bool" where
  "emits configured l \<longleftrightarrow> build_logger configured \<le> l"

lemma build_logger_is_parse_level: "build_logger s = parse_level s"
  by (simp add: build_logger_def parse_level_def)

lemma errors_always_emitted: "emits s LevelError"
  by (simp add: emits_def build_logger_def less_eq_level_def)

text \<open>A misspelt level logs like the default, neither everything nor errors only.\<close>

lemma unknown_level_is_info: "s \<notin> {''debug'', ''warn'', ''error''} \<Longrightarrow> emits s l = emits [] l"
  by (simp add: emits_def build_logger_def)

section \<open>Errors\<close>

datatype ingress_error =
  IngTransport string | IngSize size_error | IngConfig listener_error | IngPassthrough header_error
| IngTls string | IngLimiter string

datatype start_error =
  TransportFailed nat string string
| HandlerFailed nat string string
| ListenerFailed string ingress_error
| StorageSize size_error
| StorageOpen string
| QueueOrphaned nat
| LifecycleFailed string

text \<open>\<open>Panicked\<close> is a panic of \<open>mux.Handle\<close>: the process dies with a stack trace.\<close>

datatype 'a outcome = Built 'a | Refused start_error | Panicked string

fun and_build :: "'a outcome \<Rightarrow> ('a \<Rightarrow> 'b outcome) \<Rightarrow> 'b outcome" where
  "and_build (Built x) f = f x"
| "and_build (Refused e) f = Refused e"
| "and_build (Panicked p) f = Panicked p"

section \<open>Transports\<close>

definition build_transport :: "('c, 'i, 'r, 'a, 'p) wiring \<Rightarrow> transport_config \<Rightarrow> string + transport" where
  "build_transport W cfg =
     (case map_of (wr_providers W) (tc_type cfg) of
        None \<Rightarrow> Inl (unknown_type_error (wr_quote W) (wr_providers W) (tc_type cfg))
      | Some reg \<Rightarrow> rg_build reg (tc_settings cfg))"

text \<open>The provider as a handler or session sees it: \<open>Send\<close> of its transport.\<close>

definition net_of :: "('c, 'i, 'r, 'a, 'p) wiring \<Rightarrow> transport \<Rightarrow> net" where
  "net_of W t = \<lparr>provider = (\<lambda>k m. fst (transport_send (wr_env W k) t m)), handed = []\<rparr>"

type_synonym routes = "string \<rightharpoonup> transport"

definition not_configured :: "('c, 'i, 'r, 'a, 'p) wiring \<Rightarrow> string \<Rightarrow> send_error" where
  "not_configured W endpoint =
     TransportErr \<lparr>te_class = ErrTerminal, te_status = 0, te_cause = None,
       te_message = ''endpoint '' @ wr_quote W endpoint @ '' no longer configured''\<rparr>"

definition queued_send :: "('c, 'i, 'r, 'a, 'p) wiring \<Rightarrow> routes \<Rightarrow> nat \<Rightarrow> string \<Rightarrow> message \<Rightarrow> send_outcome" where
  "queued_send W transports k endpoint m =
     (case transports endpoint of
        None \<Rightarrow> Inl (not_configured W endpoint)
      | Some t \<Rightarrow> fst (transport_send (wr_env W k) t m))"

section \<open>The mux\<close>

datatype ('c, 'i, 'r, 'p) mounted =
  EndpointAt "'p handler" "('c, 'i, 'r) world" | HealthzAt | MetricsAt | EventsAt "'c limiter"

type_synonym ('c, 'i, 'r, 'p) mux = "(string \<times> ('c, 'i, 'r, 'p) mounted) list"

definition mux_handle :: "('c, 'i, 'r, 'a, 'p) wiring \<Rightarrow> string \<Rightarrow> ('c, 'i, 'r, 'p) mounted \<Rightarrow>
    ('c, 'i, 'r, 'p) mux \<Rightarrow> ('c, 'i, 'r, 'p) mux outcome" where
  "mux_handle W pattern h mux =
     (if \<not> wr_pattern_ok W pattern then Panicked (''http: invalid pattern '' @ pattern)
      else if list_ex (\<lambda>(p, _). p = pattern \<or> wr_conflict W p pattern) mux then Panicked (''pattern conflict: '' @ pattern)
      else Built (mux @ [(pattern, h)]))"

text \<open>The endpoints in order; \<open>rand i\<close> is what endpoint \<open>i\<close> reads from \<open>crypto/rand\<close>.\<close>

fun register_endpoints :: "('c, 'i, 'r, 'a, 'p) wiring \<Rightarrow> (nat \<Rightarrow> bytes option) \<Rightarrow> gate option \<Rightarrow> nat \<Rightarrow>
    endpoint_config list \<Rightarrow> ('c, 'i, 'r, 'p) mux \<times> routes \<Rightarrow> (('c, 'i, 'r, 'p) mux \<times> routes) outcome" where
  "register_endpoints W rand g i [] acc = Built acc"
| "register_endpoints W rand g i (e # es) (mux, transports) =
     (case build_transport W (ep_transport e) of
        Inl err \<Rightarrow> Refused (TransportFailed i (ep_path e) err)
      | Inr t \<Rightarrow>
          (case new_handler (wr_gw W) (wr_new_idem W) (wr_no_idem W) (rand i) (net_of W t) e of
             Inl err \<Rightarrow> Refused (HandlerFailed i (ep_path e) err)
           | Inr (h, w) \<Rightarrow>
               let w1 = (case g of None \<Rightarrow> w | Some gt \<Rightarrow> attach_storage gt (wr_durable W gt) h w)
               in and_build (mux_handle W (ep_path e) (EndpointAt h w1) mux)
                    (\<lambda>mux1. register_endpoints W rand g (Suc i) es (mux1, transports(ep_path e \<mapsto> t)))))"

definition build_mux :: "('c, 'i, 'r, 'a, 'p) wiring \<Rightarrow> (nat \<Rightarrow> bytes option) \<Rightarrow> gate option \<Rightarrow> config \<Rightarrow>
    (('c, 'i, 'r, 'p) mux \<times> routes) outcome" where
  "build_mux W rand g c =
     and_build (register_endpoints W rand g 0 (cf_endpoints c) ([], Map.empty)) (\<lambda>(mux, transports).
       and_build (mux_handle W ''/healthz'' HealthzAt mux) (\<lambda>mux1.
         and_build (mux_handle W ''/metrics'' MetricsAt mux1) (\<lambda>mux2. Built (mux2, transports))))"

section \<open>SMTP listeners\<close>

text \<open>\<open>TlsConfig b\<close>: a certificate is loaded, and \<open>b\<close> says that client certificates are verified if given.\<close>

datatype tls_config = TlsConfig bool

definition build_tls_config :: "('c, 'i, 'r, 'a, 'p) wiring \<Rightarrow> listener_config \<Rightarrow> string + tls_config option" where
  "build_tls_config W c =
     (if \<not> needs_tls c then Inr None
      else case wr_key_pair W (lc_tls_cert c) (lc_tls_key c) of
        Some e \<Rightarrow> Inl (''load TLS cert/key: '' @ e)
      | None \<Rightarrow>
          if effective_auth_mode c = AuthClientCert \<or> effective_auth_mode c = AuthEither then
            (case wr_read_file W (lc_client_cert_ca c) of
               None \<Rightarrow> Inl ''read client_cert_ca''
             | Some pem \<Rightarrow> if wr_has_certs W pem then Inr (Some (TlsConfig True))
                 else Inl ''client_cert_ca: no certificates parsed'')
          else Inr (Some (TlsConfig False)))"

record 'c smtp_ingress =
  si_cfg :: listener_config
  si_name :: string
  si_passthrough :: "string list"
  si_transport :: transport
  si_max_body :: int
  si_tls :: "tls_config option"
  si_auth_fail :: "'c limiter"
  si_gate :: "gate option"

definition new_smtp_listener :: "('c, 'i, 'r, 'a, 'p) wiring \<Rightarrow> listener_config \<Rightarrow> transport \<Rightarrow> int \<Rightarrow>
    ingress_error + 'c smtp_ingress" where
  "new_smtp_listener W c t max_body =
     (case passthrough_names (lc_passthrough_headers c) of
        Inl e \<Rightarrow> Inl (IngPassthrough e)
      | Inr names \<Rightarrow>
          (case build_tls_config W c of
             Inl e \<Rightarrow> Inl (IngTls e)
           | Inr tls \<Rightarrow>
               (case new_limiter (g_lru (wr_gw W)) 10 minute 0 of
                  Inl e \<Rightarrow> Inl (IngLimiter e)
                | Inr auth_fail \<Rightarrow>
                    Inr \<lparr>si_cfg = c, si_name = (if lc_name c = [] then ''smtp_listener'' else lc_name c),
                      si_passthrough = names, si_transport = t, si_max_body = max_body, si_tls = tls,
                      si_auth_fail = auth_fail, si_gate = None\<rparr>)))"

definition auth_mode_of :: "string \<Rightarrow> auth_mode" where
  "auth_mode_of s =
     (if s = [] then AuthUnset else if s = ''smtp-auth'' then AuthSMTP else if s = ''client-cert'' then AuthClientCert
      else if s = ''either'' then AuthEither else if s = ''none'' then AuthNone else AuthUnknown s)"

definition listener_config_of :: "smtp_listener_config \<Rightarrow> listener_config" where
  "listener_config_of c = \<lparr>lc_name = effective_name c, lc_listen = sl_listen c, lc_require_tls = effective_require_tls c,
     lc_tls_cert = sl_tls_cert c, lc_tls_key = sl_tls_key c, lc_client_cert_ca = sl_client_cert_ca c,
     lc_auth_required = auth_mode_of (sl_auth_required c),
     lc_smtp_users = map (\<lambda>u. \<lparr>su_username = scu_username u, su_password = scu_password u\<rparr>) (sl_smtp_users c),
     lc_allowed_senders = sl_allowed_senders c, lc_allowed_recipients = sl_allowed_recipients c,
     lc_passthrough_headers = sl_passthrough_headers c, lc_max_recipients = sl_max_recipients c,
     lc_idle_timeout = sl_idle_timeout c, lc_max_connections = sl_max_connections c,
     lc_max_connections_per_ip = sl_max_connections_per_ip c, lc_transport_type = tc_type (sl_transport c)\<rparr>"

definition build_smtp_ingress :: "('c, 'i, 'r, 'a, 'p) wiring \<Rightarrow> smtp_listener_config \<Rightarrow>
    ingress_error + 'c smtp_ingress" where
  "build_smtp_ingress W c =
     (case build_transport W (sl_transport c) of
        Inl e \<Rightarrow> Inl (IngTransport e)
      | Inr t \<Rightarrow>
          (case parse_size (if sl_max_message_size c = [] then ''1MB'' else sl_max_message_size c) of
             Inl e \<Rightarrow> Inl (IngSize e)
           | Inr max_body \<Rightarrow>
               (case validate_listener (listener_config_of c) of
                  Some e \<Rightarrow> Inl (IngConfig e)
                | None \<Rightarrow> new_smtp_listener W (listener_config_of c) t max_body)))"

definition listener_label :: "config \<Rightarrow> nat \<Rightarrow> smtp_listener_config \<Rightarrow> string" where
  "listener_label c i l =
     (if cf_smtp_listener c \<noteq> None then ''smtp_listener''
      else ''smtp_listeners['' @ show_int (int i) @ ''] ('' @ effective_name l @ '')'')"

fun build_smtp_ingresses :: "('c, 'i, 'r, 'a, 'p) wiring \<Rightarrow> gate option \<Rightarrow> config \<Rightarrow> nat \<Rightarrow> smtp_listener_config list \<Rightarrow>
    'c smtp_ingress list \<times> routes \<Rightarrow> ('c smtp_ingress list \<times> routes) outcome" where
  "build_smtp_ingresses W g c i [] acc = Built acc"
| "build_smtp_ingresses W g c i (l # ls) (out, transports) =
     (case build_smtp_ingress W l of
        Inl e \<Rightarrow> Refused (ListenerFailed (listener_label c i l) e)
      | Inr ing \<Rightarrow> build_smtp_ingresses W g c (Suc i) ls
          (out @ [ing\<lparr>si_gate := g\<rparr>], transports(effective_name l \<mapsto> si_transport ing)))"

section \<open>Serve\<close>

text \<open>The storage of a configuration: nothing, or a gate on the opened database.\<close>

definition open_storage :: "int \<Rightarrow> config \<Rightarrow> db \<Rightarrow> gate option outcome" where
  "open_storage page_size c d =
     (case cf_storage c of
        None \<Rightarrow> Built None
      | Some s \<Rightarrow>
          (case parse_size (effective_max_size (Some s)) of
             Inl e \<Rightarrow> Refused (StorageSize e)
           | Inr max_size \<Rightarrow>
               (case open_store page_size \<lparr>st_path = ss_path s, st_in_memory = ss_in_memory s,
                    st_retention = effective_retention (Some s), st_max_size = max_size\<rparr> d of
                  (Inl e, _) \<Rightarrow> Refused (StorageOpen e)
                | (Inr _, d1) \<Rightarrow> Built (Some (new_gate d1)))))"

definition check_unnamed_listener_queue :: "config \<Rightarrow> gate \<Rightarrow> routes \<Rightarrow> start_error option \<times> gate" where
  "check_unnamed_listener_queue c g transports =
     (if listeners c = [] then (None, g)
      else if transports ''smtp_listener'' \<noteq> None then (None, g)
      else case on_db queued_by_endpoint g of
        (Inl _, g1) \<Rightarrow> (None, g1)
      | (Inr counts, g1) \<Rightarrow>
          (case map_of counts ''smtp_listener'' of
             None \<Rightarrow> (None, g1)
           | Some n \<Rightarrow> if n = 0 then (None, g1) else (Some (QueueOrphaned n), g1)))"

record ('c, 'i, 'r, 'p) service =
  sv_mux :: "('c, 'i, 'r, 'p) mux"
  sv_listeners :: "'c smtp_ingress list"
  sv_transports :: routes
  sv_gate :: "gate option"
  sv_webhooks :: "string \<rightharpoonup> webhook"

definition lifecycle_webhooks :: "config \<Rightarrow> string \<rightharpoonup> webhook" where
  "lifecycle_webhooks c =
     foldl (\<lambda>m e. if ep_webhook_url e \<noteq> []
         then m(ep_path e \<mapsto> \<lparr>wh_url = ep_webhook_url e, wh_secret = ep_webhook_secret e\<rparr>) else m)
       Map.empty (cf_endpoints c)"

definition mount_lifecycle :: "('c, 'i, 'r, 'a, 'p) wiring \<Rightarrow> config \<Rightarrow> ('c, 'i, 'r, 'p) service \<Rightarrow>
    ('c, 'i, 'r, 'p) service outcome" where
  "mount_lifecycle W c s =
     (if sv_gate s = None \<or> cf_lifecycle c = None then Built s
      else case new_events_limiter (g_lru (wr_gw W)) of
        Inl e \<Rightarrow> Refused (LifecycleFailed e)
      | Inr l \<Rightarrow> and_build (mux_handle W ''/events/postmark'' (EventsAt l) (sv_mux s))
          (\<lambda>mux. Built (s\<lparr>sv_mux := mux, sv_webhooks := lifecycle_webhooks c\<rparr>)))"

text \<open>\<open>runServe\<close> from the loaded configuration to the start of the ingresses.\<close>

definition run_serve :: "('c, 'i, 'r, 'a, 'p) wiring \<Rightarrow> (nat \<Rightarrow> bytes option) \<Rightarrow> int \<Rightarrow> config \<Rightarrow> db \<Rightarrow>
    ('c, 'i, 'r, 'p) service outcome" where
  "run_serve W rand page_size c d =
     and_build (open_storage page_size c d) (\<lambda>g.
     and_build (build_mux W rand g c) (\<lambda>(mux, transports).
     and_build (build_smtp_ingresses W g c 0 (listeners c) ([], transports)) (\<lambda>(ings, transports1).
       let (orphans, g1) = (case g of
             None \<Rightarrow> (None, None)
           | Some gt \<Rightarrow> map_prod id Some (check_unnamed_listener_queue c gt transports1))
       in case orphans of
            Some e \<Rightarrow> Refused e
          | None \<Rightarrow> mount_lifecycle W c \<lparr>sv_mux = mux, sv_listeners = ings, sv_transports = transports1,
              sv_gate = g1, sv_webhooks = Map.empty\<rparr>)))"

section \<open>Validate\<close>

fun validate_endpoints :: "('c, 'i, 'r, 'a, 'p) wiring \<Rightarrow> (nat \<Rightarrow> bytes option) \<Rightarrow> nat \<Rightarrow> endpoint_config list \<Rightarrow>
    start_error option" where
  "validate_endpoints W rand i [] = None"
| "validate_endpoints W rand i (e # es) =
     (case build_transport W (ep_transport e) of
        Inl err \<Rightarrow> Some (TransportFailed i (ep_path e) err)
      | Inr t \<Rightarrow>
          (case new_handler (wr_gw W) (wr_new_idem W) (wr_no_idem W) (rand i) (net_of W t) e of
             Inl err \<Rightarrow> Some (HandlerFailed i (ep_path e) err)
           | Inr _ \<Rightarrow> validate_endpoints W rand (Suc i) es))"

fun validate_listeners :: "('c, 'i, 'r, 'a, 'p) wiring \<Rightarrow> config \<Rightarrow> nat \<Rightarrow> smtp_listener_config list \<Rightarrow> start_error option" where
  "validate_listeners W c i [] = None"
| "validate_listeners W c i (l # ls) =
     (case build_smtp_ingress W l of
        Inl e \<Rightarrow> Some (ListenerFailed (listener_label c i l) e)
      | Inr _ \<Rightarrow> validate_listeners W c (Suc i) ls)"

definition validate_summary :: "config \<Rightarrow> string" where
  "validate_summary c =
     ''config OK: '' @ show_int (int (length (cf_endpoints c))) @ '' endpoint(s)'' @
     (case cf_smtp_listener c of
        Some s \<Rightarrow> '' + '' @ effective_name s
      | None \<Rightarrow>
          if listeners c = [] then []
          else '' + '' @ show_int (int (length (listeners c))) @ '' smtp listener(s): '' @
            join '', '' (map (\<lambda>l. effective_name l @ '' ('' @ sl_listen l @ '')'') (listeners c)))"

definition run_validate :: "('c, 'i, 'r, 'a, 'p) wiring \<Rightarrow> (nat \<Rightarrow> bytes option) \<Rightarrow> config \<Rightarrow> start_error + string" where
  "run_validate W rand c =
     (case validate_endpoints W rand 0 (cf_endpoints c) of
        Some e \<Rightarrow> Inl e
      | None \<Rightarrow>
          (case validate_listeners W c 0 (listeners c) of
             Some e \<Rightarrow> Inl e
           | None \<Rightarrow> Inr (validate_summary c)))"

end
