(* ===== verification/Wiring_Claims.thy ===== *)
theory Wiring_Claims
  imports Wiring Gateway_Claims
begin

text \<open>
  What the wiring of \<open>cmd/posthorn\<close> guarantees: a queued submission goes back through the
  transport of the endpoint or listener that accepted it, and \<open>validate\<close> builds what \<open>serve\<close>
  will build.
\<close>

section \<open>Handlers\<close>

lemma bind_err_Inr [simp]: "bind_err x f = Inr y \<longleftrightarrow> (\<exists>z. x = Inr z \<and> f z = Inr y)"
  by (simp add: bind_err_def split: sum.split)

lemma new_handler_parts:
  assumes "new_handler G new_idem no_idem rand n cfg = Inr (h, w)"
  shows "h_cfg h = cfg" "w_net w = n"
  using assms by (auto simp: new_handler_def Let_def)

text \<open>
  The error of a construction, if any. Neither the random bytes (only whether they could be
  read) nor the provider change the error of \<open>New\<close>.
\<close>

definition failure :: "'e + 'x \<Rightarrow> 'e option" where
  "failure r = (case r of Inl e \<Rightarrow> Some e | Inr _ \<Rightarrow> None)"

lemma failure_simps [simp]: "failure (Inl e) = Some e" "failure (Inr x) = None"
  by (simp_all add: failure_def)

lemma failure_bind_same:
  "(\<And>y. failure (f y) = failure (g y)) \<Longrightarrow> failure (bind_err x f) = failure (bind_err x g)"
  by (cases x) (simp_all add: bind_err_def)

lemma failure_bind:
  "failure x = failure x' \<Longrightarrow> (\<And>y y'. failure (f y) = failure (g y')) \<Longrightarrow> failure (bind_err x f) = failure (bind_err x' g)"
  by (cases x; cases x') (simp_all add: bind_err_def)

lemma build_pob_gate_failure:
  "(rand = None) = (rand' = None) \<Longrightarrow> failure (build_pob_gate rand cfg) = failure (build_pob_gate rand' cfg)"
  by (auto simp: build_pob_gate_def Let_def split: option.splits)

lemma new_handler_failure:
  assumes "(rand = None) = (rand' = None)"
  shows "failure (new_handler G new_idem no_idem rand n cfg) = failure (new_handler G new_idem no_idem rand' n' cfg)"
  unfolding new_handler_def Let_def
  by (intro failure_bind_same, rule failure_bind, rule build_pob_gate_failure [OF assms], intro failure_bind_same) simp

lemma failure_None: "failure r = None \<longleftrightarrow> (\<exists>x. r = Inr x)"
  by (cases r) simp_all

section \<open>Endpoints\<close>

definition same_rand :: "(nat \<Rightarrow> bytes option) \<Rightarrow> (nat \<Rightarrow> bytes option) \<Rightarrow> bool" where
  "same_rand rand rand' \<longleftrightarrow> (\<forall>i. (rand i = None) = (rand' i = None))"

fun refusal :: "'x outcome \<Rightarrow> start_error option" where
  "refusal (Refused e) = Some e"
| "refusal _ = None"

lemma and_build_Built [simp]: "and_build x f = Built y \<longleftrightarrow> (\<exists>z. x = Built z \<and> f z = Built y)"
  by (cases x) simp_all

lemma mux_handle_not_refused [simp]: "mux_handle W p h mux \<noteq> Refused e"
  by (simp add: mux_handle_def)

lemma mux_handle_Built:
  "mux_handle W p h mux = Built mux' \<longleftrightarrow> wr_pattern_ok W p \<and> (\<forall>(q, x) \<in> set mux. q \<noteq> p \<and> \<not> wr_conflict W q p) \<and>
     mux' = mux @ [(p, h)]"
  by (auto simp: mux_handle_def list_ex_iff)

lemma new_handler_same:
  assumes "same_rand rand rand'"
  obtains (fails) e where "new_handler G ni no (rand i) n cfg = Inl e" "new_handler G ni no (rand' i) n cfg = Inl e"
  | (works) x h w where "new_handler G ni no (rand i) n cfg = Inr x" "new_handler G ni no (rand' i) n cfg = Inr (h, w)"
proof -
  have "(rand i = None) = (rand' i = None)" using assms by (simp add: same_rand_def)
  from new_handler_failure [OF this, of G ni no n cfg n] show ?thesis
    by (cases "new_handler G ni no (rand i) n cfg"; cases "new_handler G ni no (rand' i) n cfg") (auto intro: that)
qed

text \<open>The two loops over the endpoints agree, a panic of the mux apart.\<close>

lemma validate_endpoints_register:
  assumes "same_rand rand rand'"
  shows "(\<exists>p. register_endpoints W rand' g i es acc = Panicked p) \<or>
    refusal (register_endpoints W rand' g i es acc) = validate_endpoints W rand i es"
  using assms
proof (induction W rand' g i es acc rule: register_endpoints.induct)
  case (2 W rand' g i x es mux ts)
  show ?case
  proof (cases "build_transport W (ep_transport x)")
    case (Inr t)
    show ?thesis
    proof (cases rule: new_handler_same [OF "2.prems", where G = "wr_gw W" and ni = "wr_new_idem W" and
        no = "wr_no_idem W" and i = i and n = "net_of W t" and cfg = x,
        case_names fails works])
      case (works y h w)
      let ?w = "case g of None \<Rightarrow> w | Some gt \<Rightarrow> attach_storage gt (wr_durable W gt) h w"
      show ?thesis
      proof (cases "mux_handle W (ep_path x) (EndpointAt h ?w) mux")
        case (Built mux1)
        from "2.IH" [OF Inr works(2) refl refl "2.prems", of mux1] Inr works Built show ?thesis by simp
      qed (use Inr works in simp_all)
    qed (use Inr in simp)
  qed simp
qed simp

section \<open>Listeners\<close>

lemma validate_listeners_build:
  "validate_listeners W c i ls = refusal (build_smtp_ingresses W g c i ls acc)"
  "build_smtp_ingresses W g c i ls acc \<noteq> Panicked p"
  by (induction W g c i ls acc rule: build_smtp_ingresses.induct) (auto split: sum.split)

lemma build_mux_refusal: "refusal (build_mux W rand g c) = refusal (register_endpoints W rand g 0 (cf_endpoints c) ([], Map.empty))"
proof (cases "register_endpoints W rand g 0 (cf_endpoints c) ([], Map.empty)")
  case (Built x)
  have quiet: "refusal (and_build (mux_handle W p h mux) f) = None" if "\<And>m. refusal (f m) = None" for p h mux f
    by (cases "mux_handle W p h mux") (simp_all add: that)
  show ?thesis by (auto simp: build_mux_def Built intro!: quiet split: prod.split)
qed (simp_all add: build_mux_def)

section \<open>Routes\<close>

text \<open>What the loop leaves for each endpoint, when their paths are distinct.\<close>

definition routed :: "('c, 'i, 'r, 'a, 'p) wiring \<Rightarrow> ('c, 'i, 'r, 'p) mux \<Rightarrow> routes \<Rightarrow> endpoint_config \<Rightarrow> bool" where
  "routed W mux ts e \<longleftrightarrow> (\<exists>t h w. build_transport W (ep_transport e) = Inr t \<and> ts (ep_path e) = Some t \<and>
     (ep_path e, EndpointAt h w) \<in> set mux \<and> h_cfg h = e \<and> w_net w = net_of W t)"

lemma attach_storage_net [simp]: "w_net (attach_storage gt f h w) = w_net w"
  by (simp add: attach_storage_def)

lemma register_endpoints_routes:
  assumes "register_endpoints W rand g i es acc = Built (mux', ts')" "distinct (map ep_path es)"
  shows "(\<forall>e \<in> set es. routed W mux' ts' e) \<and> (\<forall>x. x \<notin> ep_path ` set es \<longrightarrow> ts' x = snd acc x) \<and>
    set (fst acc) \<subseteq> set mux' \<and> distinct (map ep_path es)"
  using assms
proof (induction W rand g i es acc rule: register_endpoints.induct)
  case (2 W rand g i x es mux ts)
  from 2(2) obtain t h w where t: "build_transport W (ep_transport x) = Inr t"
    and h: "new_handler (wr_gw W) (wr_new_idem W) (wr_no_idem W) (rand i) (net_of W t) x = Inr (h, w)"
    by (auto split: sum.splits)
  let ?w = "case g of None \<Rightarrow> w | Some gt \<Rightarrow> attach_storage gt (wr_durable W gt) h w"
  obtain mux1 where m: "mux_handle W (ep_path x) (EndpointAt h ?w) mux = Built mux1"
    and rest: "register_endpoints W rand g (Suc i) es (mux1, ts(ep_path x \<mapsto> t)) = Built (mux', ts')"
    using 2(2) t h by auto
  have mux1: "mux1 = mux @ [(ep_path x, EndpointAt h ?w)]" using m by (simp add: mux_handle_Built)
  have IH: "(\<forall>e \<in> set es. routed W mux' ts' e) \<and> (\<forall>y. y \<notin> ep_path ` set es \<longrightarrow> ts' y = (ts(ep_path x \<mapsto> t)) y) \<and>
      set mux1 \<subseteq> set mux'"
    using 2(1) [OF t h refl refl rest] 2(3) by simp
  have "w_net ?w = net_of W t" using new_handler_parts [OF h] by (simp split: option.split)
  moreover have "ts' (ep_path x) = Some t" using IH 2(3) by simp
  moreover have "(ep_path x, EndpointAt h ?w) \<in> set mux'" using IH mux1 by auto
  ultimately have "routed W mux' ts' x" using t new_handler_parts(1) [OF h] unfolding routed_def by blast
  with IH 2(3) mux1 show ?case by auto
qed auto

lemma build_mux_routes:
  assumes "build_mux W rand g c = Built (mux, ts)" "distinct (map ep_path (cf_endpoints c))"
  shows "\<forall>e \<in> set (cf_endpoints c). routed W mux ts e" "x \<notin> ep_path ` set (cf_endpoints c) \<Longrightarrow> ts x = None"
proof -
  obtain mux0 where r: "register_endpoints W rand g 0 (cf_endpoints c) ([], Map.empty) = Built (mux0, ts)"
    and m: "set mux0 \<subseteq> set mux"
    using assms(1) by (auto simp: build_mux_def mux_handle_Built) blast
  note routes = register_endpoints_routes [OF r assms(2)]
  show "\<forall>e \<in> set (cf_endpoints c). routed W mux ts e" using routes m unfolding routed_def by blast
  show "x \<notin> ep_path ` set (cf_endpoints c) \<Longrightarrow> ts x = None" using routes by simp
qed

definition listening :: "('c, 'i, 'r, 'a, 'p) wiring \<Rightarrow> 'c smtp_ingress list \<Rightarrow> routes \<Rightarrow> smtp_listener_config \<Rightarrow> bool" where
  "listening W ings ts l \<longleftrightarrow> (\<exists>ing \<in> set ings. si_name ing = effective_name l \<and>
     build_transport W (sl_transport l) = Inr (si_transport ing) \<and> ts (effective_name l) = Some (si_transport ing))"

lemma build_smtp_ingress_parts:
  assumes "build_smtp_ingress W l = Inr ing"
  shows "si_name ing = effective_name l" "build_transport W (sl_transport l) = Inr (si_transport ing)"
  using assms by (auto simp: build_smtp_ingress_def new_smtp_listener_def listener_config_of_def effective_name_def
    split: sum.splits option.splits)

lemma build_smtp_ingresses_routes:
  assumes "build_smtp_ingresses W g c i ls acc = Built (ings, ts)" "distinct (map effective_name ls)"
  shows "(\<forall>l \<in> set ls. listening W ings ts l) \<and> (\<forall>x. x \<notin> effective_name ` set ls \<longrightarrow> ts x = snd acc x) \<and>
    set (fst acc) \<subseteq> set ings"
  using assms
proof (induction W g c i ls acc rule: build_smtp_ingresses.induct)
  case (2 W g c i l ls out ts0)
  obtain ing where b: "build_smtp_ingress W l = Inr ing"
    and rest: "build_smtp_ingresses W g c (Suc i) ls (out @ [ing\<lparr>si_gate := g\<rparr>], ts0(effective_name l \<mapsto> si_transport ing)) = Built (ings, ts)"
    using 2(2) by (auto split: sum.splits)
  have IH: "(\<forall>l \<in> set ls. listening W ings ts l) \<and>
      (\<forall>x. x \<notin> effective_name ` set ls \<longrightarrow> ts x = (ts0(effective_name l \<mapsto> si_transport ing)) x) \<and>
      set (out @ [ing\<lparr>si_gate := g\<rparr>]) \<subseteq> set ings"
    using 2(1) [OF b rest] 2(3) by simp
  have "ts (effective_name l) = Some (si_transport ing)" using IH 2(3) by simp
  moreover have "ing\<lparr>si_gate := g\<rparr> \<in> set ings" using IH by simp
  ultimately have "listening W ings ts l" unfolding listening_def
    using build_smtp_ingress_parts [OF b] by (intro bexI [of _ "ing\<lparr>si_gate := g\<rparr>"]) simp_all
  with IH 2(3) show ?case by auto
qed auto

section \<open>The running service\<close>

lemma mount_lifecycle_parts:
  assumes "mount_lifecycle W c s = Built sv"
  shows "sv_listeners sv = sv_listeners s" "sv_transports sv = sv_transports s" "set (sv_mux s) \<subseteq> set (sv_mux sv)"
  using assms by (auto simp: mount_lifecycle_def mux_handle_Built split: if_splits sum.splits)

lemma run_serve_parts:
  assumes "run_serve W rand ps c d = Built sv"
  obtains g mux ts where "open_storage ps c d = Built g" "build_mux W rand g c = Built (mux, ts)"
    "build_smtp_ingresses W g c 0 (listeners c) ([], ts) = Built (sv_listeners sv, sv_transports sv)"
    "set mux \<subseteq> set (sv_mux sv)"
    "\<And>gt. g = Some gt \<Longrightarrow> fst (check_unnamed_listener_queue c gt (sv_transports sv)) = None"
proof -
  obtain g mux ts ings ts1 where b: "open_storage ps c d = Built g" "build_mux W rand g c = Built (mux, ts)"
    "build_smtp_ingresses W g c 0 (listeners c) ([], ts) = Built (ings, ts1)"
    and rest: "(let (orphans, g1) = (case g of None \<Rightarrow> (None, None)
           | Some gt \<Rightarrow> map_prod id Some (check_unnamed_listener_queue c gt ts1))
       in case orphans of Some e \<Rightarrow> Refused e
          | None \<Rightarrow> mount_lifecycle W c \<lparr>sv_mux = mux, sv_listeners = ings, sv_transports = ts1,
              sv_gate = g1, sv_webhooks = Map.empty\<rparr>) = Built sv"
    using assms by (auto simp: run_serve_def)
  obtain g1 where m: "mount_lifecycle W c \<lparr>sv_mux = mux, sv_listeners = ings, sv_transports = ts1,
      sv_gate = g1, sv_webhooks = Map.empty\<rparr> = Built sv"
    and ok: "\<And>gt. g = Some gt \<Longrightarrow> fst (check_unnamed_listener_queue c gt ts1) = None"
    using rest by (auto simp: Let_def case_prod_beta split: option.splits)
  from mount_lifecycle_parts [OF m] b ok show ?thesis by (intro that [of g mux ts]) simp_all
qed

lemma name_not_path: "listener_name_ok n \<Longrightarrow> has_prefix p ''/'' \<Longrightarrow> n \<noteq> p"
proof -
  have slash: "byte (CHR ''/'') = 47" by code_simp
  show "listener_name_ok n \<Longrightarrow> has_prefix p ''/'' \<Longrightarrow> n \<noteq> p"
    by (cases p) (auto simp: listener_name_ok_def has_prefix_def slash)
qed

text \<open>A queued row whose submission was accepted at endpoint \<open>x\<close>.\<close>

definition queued_at :: "db \<Rightarrow> string \<Rightarrow> bool" where
  "queued_at d x \<longleftrightarrow> (\<exists>q \<in> set (retry_queue d). \<exists>s \<in> set (submissions d). sub_id s = q_id q \<and> sub_endpoint s = x)"

lemma queued_at_endpoints: "queued_at d x \<longleftrightarrow> x \<in> set (queued_endpoints d)"
  by (auto simp: queued_at_def queued_endpoints_def)

lemma no_orphans:
  assumes "fst (check_unnamed_listener_queue c g ts) = None" "listeners c \<noteq> []" "faults (gate_db g) = []"
    and "queued_at (gate_db g) ''smtp_listener''"
  shows "ts ''smtp_listener'' \<noteq> None"
proof
  assume none: "ts ''smtp_listener'' = None"
  let ?es = "queued_endpoints (gate_db g)"
  have "''smtp_listener'' \<in> set ?es" using assms(4) by (simp add: queued_at_endpoints)
  then have "map_of (map (\<lambda>e. (e, count_list ?es e)) (remdups ?es)) ''smtp_listener'' = Some (count_list ?es ''smtp_listener'')"
    "count_list ?es ''smtp_listener'' \<noteq> 0"
    by (simp_all add: map_of_map_restrict count_list_0_iff)
  with assms(1-3) none show False
    by (simp add: check_unnamed_listener_queue_def on_db_def queued_by_endpoint_def query_nofault)
qed

section \<open>A service for the witnesses\<close>

definition demo_wiring :: "((string, nat) list_lru, (string, cache_entry) list_lru idem_cache,
    (string, rep_result \<times> instant) list_lru, string, string) wiring" where
  "demo_wiring = \<lparr>wr_gw = demo_gw,
     wr_providers = [(''log'', \<lparr>rg_validate = (\<lambda>_. None), rg_carries_headers = True,
       rg_build = (\<lambda>_. Inr (PostmarkT (new_postmark ''k'' [])))\<rparr>)],
     wr_env = (\<lambda>_. demo_env), wr_new_idem = (\<lambda>_. Inr demo_cache), wr_no_idem = demo_cache,
     wr_durable = (\<lambda>_ _. demo_cache), wr_quote = id, wr_pattern_ok = (\<lambda>_. True), wr_conflict = (\<lambda>_ _. False),
     wr_key_pair = (\<lambda>_ _. None), wr_read_file = (\<lambda>_. None), wr_has_certs = (\<lambda>_. False)\<rparr>"

lemma demo_handler_builds: "\<exists>h w. new_handler demo_gw (\<lambda>_. Inr demo_cache) demo_cache None n demo_endpoint = Inr (h, w)"
proof -
  have size: "parse_size ''1MB'' = Inr 1048576" by code_simp
  have tmpl: "\<exists>r. map_sum f id (new_renderer demo_template_lib ''Hi'' ''Thanks'' x) = Inr r" for x and f :: "template_error \<Rightarrow> string"
    by (simp add: new_renderer_def load_body_template_def demo_template_lib_def)
  show ?thesis
    using tmpl
    by (simp add: new_handler_def Let_def demo_endpoint_def demo_gw_def is_api_def new_attachment_policy_def gw_max_body_def
      size build_limiter_def build_reputation_checker_def build_pob_gate_def)
qed

lemma demo_serves: "\<exists>sv. run_serve demo_wiring (\<lambda>_. None) 4096 demo_config (empty_db []) = Built sv"
proof -
  let ?n = "net_of demo_wiring (PostmarkT (new_postmark ''k'' []))"
  obtain h w where h: "new_handler demo_gw (\<lambda>_. Inr demo_cache) demo_cache None ?n demo_endpoint = Inr (h, w)"
    using demo_handler_builds by blast
  have "ep_path demo_endpoint = ''/c''" "tc_type (ep_transport demo_endpoint) = ''log''" by (simp_all add: demo_endpoint_def)
  then show ?thesis using h
    by (simp add: run_serve_def open_storage_def build_mux_def demo_config_def listeners_def mount_lifecycle_def
      build_transport_def mux_handle_def demo_wiring_def)
qed

section \<open>Properties\<close>



section \<open>Validate and serve\<close>

lemma events_limiter_works: "\<exists>l. new_events_limiter L = Inr l"
  by (simp add: new_events_limiter_def new_limiter_def Let_def minute_def second_def)

text \<open>The storage errors of \<open>serve\<close>, which \<open>validate\<close> does not look for.\<close>

fun storage_error :: "start_error \<Rightarrow> bool" where
  "storage_error (StorageSize e) = True"
| "storage_error (StorageOpen e) = True"
| "storage_error (QueueOrphaned n) = True"
| "storage_error _ = False"

lemma open_storage_refusal: "open_storage ps c d = Refused e \<Longrightarrow> storage_error e"
  by (auto simp: open_storage_def split: option.splits sum.splits prod.splits)

lemma mount_lifecycle_not_refused: "mount_lifecycle W c s \<noteq> Refused e"
  using events_limiter_works [of "g_lru (wr_gw W)"]
  by (cases "mux_handle W ''/events/postmark'' (EventsAt (projr (new_events_limiter (g_lru (wr_gw W))))) (sv_mux s)")
    (auto simp: mount_lifecycle_def)

lemma orphan_check_refusal: "fst (check_unnamed_listener_queue c gt ts) = Some e \<Longrightarrow> storage_error e"
  by (auto simp: check_unnamed_listener_queue_def split: if_splits sum.splits option.splits prod.splits)

lemma validate_build_mux:
  assumes "same_rand rand rand'"
  shows "(\<exists>p. build_mux W rand' g c = Panicked p) \<or> refusal (build_mux W rand' g c) = validate_endpoints W rand 0 (cf_endpoints c)"
proof (cases "\<exists>p. register_endpoints W rand' g 0 (cf_endpoints c) ([], Map.empty) = Panicked p")
  case True
  then show ?thesis by (auto simp: build_mux_def)
next
  case False
  then show ?thesis using validate_endpoints_register [OF assms, of W g 0 "cf_endpoints c" "([], Map.empty)"]
    by (simp add: build_mux_refusal)
qed

lemma run_serve_refusal:
  assumes "run_serve W rand ps c d = Refused e"
  obtains (storage) "storage_error e"
  | (mux) g where "build_mux W rand g c = Refused e"
  | (listeners) g mux ts where "build_mux W rand g c = Built (mux, ts)"
      "build_smtp_ingresses W g c 0 (listeners c) ([], ts) = Refused e"
proof (cases "open_storage ps c d")
  case g: (Built g)
  show ?thesis
  proof (cases "build_mux W rand g c")
    case m: (Built x)
    obtain mux ts where x: "x = (mux, ts)" by fastforce
    show ?thesis
    proof (cases "build_smtp_ingresses W g c 0 (listeners c) ([], ts)")
      case (Built y)
      obtain ings ts1 where y: "y = (ings, ts1)" by fastforce
      have "storage_error e"
        using assms g m x Built y mount_lifecycle_not_refused orphan_check_refusal
        by (auto simp: run_serve_def Let_def case_prod_beta split: option.splits)
      then show ?thesis by (rule storage)
    qed (use assms g m x listeners in \<open>auto simp: run_serve_def\<close>)
  qed (use assms g mux in \<open>auto simp: run_serve_def\<close>)
qed (use assms storage open_storage_refusal in \<open>auto simp: run_serve_def\<close>)

text \<open>With the six registered transports, what the configuration layer accepted is built.\<close>

lemma map_of_config_registry:
  "map_of (config_registry R) ty = map_option registration.truncate (map_of R ty)"
  by (induction R) (auto simp: config_registry_def)

lemma accepted_builds:
  assumes "\<exists>reg. map_of (cl_registry L) (tc_type t) = Some reg \<and> rg_validate reg (tc_settings t) = None"
    and "cl_registry L = config_registry (all_providers H)" "wr_providers W = all_providers H"
  shows "\<exists>x. build_transport W t = Inr x \<and> transport_type x = tc_type t"
proof -
  obtain reg where reg: "map_of (all_providers H) (tc_type t) = Some reg" "rg_validate reg (tc_settings t) = None"
    using assms(1,2) by (auto simp: map_of_config_registry registration.truncate_def)
  then obtain x where "rg_build reg (tc_settings t) = Inr x" "transport_type x = tc_type t"
    using valid_settings_build [of H] unfolding register_all_inits by blast
  with reg(1) assms(3) show ?thesis by (simp add: build_transport_def)
qed

lemma validated_transports:
  assumes "validate_config L c0 = Inr c \<and> cl_registry L = config_registry (all_providers H) \<and> wr_providers W = all_providers H"
    and "t \<in> ep_transport ` set (cf_endpoints c) \<union> sl_transport ` set (listeners c)"
  shows "\<exists>x. build_transport W t = Inr x \<and> transport_type x = tc_type t"
proof -
  have v: "validate_config L c0 = Inr c" using assms(1) by blast
  note cfg = validate_config_parts [OF v]
  have "\<exists>reg. map_of (cl_registry L) (tc_type t) = Some reg \<and> rg_validate reg (tc_settings t) = None"
    using assms(2) cfg(1,2,4) validate_endpoint_ok(6)
    by (auto simp: check_endpoints_None list_all_iff listener_ok_def validate_transport_None)
  then show ?thesis using assms(1) accepted_builds by blast
qed

lemma reserved_path_panics:
  assumes "e \<in> set (cf_endpoints c)" "ep_path e \<in> {''/healthz'', ''/metrics''}" "distinct (map ep_path (cf_endpoints c))"
  shows "\<nexists>x. build_mux W rand g c = Built x"
proof
  assume "\<exists>x. build_mux W rand g c = Built x"
  then obtain mux mux0 ts where r: "register_endpoints W rand g 0 (cf_endpoints c) ([], Map.empty) = Built (mux0, ts)"
    and h: "\<forall>(q, x) \<in> set mux0. q \<noteq> ''/healthz'' \<and> q \<noteq> ''/metrics''"
    by (auto simp: build_mux_def mux_handle_Built) blast
  have "routed W mux0 ts e" using register_endpoints_routes [OF r assms(3)] assms(1) by blast
  with h assms(2) show False by (auto simp: routed_def)
qed

text \<open>
  C28: what \<open>validate\<close> accepts, \<open>serve\<close> builds. If it passes, \<open>serve\<close> refuses the same
  configuration only because of its storage (the size string, the open, queued mail without
  a listener), and conversely whatever else \<open>serve\<close> refuses is the error \<open>validate\<close> reports.
  For a configuration that loaded, with the six registered transports, no transport fails to
  build at all. What \<open>validate\<close> does not see is the mux: an endpoint on \<open>/healthz\<close> or
  \<open>/metrics\<close> passes it, and \<open>serve\<close> then panics.
\<close>

theorem validate_covers_serve:
  assumes "same_rand rand rand'"
  shows "(run_serve W rand' ps c d = Refused e \<longrightarrow> storage_error e \<or> run_validate W rand c = Inl e) \<and>
    (run_serve W rand' ps c d = Built sv \<longrightarrow> run_validate W rand c = Inr (validate_summary c)) \<and>
    (validate_config L c0 = Inr c \<and> cl_registry L = config_registry (all_providers H) \<and> wr_providers W = all_providers H \<longrightarrow>
       (\<forall>t \<in> ep_transport ` set (cf_endpoints c) \<union> sl_transport ` set (listeners c).
          \<exists>x. build_transport W t = Inr x \<and> transport_type x = tc_type t)) \<and>
    (validate_config L c0 = Inr c \<and> (\<exists>s. run_validate W rand c = Inr s) \<and>
       (\<exists>x \<in> set (cf_endpoints c). ep_path x \<in> {''/healthz'', ''/metrics''}) \<longrightarrow>
       (\<exists>p. build_mux W rand' g c = Panicked p))"
proof (intro conjI impI)
  assume "run_serve W rand' ps c d = Refused e"
  then show "storage_error e \<or> run_validate W rand c = Inl e"
  proof (cases rule: run_serve_refusal)
    case (mux g)
    with validate_build_mux [OF assms, of W g c] have "validate_endpoints W rand 0 (cf_endpoints c) = Some e" by simp
    then show ?thesis by (simp add: run_validate_def)
  next
    case (listeners g mux ts)
    with validate_build_mux [OF assms, of W g c] show ?thesis
      by (auto simp: run_validate_def validate_listeners_build(1) [where g = g and acc = "([], ts)"])
  qed blast
next
  assume "run_serve W rand' ps c d = Built sv"
  from run_serve_parts [OF this] obtain g mux ts where b: "build_mux W rand' g c = Built (mux, ts)"
    "build_smtp_ingresses W g c 0 (listeners c) ([], ts) = Built (sv_listeners sv, sv_transports sv)" by metis
  with validate_build_mux [OF assms, of W g c] show "run_validate W rand c = Inr (validate_summary c)"
    by (auto simp: run_validate_def validate_listeners_build(1) [where g = g and acc = "([], ts)"])
next
  assume a: "validate_config L c0 = Inr c \<and> cl_registry L = config_registry (all_providers H) \<and> wr_providers W = all_providers H"
  show "\<forall>t \<in> ep_transport ` set (cf_endpoints c) \<union> sl_transport ` set (listeners c).
      \<exists>x. build_transport W t = Inr x \<and> transport_type x = tc_type t"
    using a validated_transports by blast
next
  assume a: "validate_config L c0 = Inr c \<and> (\<exists>s. run_validate W rand c = Inr s) \<and>
       (\<exists>x \<in> set (cf_endpoints c). ep_path x \<in> {''/healthz'', ''/metrics''})"
  have "distinct (map ep_path (cf_endpoints c))"
    using validate_config_parts(1,2) [of L c0 c] a by (auto simp: check_endpoints_None)
  then have "\<nexists>x. build_mux W rand' g c = Built x" using a reserved_path_panics by blast
  moreover have "refusal (build_mux W rand' g c) \<noteq> None \<Longrightarrow> validate_endpoints W rand 0 (cf_endpoints c) \<noteq> None"
    using validate_build_mux [OF assms, of W g c] by auto
  ultimately show "\<exists>p. build_mux W rand' g c = Panicked p"
    using a by (cases "build_mux W rand' g c") (auto simp: run_validate_def)
qed

theorem validate_covers_serve_witness:
  "run_validate demo_wiring (\<lambda>_. None) demo_config = Inr (validate_summary demo_config)"
proof -
  obtain sv where sv: "run_serve demo_wiring (\<lambda>_. None) 4096 demo_config (empty_db []) = Built sv"
    using demo_serves by blast
  have same: "same_rand (\<lambda>_. None) (\<lambda>_. None)" by (simp add: same_rand_def)
  from validate_covers_serve [OF same, of demo_wiring 4096 demo_config "empty_db []" e sv demo_lib demo_config demo_http None for e] sv
  show ?thesis by blast
qed

end
