(* ===== verification/Suppressions_Cmd.thy ===== *)
theory Suppressions_Cmd
  imports Config Storage_Lists
begin

text \<open>
  \<open>core/cmd/posthorn/suppressions.go\<close>: the command that lists and edits the suppression list
  in the storage file, which a running instance may have open. The database is the file; for
  an in-memory configuration it is a fresh one. The flag parser, the loaded configuration,
  the time format and the column layout (\<open>tabwriter\<close>) are parameters.
\<close>

record cli =
  cli_flags :: "string \<Rightarrow> string list \<Rightarrow> string + (string \<times> string)"
    \<comment> \<open>the flags of a subcommand: configuration path and reason\<close>
  cli_load :: "string \<Rightarrow> string + config"
  cli_page_size :: int
  cli_lower :: "string \<Rightarrow> string"
  cli_now :: instant
  cli_time :: "instant \<Rightarrow> string"
  cli_table :: "string list list \<Rightarrow> string"

datatype cli_error =
  NoSubcommand | EmailRequired string | BadFlags string | LoadFailed string | NoStorage string
| BadMaxSize size_error | StoreFailed string | UnknownSubcommand string

definition open_configured_store :: "cli \<Rightarrow> string \<Rightarrow> db \<Rightarrow> cli_error option \<times> db" where
  "open_configured_store C path d =
     (case cli_load C path of
        Inl e \<Rightarrow> (Some (LoadFailed e), d)
      | Inr c \<Rightarrow>
          (case cf_storage c of
             None \<Rightarrow> (Some (NoStorage path), d)
           | Some s \<Rightarrow>
               (case parse_size (effective_max_size (Some s)) of
                  Inl e \<Rightarrow> (Some (BadMaxSize e), d)
                | Inr max_size \<Rightarrow>
                    (case open_store (cli_page_size C) \<lparr>st_path = ss_path s, st_in_memory = ss_in_memory s,
                         st_retention = effective_retention (Some s), st_max_size = max_size\<rparr> d of
                       (Inl e, d1) \<Rightarrow> (Some (StoreFailed e), d1)
                     | (Inr _, d1) \<Rightarrow> (None, d1)))))"

definition plural :: "nat \<Rightarrow> string \<Rightarrow> string \<Rightarrow> string" where
  "plural n one many = (if n = 1 then one else many)"

definition suppression_line :: "cli \<Rightarrow> suppression \<Rightarrow> string list" where
  "suppression_line C r = [sup_email r, sup_reason r, if sup_endpoint r = [] then ''-'' else sup_endpoint r,
     cli_time C (sup_created_at r)]"

text \<open>The subcommand on the open store, and what it prints.\<close>

definition suppressions_on :: "cli \<Rightarrow> string \<Rightarrow> string \<Rightarrow> string \<Rightarrow> db \<Rightarrow> (cli_error + string) \<times> db" where
  "suppressions_on C sub email reason d =
     (if sub = ''list'' then
        (case list_suppressions 10000 d of
           (Inl e, d1) \<Rightarrow> (Inl (StoreFailed e), d1)
         | (Inr rows, d1) \<Rightarrow>
             (Inr (if rows = [] then ''no suppressions''
                else cli_table C ([''EMAIL'', ''REASON'', ''SOURCE'', ''SINCE''] # map (suppression_line C) rows)), d1))
      else if sub = ''add'' then
        (case add_suppression (cli_lower C) email reason [] (cli_now C) d of
           (Inl e, d1) \<Rightarrow> (Inl (StoreFailed e), d1)
         | (Inr _, d1) \<Rightarrow> (Inr (''suppressed '' @ email @ '' ('' @ reason @ '')''), d1))
      else if sub = ''remove'' then
        (case remove_suppression (cli_lower C) email d of
           (Inl e, d1) \<Rightarrow> (Inl (StoreFailed e), d1)
         | (Inr n, d1) \<Rightarrow>
             (Inr (if n = 0 then email @ '' was not suppressed''
                else ''removed '' @ email @ '' ('' @ show_int (int n) @ '' entr'' @ plural n ''y'' ''ies'' @ '')''), d1))
      else (Inl (UnknownSubcommand sub), d))"

definition takes_email :: "string \<Rightarrow> bool" where
  "takes_email sub \<longleftrightarrow> sub = ''add'' \<or> sub = ''remove''"

definition run_suppressions :: "cli \<Rightarrow> string list \<Rightarrow> db \<Rightarrow> (cli_error + string) \<times> db" where
  "run_suppressions C args d =
     (case args of
        [] \<Rightarrow> (Inl NoSubcommand, d)
      | sub # rest \<Rightarrow>
          if takes_email sub \<and> (rest = [] \<or> hd rest = [] \<or> hd (hd rest) = CHR ''-'') then (Inl (EmailRequired sub), d)
          else (case cli_flags C sub (if takes_email sub then tl rest else rest) of
              Inl e \<Rightarrow> (Inl (BadFlags e), d)
            | Inr (path, reason) \<Rightarrow>
                (case open_configured_store C path d of
                   (Some e, d1) \<Rightarrow> (Inl e, d1)
                 | (None, d1) \<Rightarrow> suppressions_on C sub (if takes_email sub then hd rest else []) reason d1)))"

section \<open>Opening a store that is in use\<close>

text \<open>A database at the current schema on a working engine.\<close>

definition live_db :: "db \<Rightarrow> bool" where
  "live_db d \<longleftrightarrow> faults d = [] \<and> user_version d = schema_version"

text \<open>What recovery does to the log and the queue, when nothing fails.\<close>

definition requeued :: "db \<Rightarrow> db" where
  "requeued d = d\<lparr>retry_queue := retry_queue d @
       map (\<lambda>s. \<lparr>q_id = sub_id s, q_attempt = 0, q_next = 0\<rparr>)
         (filter (\<lambda>s. sub_status s = StSending \<and> \<not> in_queue d (sub_id s)) (submissions d)),
     submissions := map (\<lambda>s. if sub_status s = StSending then s\<lparr>sub_status := StQueued\<rparr> else s) (submissions d)\<rparr>"

lemma recover_nofault: "faults d = [] \<Longrightarrow> recover_in_flight d = (Inr (), requeued d)"
  by (simp add: recover_in_flight_def and_then_def exec_nofault requeued_def)

lemma migrate_live: "live_db d \<Longrightarrow> migrate d = (Inr (), d)"
  by (simp add: live_db_def migrate_def and_then_def query_nofault done_op_def schema_version_def)

lemma open_live:
  assumes "live_db d" "st_in_memory cfg \<or> st_path cfg \<noteq> []" "0 < page_size"
  shows "\<exists>m. open_store page_size cfg d = (Inr (), requeued (d\<lparr>max_page_count := m\<rparr>))"
proof -
  have "live_db (d\<lparr>max_page_count := m\<rparr>)" for m using assms(1) by (simp add: live_db_def)
  note live = migrate_live [OF this] migrate_live [OF assms(1)]
  have nf: "faults d = []" using assms(1) by (simp add: live_db_def)
  then have f: "recover_in_flight (d\<lparr>max_page_count := m\<rparr>) = (Inr (), requeued (d\<lparr>max_page_count := m\<rparr>))" for m
    by (intro recover_nofault) simp
  have same: "\<exists>m. requeued d = requeued (d\<lparr>max_page_count := m\<rparr>)"
    by (rule exI [of _ "max_page_count d"]) simp
  show ?thesis
    using assms(2,3) nf f [of "max_page_count d"] f live same
    unfolding open_store_def store_init_def and_then_def
    by (cases "st_max_size cfg > 0"; cases "is_memory cfg") (auto simp: exec_nofault query_nofault done_op_def)
qed

definition cli_opens :: "cli \<Rightarrow> string \<Rightarrow> string list \<Rightarrow> string \<Rightarrow> bool" where
  "cli_opens C sub flags reason \<longleftrightarrow> 0 < cli_page_size C \<and>
     (\<exists>path c s n. cli_flags C sub flags = Inr (path, reason) \<and> cli_load C path = Inr c \<and>
        cf_storage c = Some s \<and> validate_storage s = None \<and> parse_size (effective_max_size (Some s)) = Inr n)"

lemma configured_opens:
  assumes "live_db d" "cli_opens C sub flags reason"
  obtains path m where "cli_flags C sub flags = Inr (path, reason)"
    "open_configured_store C path d = (None, requeued (d\<lparr>max_page_count := m\<rparr>))"
proof -
  obtain path c s n where c: "cli_flags C sub flags = Inr (path, reason)" "cli_load C path = Inr c" "cf_storage c = Some s"
    "validate_storage s = None" "parse_size (effective_max_size (Some s)) = Inr n" "0 < cli_page_size C"
    using assms(2) unfolding cli_opens_def by blast
  let ?cfg = "\<lparr>st_path = ss_path s, st_in_memory = ss_in_memory s, st_retention = effective_retention (Some s), st_max_size = n\<rparr>"
  have "st_in_memory ?cfg \<or> st_path ?cfg \<noteq> []" using c(4) by (auto simp: validate_storage_def)
  from open_live [OF assms(1) this c(6)] obtain m
    where "open_store (cli_page_size C) ?cfg d = (Inr (), requeued (d\<lparr>max_page_count := m\<rparr>))" by blast
  with c show ?thesis by (intro that [of path m]) (simp_all add: open_configured_store_def)
qed

lemma requeued_simps [simp]:
  "faults (requeued d) = faults d" "suppressions (requeued d) = suppressions d"
  by (simp_all add: requeued_def)

lemma requeued_sending:
  assumes "s \<in> set (submissions d)" "sub_status s = StSending"
  shows "in_queue (requeued d) (sub_id s) \<and> s\<lparr>sub_status := StQueued\<rparr> \<in> set (submissions (requeued d))"
  using assms by (force simp: requeued_def in_queue_def)

lemma suppressed_requeued [simp]: "suppressed lower (requeued (d\<lparr>max_page_count := m\<rparr>)) x = suppressed lower d x"
  by (simp add: suppressed_def)

text \<open>What a subcommand does to the suppressions; the rest of the database stays.\<close>

definition suppressed_after :: "(string \<Rightarrow> string) \<Rightarrow> string \<Rightarrow> string \<Rightarrow> db \<Rightarrow> string \<Rightarrow> bool" where
  "suppressed_after lower sub email d x \<longleftrightarrow>
     (let same = (normalize_email lower x = normalize_email lower email)
      in if sub = ''add'' then suppressed lower d x \<or> same
         else if sub = ''remove'' then suppressed lower d x \<and> \<not> same
         else suppressed lower d x)"

lemma suppressions_on_effect:
  assumes "faults d = []" "sub \<in> {''list'', ''add'', ''remove''}" "normalize_email (cli_lower C) email \<noteq> []"
    and "suppressions_on C sub (if takes_email sub then email else []) reason d = (res, d1)"
  shows "(\<exists>out. res = Inr out) \<and> submissions d1 = submissions d \<and> retry_queue d1 = retry_queue d \<and>
    suppressed (cli_lower C) d1 x = suppressed_after (cli_lower C) sub email d x"
  using assms(2)
proof (elim insertE emptyE)
  assume s: "sub = ''list''"
  show ?thesis using assms(1,4)
    by (auto simp: s suppressions_on_def list_suppressions_def query_nofault suppressed_after_def)
next
  assume s: "sub = ''add''"
  show ?thesis using assms(1,3,4)
    by (auto simp: s suppressions_on_def add_suppression_def exec_nofault Let_def takes_email_def suppressed_after_def suppressed_def
      split: if_splits)
next
  assume s: "sub = ''remove''"
  show ?thesis using assms(1,4)
    by (auto simp: s suppressions_on_def remove_suppression_def stmt_nofault takes_email_def suppressed_after_def suppressed_def)
qed

section \<open>Properties\<close>

text \<open>
  C31: the suppressions command. On a configured store of the current schema, \<open>add\<close> suppresses
  exactly the spellings of its address in addition, \<open>remove\<close> exactly those no longer, and
  \<open>list\<close> changes no suppression. But each of them opens the store, and opening it runs the
  crash recovery: every submission that another process is sending at that moment is put back
  in the retry queue, so a listing beside a running instance can send mail twice.
\<close>

theorem suppressions_command:
  assumes "live_db d" "cli_opens C sub flags reason" "sub \<in> {''list'', ''add'', ''remove''}"
    and "\<not> has_prefix email ''-''" "normalize_email (cli_lower C) email \<noteq> []" "email \<noteq> []"
    and "run_suppressions C (sub # (if takes_email sub then email # flags else flags)) d = (res, d1)"
  shows "(\<exists>out. res = Inr out) \<and>
    (\<forall>x. suppressed (cli_lower C) d1 x = suppressed_after (cli_lower C) sub email d x) \<and>
    (\<forall>s \<in> set (submissions d). sub_status s = StSending \<longrightarrow>
       in_queue d1 (sub_id s) \<and> s\<lparr>sub_status := StQueued\<rparr> \<in> set (submissions d1))"
proof -
  obtain path m where o: "cli_flags C sub flags = Inr (path, reason)"
    "open_configured_store C path d = (None, requeued (d\<lparr>max_page_count := m\<rparr>))"
    by (rule configured_opens [OF assms(1,2)])
  let ?d = "requeued (d\<lparr>max_page_count := m\<rparr>)"
  have email: "hd email \<noteq> CHR ''-''" using assms(4,6) by (cases email) (auto simp: has_prefix_def)
  have run: "suppressions_on C sub (if takes_email sub then email else []) reason ?d = (res, d1)"
    using assms(6,7) o email by (simp add: run_suppressions_def split: if_splits)
  have nf: "faults ?d = []" using assms(1) by (simp add: live_db_def)
  have sending: "in_queue ?d (sub_id s) \<and> s\<lparr>sub_status := StQueued\<rparr> \<in> set (submissions ?d)"
    if "s \<in> set (submissions d)" "sub_status s = StSending" for s
    using that by (intro requeued_sending) simp_all
  note eff = suppressions_on_effect [OF nf assms(3,5) run]
  have "suppressed_after (cli_lower C) sub email ?d x = suppressed_after (cli_lower C) sub email d x" for x
    by (simp add: suppressed_after_def)
  with eff sending show ?thesis by (simp add: in_queue_def)
qed

definition demo_cli :: cli where
  "demo_cli = \<lparr>cli_flags = (\<lambda>_ _. Inr (''p'', ''manual'')),
     cli_load = (\<lambda>_. Inr (demo_config\<lparr>cf_storage := Some \<lparr>ss_path = ''db'', ss_in_memory = False, ss_retention = 0, ss_max_size = []\<rparr>\<rparr>)),
     cli_page_size = 4096, cli_lower = ascii_lower, cli_now = 0, cli_time = (\<lambda>_. []), cli_table = (\<lambda>_. [])\<rparr>"

lemma demo_cli_opens: "cli_opens demo_cli sub flags ''manual''"
proof -
  have "parse_size ''1GB'' = Inr 1073741824" by code_simp
  then show ?thesis
    by (simp add: cli_opens_def demo_cli_def demo_config_def validate_storage_def effective_max_size_def check_def first_some.simps)
qed

definition demo_live :: db where
  "demo_live = (empty_db [])\<lparr>user_version := schema_version, submissions := [demo_sub\<lparr>sub_status := StSending\<rparr>]\<rparr>"

theorem suppressions_command_witness:
  "in_queue (snd (run_suppressions demo_cli [''list''] demo_live)) (sub_id demo_sub)"
proof -
  obtain res d1 where r: "run_suppressions demo_cli (''list'' # (if takes_email ''list'' then ''b@x.com'' # [] else [])) demo_live = (res, d1)"
    by fastforce
  have l: "live_db demo_live" by (simp add: live_db_def demo_live_def empty_db_def)
  have e: "\<not> has_prefix ''b@x.com'' ''-''" "normalize_email (cli_lower demo_cli) ''b@x.com'' \<noteq> []" "''b@x.com'' \<noteq> []"
    by (simp_all add: demo_cli_def) code_simp+
  have "in_queue d1 (sub_id (demo_sub\<lparr>sub_status := StSending\<rparr>))"
    using suppressions_command [OF l demo_cli_opens _ e r] by (simp add: demo_live_def)
  with r show ?thesis by (simp add: takes_email_def)
qed

end
