(* ===== verification/Spec2Isabelle.thy ===== *)
theory Spec2Isabelle
  imports Gateway_Claims Retry_Worker Client_IP Rate_Limit Idempotency Spam_Checks HTML_Text SMTP_Claims Config Template
    Lifecycle Transports Recorder Ingress Wiring_Claims Suppressions_Cmd
begin

text \<open>
  A verification development for Posthorn, the outbound mail gateway under \<open>src/core\<close> (Go).

  \<^bold>\<open>The program.\<close> Mail enters by two ingresses: HTTP endpoints, in form mode for browsers or in
  api mode for programs (\<open>gateway/\<close>), and SMTP listeners (\<open>smtp/\<close>). A submission is checked,
  validated and made a \<open>transport.Message\<close>, filtered against the suppression list, recorded,
  and sent through the transport of its endpoint with at most one inline retry
  (\<open>transport/retry.go\<close>). With a storage block the log, the retry queue, idempotency rows,
  suppressions and the forward queue are SQLite tables (\<open>storage/\<close>): a submission whose send
  failed transiently is queued and answered 202 or 250, and a worker replays it on a backoff
  ladder. The mail provider's delivery events come back on \<open>/events/postmark\<close> (\<open>lifecycle/\<close>),
  add suppressions and are forwarded to the endpoint's webhook. \<open>cmd/posthorn\<close> builds all of
  it from a TOML file (\<open>config/\<close>) and runs it until a signal.

  \<^bold>\<open>Theories\<close>, in the order of the dependencies; each names its files under \<open>src/core\<close>.

  \<^item> \<open>Prelude\<close>: byte strings, instants, durations, results, the parts of \<open>strings\<close>, \<open>strconv\<close> and
    \<open>net/textproto\<close> the program uses. \<open>Go_Float\<close>: \<open>float64\<close> arithmetic as rounding of rationals.
    \<open>LRU_Cache\<close>: the interface of the third-party cache and a model of it.
  \<^item> \<open>Rate_Limit\<close>, \<open>Client_IP\<close> (\<open>ratelimit/\<close>); \<open>Spam_Checks\<close> (\<open>spam/\<close>, \<open>csrf/\<close>, \<open>validate/\<close>,
    \<open>response/\<close>); \<open>Provider_Checks\<close> (\<open>reputation/\<close>, \<open>captcha/\<close>); \<open>Config\<close> (\<open>config/config.go\<close>,
    the lookup of \<open>transport/registry.go\<close>); \<open>Template\<close>, \<open>HTML_Text\<close> (\<open>template/\<close>).
  \<^item> \<open>Transport_Core\<close> (\<open>transport.go\<close>, \<open>retry.go\<close>), \<open>SMTP_Out\<close> (\<open>smtpout.go\<close>), \<open>JSON_Body\<close>
    (what \<open>encoding/json\<close> and base64 write), \<open>SigV4\<close> (\<open>awssigv4.go\<close>), \<open>Providers\<close> (requests and
    answers of the five HTTP transports), \<open>Transports\<close> (settings, registry, \<open>Send\<close>).
  \<^item> \<open>Storage\<close> (every statement of \<open>storage/\<close> as an operation on tables), \<open>Storage_Inv\<close> (invariant,
    runs, what is never lost), \<open>Storage_Lists\<close> (suppressions, idempotency rows, forward queue, gate
    and maintenance), \<open>Retry_Worker\<close> (\<open>worker.go\<close>), \<open>Gate_Calls\<close> (how the ingresses call a store
    that may fail), \<open>Idempotency\<close> (\<open>idempotency/\<close>).
  \<^item> \<open>Gateway_Parse\<close>, \<open>Gateway\<close>, \<open>Gateway_Claims\<close>: \<open>gateway/handler.go\<close> and \<open>attachments.go\<close>; one
    definition per phase of \<open>ServeHTTP\<close>, which answers or passes on, and their composition.
  \<^item> \<open>Mail_Parse\<close>, \<open>SMTP_Session\<close>, \<open>SMTP_Props\<close>, \<open>SMTP_Claims\<close>: \<open>smtp/\<close>; one definition per command
    handler, the command loop, the connection slots. \<open>Ingress\<close>: \<open>Start\<close> and \<open>Stop\<close> of the
    listeners (\<open>smtp/listener.go\<close>, \<open>ingress/http.go\<close>) as interleaved steps, and the shutdown.
  \<^item> \<open>Lifecycle\<close> (\<open>lifecycle/\<close>); \<open>Metrics\<close>, \<open>Recorder\<close> (\<open>metrics/\<close>).
  \<^item> \<open>Wiring\<close>, \<open>Wiring_Claims\<close>, \<open>Suppressions_Cmd\<close>: the commands of \<open>cmd/posthorn/\<close>.

  Structs are records and tagged unions datatypes, with a prefix for the fields (\<open>ep_\<close>, \<open>sl_\<close>,
  \<open>lc_\<close>, \<open>sub_\<close>, \<open>msg_\<close>, \<open>w_\<close>). Operations return their new state; a Go error is the left of a
  sum or the \<open>Some\<close> of an option, a panic its own outcome. Every SQL statement first reads a
  script \<open>faults\<close>, so any statement may fail and properties say what holds then. What the
  outside does is a function of how often it was asked: \<open>provider k m\<close>, clocks, identifiers.

  \<^bold>\<open>What is shown\<close>, by the claims stated above the theorems.

  \<^item> Limits: grants within a window, a fresh burst, memory; the client address cannot be forged.
  \<^item> HTTP: only authenticated or fully checked submissions are sent, replies account for the
    message, authentication comes first, idempotency keys, the silent honeypot.
  \<^item> Storage and queue: log and queue agree in every reachable store, queued mail is kept, the
    ladder, bounded background sends, progress, and retries go where the mail was accepted.
  \<^item> SMTP: relaying is guarded, replies account for the message, sessions end, DATA is transparent,
    slots refine a multiset, the life cycle of a listener under every interleaving.
  \<^item> Transports: no header injection, the relay transaction, classification of provider answers,
    payloads read back, secrets stay in their header, the signed text determines the request.
  \<^item> Configuration and start: what a valid configuration satisfies, what \<open>validate\<close> accepts
    \<open>serve\<close> builds. Lifecycle: which events suppress, bounded forwards. Metrics: totals, no panic.

  Interfaces are locales: \<open>rounding\<close> (interpreted by \<open>rnd64\<close>), \<open>lru_cache\<close> with its extensions
  \<open>limiter_cache\<close> and \<open>idem_lru\<close>, \<open>cacher\<close> (both idempotency backends), \<open>mail_provider\<close> (the four
  HTTP transports that carry mail headers).

  \<^bold>\<open>Bounds and fuel.\<close> The only fuel is that of \<open>run_loop\<close>, one unit per SMTP command; \<open>session_size\<close>
  (all lines the client sends, over all handshakes) is proved enough, whatever the client does.
  Every other loop is structural or has a measure. \<open>int64\<close> is written out where it can wrap
  (size strings, body limits, counters); the retry ladder has five steps.

  \<^bold>\<open>Parameters.\<close> \<open>net/mail\<close>, MIME readers, \<open>net/netip\<close>, \<open>url.Parse\<close>, Unicode lower case, TOML,
  template engines, HMAC and SHA-256, HTTP clients and \<open>json.Unmarshal\<close>, \<open>net/smtp\<close> behind the
  relay, \<open>ServeMux\<close> conflicts, TLS and files, random bytes. The SQLite engine is its documented
  effect on rows.

  \<^bold>\<open>Not modelled.\<close> Log lines; the calls of the metrics recorder inside handlers (the recorder
  itself is modelled); argument parsing and printing of the commands; time limits of
  \<open>http.Server\<close>; \<open>providertest/\<close>, a battery for tests. Requests to one handler run one at a
  time, and concurrent claims of one idempotency key are the subject of \<open>Idempotency\<close>; with
  storage the durable backend holds its own copy of the gate. The texts of construction and
  configuration errors are abbreviated and their quoted values left out; \<open>http.Error\<close>'s final
  newline is implicit; the second EHLO after STARTTLS and the QUIT after a failed AUTH are
  folded into their commands; a Go map is iterated in the order of its list; float overflow
  and subnormal numbers do not occur in the ranges used.
\<close>

end
